(* ===== verification/Prelude.thy ===== *)
theory Prelude
  imports Main "HOL-Library.Multiset" "HOL-Library.AList" "HOL-Library.Sublist"
    "HOL-Library.Char_ord" "HOL-Library.List_Lexorder"
begin

section \<open>Shared vocabulary of the model\<close>

text \<open>
  What every component uses: the outcome of a Go computation that may panic, Go maps as
  association lists together with their unspecified iteration order, 64-bit wrap-around,
  the pieces of the packages \<open>strings\<close>, \<open>sort\<close> and \<open>strconv\<close> the sources call, and the
  lemma collections of the development.
\<close>

named_theorems go_simps "evaluation of Go outcomes and Go maps"
named_theorems gmap_intros "well-formedness of Go maps is kept by every map operation"

subsection \<open>Outcomes: a value, a run-time panic, or no return\<close>

text \<open>
  A Go function that reads an element of a slice, dereferences a pointer or sizes a slice
  may panic. Its model returns \<open>Panic\<close> with the reason in exactly those cases; \<open>Hang\<close> is the
  outcome of a call that waits for a lock nobody will release, and so never returns. A Go
  \<open>error\<close> result is an ordinary value, \<open>Inl\<close> of the message in a sum.
\<close>

datatype go_panic = IndexOutOfRange | NilDereference | BadCapacity | Raised string

datatype 'a go = Ret 'a | Panic go_panic | Hang

fun go_bind :: "'a go \<Rightarrow> ('a \<Rightarrow> 'b go) \<Rightarrow> 'b go" where
  "go_bind (Ret x) f = f x"
| "go_bind (Panic p) f = Panic p"
| "go_bind Hang f = Hang"

definition go_index :: "'a list \<Rightarrow> nat \<Rightarrow> 'a go" where
  "go_index xs i = (if i < length xs then Ret (xs ! i) else Panic IndexOutOfRange)"

definition go_deref :: "'a option \<Rightarrow> 'a go" where
  "go_deref p = (case p of None \<Rightarrow> Panic NilDereference | Some x \<Rightarrow> Ret x)"

type_synonym 'a result = "string + 'a"

lemma go_bind_Ret_right [simp]: "go_bind m Ret = m"
  by (cases m) auto

lemma go_bind_eq_Ret_iff: "go_bind m f = Ret y \<longleftrightarrow> (\<exists>x. m = Ret x \<and> f x = Ret y)"
  by (cases m) auto

lemma go_bind_eq_Panic_iff:
  "go_bind m f = Panic p \<longleftrightarrow> m = Panic p \<or> (\<exists>x. m = Ret x \<and> f x = Panic p)"
  by (cases m) auto

lemma case_sum_eq_Ret_iff:
  "(case x of Inl a \<Rightarrow> f a | Inr b \<Rightarrow> g b) = Ret y \<longleftrightarrow>
   (\<exists>a. x = Inl a \<and> f a = Ret y) \<or> (\<exists>b. x = Inr b \<and> g b = Ret y)"
  by (cases x) auto

lemma case_option_eq_Ret_iff:
  "(case x of None \<Rightarrow> n | Some a \<Rightarrow> f a) = Ret y \<longleftrightarrow> x = None \<and> n = Ret y \<or> (\<exists>a. x = Some a \<and> f a = Ret y)"
  by (cases x) auto

lemma go_deref_eq_Ret_iff: "go_deref p = Ret x \<longleftrightarrow> p = Some x"
  by (cases p) (simp_all add: go_deref_def)

lemma if_eq_Ret_iff: "(if c then a else b) = Ret y \<longleftrightarrow> c \<and> a = Ret y \<or> \<not> c \<and> b = Ret y"
  by simp

lemmas ret_iffs = go_bind_eq_Ret_iff case_sum_eq_Ret_iff case_option_eq_Ret_iff go_deref_eq_Ret_iff if_eq_Ret_iff

lemma go_bind_assoc: "go_bind (go_bind m f) g = go_bind m (\<lambda>x. go_bind (f x) g)"
  by (cases m) auto

lemma go_index_Ret [go_simps]: "i < length xs \<Longrightarrow> go_index xs i = Ret (xs ! i)"
  by (simp add: go_index_def)

lemma go_index_Panic [go_simps]: "length xs \<le> i \<Longrightarrow> go_index xs i = Panic IndexOutOfRange"
  by (simp add: go_index_def)

lemma go_deref_Some [go_simps]: "go_deref (Some x) = Ret x"
  by (simp add: go_deref_def)

lemma go_deref_None [go_simps]: "go_deref None = Panic NilDereference"
  by (simp add: go_deref_def)

subsection \<open>Go maps\<close>

text \<open>
  A Go map is an association list without repeated keys. \<open>m[k] = v\<close> is \<open>gput\<close>,
  \<open>delete(m, k)\<close> is \<open>gdel\<close>, \<open>m[k]\<close> is \<open>gget\<close> and \<open>len(m)\<close> is the length. The language
  leaves the order of \<open>range m\<close> open: an operation that ranges over a map takes the order
  of that one loop as an argument \<open>it\<close>, and its theorems hold for every \<open>it\<close> that visits
  each entry exactly once (\<open>ranges m it\<close>).
\<close>

type_synonym ('k, 'v) gmap = "('k \<times> 'v) list"

definition gget :: "('k, 'v) gmap \<Rightarrow> 'k \<Rightarrow> 'v option" where
  "gget m k = map_of m k"

definition gput :: "'k \<Rightarrow> 'v \<Rightarrow> ('k, 'v) gmap \<Rightarrow> ('k, 'v) gmap" where
  "gput k v m = AList.update k v m"

definition gdel :: "'k \<Rightarrow> ('k, 'v) gmap \<Rightarrow> ('k, 'v) gmap" where
  "gdel k m = AList.delete k m"

definition gkeys :: "('k, 'v) gmap \<Rightarrow> 'k set" where
  "gkeys m = fst ` set m"

definition gmap_ok :: "('k, 'v) gmap \<Rightarrow> bool" where
  "gmap_ok m \<longleftrightarrow> distinct (map fst m)"

definition ranges :: "('k, 'v) gmap \<Rightarrow> ('k \<times> 'v) list \<Rightarrow> bool" where
  "ranges m it \<longleftrightarrow> mset it = mset m"

lemma gmap_ok_Nil [simp, gmap_intros]: "gmap_ok []"
  by (simp add: gmap_ok_def)

lemma gmap_ok_gput [gmap_intros, intro]: "gmap_ok m \<Longrightarrow> gmap_ok (gput k v m)"
  by (simp add: gmap_ok_def gput_def distinct_update)

lemma gmap_ok_gdel [gmap_intros, intro]: "gmap_ok m \<Longrightarrow> gmap_ok (gdel k m)"
  by (simp add: gmap_ok_def gdel_def distinct_delete)

lemma gget_Nil [simp]: "gget [] k = None"
  by (simp add: gget_def)

lemma gget_gput [simp]: "gget (gput k v m) k' = (if k' = k then Some v else gget m k')"
  by (simp add: gget_def gput_def update_conv)

lemma gget_gdel [simp]: "gget (gdel k m) k' = (if k' = k then None else gget m k')"
  by (simp add: gget_def gdel_def delete_conv)

lemma gkeys_gput [simp]: "gkeys (gput k v m) = insert k (gkeys m)"
  by (simp add: gkeys_def gput_def dom_update)

lemma gkeys_gdel [simp]: "gkeys (gdel k m) = gkeys m - {k}"
  unfolding gkeys_def gdel_def list.set_map [symmetric] delete_keys by simp

lemma gget_None_iff: "gget m k = None \<longleftrightarrow> k \<notin> gkeys m"
  by (simp add: gget_def gkeys_def map_of_eq_None_iff)

lemma gget_in_set: "gget m k = Some v \<Longrightarrow> (k, v) \<in> set m"
  by (simp add: gget_def map_of_SomeD)

lemma gget_Some_iff: "gmap_ok m \<Longrightarrow> gget m k = Some v \<longleftrightarrow> (k, v) \<in> set m"
  by (simp add: gget_def gmap_ok_def)

lemma length_gmap: "gmap_ok m \<Longrightarrow> length m = card (gkeys m)"
  by (metis distinct_card gkeys_def gmap_ok_def length_map list.set_map)

lemma gkeys_Nil [simp]: "gkeys [] = {}"
  by (simp add: gkeys_def)

lemma finite_gkeys [simp]: "finite (gkeys m)"
  by (simp add: gkeys_def)

lemma length_gput:
  "gmap_ok m \<Longrightarrow> length (gput k v m) = (if k \<in> gkeys m then length m else Suc (length m))"
  by (simp add: length_gmap gmap_ok_gput insert_absorb)

lemma length_gdel_le: "gmap_ok m \<Longrightarrow> length (gdel k m) \<le> length m"
  by (simp add: length_gmap gmap_ok_gdel card_mono)

lemma gmap_empty_iff: "m = [] \<longleftrightarrow> (\<forall>k. gget m k = None)"
  by (cases m) (auto simp: gget_def)

lemma in_set_gput: "e \<in> set (gput k v m) \<Longrightarrow> e = (k, v) \<or> e \<in> set m"
  by (induction m) (auto simp: gput_def split: if_splits)

lemma in_set_gdel: "e \<in> set (gdel k m) \<Longrightarrow> e \<in> set m \<and> fst e \<noteq> k"
  by (auto simp: gdel_def AList.delete_eq)

lemma ranges_refl [simp]: "ranges m m"
  by (simp add: ranges_def)

lemma ranges_set: "ranges m it \<Longrightarrow> set it = set m"
  unfolding ranges_def by (rule mset_eq_setD)

lemma ranges_length: "ranges m it \<Longrightarrow> length it = length m"
  unfolding ranges_def by (rule mset_eq_length)

lemma ranges_ok: "ranges m it \<Longrightarrow> gmap_ok m \<Longrightarrow> gmap_ok it"
  unfolding ranges_def gmap_ok_def
  by (metis mset_eq_imp_distinct_iff mset_map)

lemma ranges_keys: "ranges m it \<Longrightarrow> gkeys it = gkeys m"
  by (simp add: gkeys_def ranges_set)

lemma ranges_gget: "ranges m it \<Longrightarrow> gmap_ok m \<Longrightarrow> gget it k = gget m k"
  by (metis gget_None_iff gget_Some_iff not_None_eq ranges_keys ranges_ok ranges_set)

subsection \<open>64-bit integers\<close>

text \<open>Go's \<open>int64\<close>, and \<open>int\<close> on the 64-bit targets of dheart, wrap around at two's complement.\<close>

definition i64 :: "int \<Rightarrow> int" where
  "i64 x = (x + 2 ^ 63) mod 2 ^ 64 - 2 ^ 63"

lemma i64_id: "- (2 ^ 63) \<le> x \<Longrightarrow> x < 2 ^ 63 \<Longrightarrow> i64 x = x"
  by (simp add: i64_def)

lemma i64_range: "- (2 ^ 63) \<le> i64 x \<and> i64 x < 2 ^ 63"
proof -
  have "0 \<le> (x + 2 ^ 63) mod 2 ^ 64" and "(x + 2 ^ 63) mod 2 ^ 64 < (2 :: int) ^ 64"
    by simp_all
  then show ?thesis by (simp add: i64_def)
qed

subsection \<open>Strings\<close>

text \<open>
  \<open>strings.Split(s, sep)\<close> for the non-empty separators the sources use, \<open>strings.Join\<close>,
  and decimal printing (\<open>%d\<close> and \<open>strconv.FormatInt\<close>). \<open>sort.Strings\<close> is \<open>sort\<close> on the
  lexicographic order of \<open>List_Lexorder\<close>, bytes compared by \<open>Char_ord\<close>.
\<close>

function split_from :: "string \<Rightarrow> string \<Rightarrow> string \<Rightarrow> string list" where
  "split_from sep acc [] = [rev acc]"
| "split_from sep acc (c # cs) =
     (if sep \<noteq> [] \<and> prefix sep (c # cs)
      then rev acc # split_from sep [] (drop (length sep) (c # cs))
      else split_from sep (c # acc) cs)"
  by pat_completeness auto
termination
  by (relation "measure (\<lambda>(sep, acc, s). length s)") (auto simp: neq_Nil_conv)

definition str_Split :: "string \<Rightarrow> string \<Rightarrow> string list" where
  "str_Split s sep = split_from sep [] s"

fun str_Join :: "string list \<Rightarrow> string \<Rightarrow> string" where
  "str_Join [] sep = []"
| "str_Join [x] sep = x"
| "str_Join (x # y # xs) sep = x @ sep @ str_Join (y # xs) sep"

text \<open>
  A field is separable when no occurrence of the separator starts inside it once the
  separator follows: then splitting cuts exactly behind it.
\<close>

definition separable :: "string \<Rightarrow> string \<Rightarrow> bool" where
  "separable sep x \<longleftrightarrow> (\<forall>i < length x. \<not> prefix sep (drop i (x @ butlast sep)))"

lemma prefix_append_butlast:
  assumes "prefix sep (drop i (x @ sep @ r))" and "i < length x" and "sep \<noteq> []"
  shows "prefix sep (drop i (x @ butlast sep))"
proof -
  let ?n = "length sep"
  from assms(1) have "take ?n (drop i (x @ sep @ r)) = sep"
    by (metis append_eq_conv_conj prefix_def)
  moreover have "take ?n (drop i (x @ sep @ r)) = take ?n (drop i (x @ butlast sep))"
  proof -
    have "?n - (length x - i) \<le> length (butlast sep)"
      using assms(2) by simp
    then have "take (?n - (length x - i)) sep = take (?n - (length x - i)) (butlast sep)"
      by (metis take_butlast assms(3) butlast_conv_take length_butlast min.absorb1 take_take)
    then show ?thesis using assms(2) by simp
  qed
  ultimately show ?thesis
    by (metis append_take_drop_id prefix_def)
qed

lemma separable_Cons:
  assumes "separable sep (c # x)"
  shows "separable sep x"
  unfolding separable_def
proof (intro allI impI)
  fix i assume "i < length x"
  with assms have "\<not> prefix sep (drop (Suc i) ((c # x) @ butlast sep))"
    by (metis Suc_less_eq length_Cons separable_def)
  then show "\<not> prefix sep (drop i (x @ butlast sep))" by simp
qed

lemma split_from_field:
  assumes "separable sep x" and "sep \<noteq> []"
  shows "split_from sep acc (x @ sep @ r) = (rev acc @ x) # split_from sep [] r"
  using assms(1)
proof (induction x arbitrary: acc)
  case Nil
  obtain c cs where "sep = c # cs" using assms(2) by (cases sep) auto
  then show ?case by (simp add: prefix_def)
next
  case (Cons c x)
  have "\<not> prefix sep (c # x @ sep @ r)"
    using Cons.prems prefix_append_butlast [of sep 0 "c # x" r] assms(2)
    by (force simp: separable_def)
  then show ?case using Cons.IH [OF separable_Cons [OF Cons.prems]] by simp
qed

lemma split_from_last:
  assumes "\<forall>i < length x. \<not> prefix sep (drop i x)"
  shows "split_from sep acc x = [rev acc @ x]"
  using assms
proof (induction x arbitrary: acc)
  case (Cons c x)
  have "\<not> prefix sep (c # x)" using Cons.prems by force
  moreover have "\<forall>i < length x. \<not> prefix sep (drop i x)"
    using Cons.prems by (metis Suc_less_eq drop_Suc_Cons length_Cons)
  ultimately show ?case using Cons.IH by simp
qed simp

lemma separable_last:
  assumes "separable sep x"
  shows "\<forall>i < length x. \<not> prefix sep (drop i x)"
  using assms unfolding separable_def
  by (metis drop_append prefix_prefix)

lemma str_Split_Join:
  assumes "xs \<noteq> []" and "sep \<noteq> []" and "\<forall>x \<in> set xs. separable sep x"
  shows "str_Split (str_Join xs sep) sep = xs"
proof -
  have "split_from sep [] (str_Join xs sep) = xs"
    using assms
  proof (induction xs sep rule: str_Join.induct)
    case (2 x sep)
    then show ?case using split_from_last [of x sep "[]"] separable_last [of sep x] by simp
  next
    case (3 x y xs sep)
    then show ?case
      using split_from_field [of sep x "[]" "str_Join (y # xs) sep"] by simp
  qed simp
  then show ?thesis by (simp add: str_Split_def)
qed

text \<open>Decimal digits of a natural number, most significant first.\<close>

definition digit_char :: "nat \<Rightarrow> char" where
  "digit_char d = char_of (48 + d)"

fun dec_of_nat :: "nat \<Rightarrow> string" where
  "dec_of_nat n = (if n < 10 then [digit_char n] else dec_of_nat (n div 10) @ [digit_char (n mod 10)])"

declare dec_of_nat.simps [simp del]

definition dec_of_int :: "int \<Rightarrow> string" where
  "dec_of_int z = (if z < 0 then CHR ''-'' # dec_of_nat (nat (- z)) else dec_of_nat (nat z))"

lemma digit_char_range: "d < 10 \<Longrightarrow> of_char (digit_char d) = 48 + d"
  unfolding digit_char_def of_char_of by simp

lemma digit_char_inj: "a < 10 \<Longrightarrow> b < 10 \<Longrightarrow> digit_char a = digit_char b \<Longrightarrow> a = b"
  by (metis digit_char_range add_left_cancel)

lemma dec_of_nat_nonempty [simp]: "dec_of_nat n \<noteq> []"
  by (subst dec_of_nat.simps) simp

lemma dec_of_nat_digits: "c \<in> set (dec_of_nat n) \<Longrightarrow> \<exists>d < 10. c = digit_char d"
proof (induction n rule: dec_of_nat.induct)
  case (1 n)
  show ?case
  proof (cases "n < 10")
    case True
    with "1.prems" show ?thesis by (auto simp: dec_of_nat.simps [of n])
  next
    case False
    with "1.prems" have "c \<in> set (dec_of_nat (n div 10)) \<or> c = digit_char (n mod 10)"
      by (auto simp: dec_of_nat.simps [of n])
    then show ?thesis using "1.IH" [OF False] by (auto intro: exI [of _ "n mod 10"])
  qed
qed

lemma dec_of_nat_inj: "dec_of_nat m = dec_of_nat n \<Longrightarrow> m = n"
proof (induction m arbitrary: n rule: dec_of_nat.induct)
  case (1 m)
  have single: "length (dec_of_nat k) = 1 \<longleftrightarrow> k < 10" for k
    by (subst dec_of_nat.simps) simp
  show ?case
  proof (cases "m < 10")
    case True
    then have "n < 10" using "1.prems" single by metis
    with True "1.prems" show ?thesis
      by (auto simp: dec_of_nat.simps [of m] dec_of_nat.simps [of n] dest: digit_char_inj)
  next
    case False
    then have "\<not> n < 10" using "1.prems" single by metis
    with False "1.prems" have "dec_of_nat (m div 10) = dec_of_nat (n div 10)"
      and "digit_char (m mod 10) = digit_char (n mod 10)"
      by (auto simp: dec_of_nat.simps [of m] dec_of_nat.simps [of n])
    then have "m div 10 = n div 10" and "m mod 10 = n mod 10"
      using "1.IH" [OF False] by (auto dest: digit_char_inj [rotated 2])
    then show ?thesis by (metis div_mult_mod_eq)
  qed
qed

lemma dec_of_nat_notin:
  assumes "of_char c < (48 :: nat) \<or> 57 < (of_char c :: nat)"
  shows "c \<notin> set (dec_of_nat n)"
proof
  assume "c \<in> set (dec_of_nat n)"
  then obtain d where "d < 10" and "c = digit_char d" using dec_of_nat_digits by blast
  then have "(of_char c :: nat) = 48 + d" using digit_char_range by metis
  with \<open>d < 10\<close> assms show False by simp
qed

lemma last_separator:
  assumes "xs @ c # ys = xs' @ c # ys'" and "c \<notin> set ys" and "c \<notin> set ys'"
  shows "xs = xs' \<and> ys = ys'"
  using assms by (auto simp: append_eq_append_conv2 append_eq_Cons_conv Cons_eq_append_conv)

lemma first_separator:
  assumes "xs @ c # ys = xs' @ c # ys'" and "c \<notin> set xs" and "c \<notin> set xs'"
  shows "xs = xs' \<and> ys = ys'"
  using assms by (auto simp: append_eq_append_conv2 append_eq_Cons_conv Cons_eq_append_conv)

lemma mset_eq_of_distinct_map:
  assumes "mset (map f xs) = mset (map f ys)" and "distinct (map f ys)" and "set xs \<subseteq> set ys"
  shows "mset xs = mset ys"
proof -
  have "distinct (map f xs)" using assms(1,2) by (metis mset_eq_imp_distinct_iff)
  then have dx: "distinct xs" and dy: "distinct ys" using assms(2) by (auto simp: distinct_map)
  have "card (set xs) = card (set ys)"
    using assms(1) dx dy by (metis distinct_card length_map mset_eq_length)
  then have "set xs = set ys" by (intro card_subset_eq assms(3)) simp_all
  with dx dy show ?thesis by (simp add: set_eq_iff_mset_eq_distinct)
qed

lemma find_SomeD: "find P xs = Some x \<Longrightarrow> x \<in> set xs \<and> P x"
  by (auto simp: find_Some_iff in_set_conv_nth)

lemma find_exists: "x \<in> set xs \<Longrightarrow> P x \<Longrightarrow> \<exists>y. find P xs = Some y"
  by (metis find_None_iff option.exhaust)

end
