(* ===== verification/Go_Slice.thy ===== *)
theory Go_Slice
  imports Prelude
begin

section \<open>Go slices over a store of backing arrays\<close>

text \<open>
  Slices share their backing arrays: two slices of one array see each other's writes, and
  \<open>append\<close> writes in place whenever the capacity allows it. The request queue and the
  message cache both re-slice and append, so what they compute depends on this sharing.

  A store is a list of arrays; an array is its written cells and its capacity. A slice is
  an array index, an offset, a length and a capacity. The capacity of a newly allocated
  array is chosen by the run time: it is the argument \<open>grow\<close> of \<open>append\<close>, from the old
  capacity and the needed length, and all that is used of it is that it is large enough.
\<close>

type_synonym 'a store = "('a list \<times> nat) list"

record slice =
  s_arr :: nat
  s_off :: nat
  s_len :: nat
  s_cap :: nat

definition nil_slice :: slice where
  "nil_slice = \<lparr>s_arr = 0, s_off = 0, s_len = 0, s_cap = 0\<rparr>"

definition cells :: "'a store \<Rightarrow> slice \<Rightarrow> 'a list" where
  "cells h s = (if s_arr s < length h then fst (h ! s_arr s) else [])"

definition contents :: "'a store \<Rightarrow> slice \<Rightarrow> 'a list" where
  "contents h s = take (s_len s) (drop (s_off s) (cells h s))"

text \<open>\<open>s[lo:hi]\<close> for \<open>lo \<le> hi \<le> len(s)\<close>: the same array, the capacity up to its end.\<close>

definition reslice :: "slice \<Rightarrow> nat \<Rightarrow> nat \<Rightarrow> slice" where
  "reslice s lo hi = s\<lparr>s_off := s_off s + lo, s_len := hi - lo, s_cap := s_cap s - lo\<rparr>"

text \<open>A slice literal allocates an array of exactly its length.\<close>

definition slice_lit :: "'a store \<Rightarrow> 'a list \<Rightarrow> 'a store \<times> slice" where
  "slice_lit h xs =
     (h @ [(xs, length xs)],
      \<lparr>s_arr = length h, s_off = 0, s_len = length xs, s_cap = length xs\<rparr>)"

definition append_slice ::
  "(nat \<Rightarrow> nat \<Rightarrow> nat) \<Rightarrow> 'a store \<Rightarrow> slice \<Rightarrow> 'a list \<Rightarrow> 'a store \<times> slice" where
  "append_slice grow h s vs =
     (let n = s_len s + length vs in
      if vs = [] then (h, s)
      else if n \<le> s_cap s
      then let a = s_arr s; e = s_off s + s_len s; cs = cells h s in
           (h[a := (take e cs @ vs @ drop (e + length vs) cs, snd (h ! a))], s\<lparr>s_len := n\<rparr>)
      else let c = grow (s_cap s) n in
           (h @ [(contents h s @ vs, c)],
            \<lparr>s_arr = length h, s_off = 0, s_len = n, s_cap = c\<rparr>))"

text \<open>
  Well-formed slices lie inside the written part of an allocated array; an empty slice
  without capacity (\<open>nil\<close>, or \<open>make(T, 0)\<close>) has no array.
\<close>

definition slice_ok :: "'a store \<Rightarrow> slice \<Rightarrow> bool" where
  "slice_ok h s \<longleftrightarrow>
     s_len s \<le> s_cap s \<and>
     (s_cap s = 0 \<or>
      s_arr s < length h \<and> s_off s + s_len s \<le> length (cells h s) \<and>
      length (cells h s) \<le> s_off s + s_cap s \<and>
      snd (h ! s_arr s) = s_off s + s_cap s)"

subsection \<open>Laws\<close>

lemma contents_nil_slice [simp]: "contents h nil_slice = []"
  by (simp add: contents_def nil_slice_def)

lemma slice_ok_nil_slice [simp]: "slice_ok h nil_slice"
  by (simp add: slice_ok_def nil_slice_def)

lemma length_contents: "slice_ok h s \<Longrightarrow> length (contents h s) = s_len s"
  by (auto simp: slice_ok_def contents_def)

lemma contents_reslice:
  assumes "slice_ok h s" and "lo \<le> hi" and "hi \<le> s_len s"
  shows "contents h (reslice s lo hi) = take (hi - lo) (drop lo (contents h s))"
  using assms by (simp add: contents_def reslice_def cells_def take_drop min_def add.commute)

lemma slice_ok_reslice:
  assumes "slice_ok h s" and "lo \<le> hi" and "hi \<le> s_len s"
  shows "slice_ok h (reslice s lo hi)"
  using assms by (auto simp: slice_ok_def reslice_def cells_def)

lemma contents_slice_lit [simp]: "contents (fst (slice_lit h xs)) (snd (slice_lit h xs)) = xs"
  by (simp add: slice_lit_def contents_def cells_def)

lemma slice_ok_slice_lit [simp]: "slice_ok (fst (slice_lit h xs)) (snd (slice_lit h xs))"
  by (auto simp: slice_lit_def slice_ok_def cells_def)

text \<open>A growth policy is any function that allocates at least what is needed.\<close>

locale growth =
  fixes grow :: "nat \<Rightarrow> nat \<Rightarrow> nat"
  assumes grow_enough: "n \<le> grow c n"
begin

lemma contents_append:
  assumes "slice_ok h s"
  shows "contents (fst (append_slice grow h s vs)) (snd (append_slice grow h s vs)) = contents h s @ vs"
proof (cases "vs = [] \<or> s_cap s < s_len s + length vs")
  case True
  then show ?thesis
    using length_contents [OF assms]
    by (auto simp: append_slice_def contents_def cells_def Let_def)
next
  case False
  then have "s_arr s < length h" and "s_off s + s_len s \<le> length (cells h s)"
    using assms by (auto simp: slice_ok_def)
  with False show ?thesis
    by (auto simp: append_slice_def contents_def cells_def Let_def min_def drop_take)
qed

lemma slice_ok_append:
  assumes "slice_ok h s"
  shows "slice_ok (fst (append_slice grow h s vs)) (snd (append_slice grow h s vs))"
proof (cases "vs = [] \<or> s_cap s < s_len s + length vs")
  case True
  then show ?thesis
    using assms length_contents [OF assms] grow_enough [of "s_len s + length vs" "s_cap s"]
    by (auto simp: append_slice_def slice_ok_def cells_def Let_def)
next
  case False
  then show ?thesis
    using assms by (auto simp: append_slice_def slice_ok_def cells_def Let_def)
qed

text \<open>An append leaves every array but its own untouched.\<close>

lemma append_other_array:
  assumes "a < length h" and "a \<noteq> s_arr s \<or> s_cap s < s_len s + length vs"
  shows "fst (append_slice grow h s vs) ! a = h ! a"
  using assms by (auto simp: append_slice_def Let_def nth_append)

lemma append_store_length: "length h \<le> length (fst (append_slice grow h s vs))"
  by (auto simp: append_slice_def Let_def)

lemma append_other_contents:
  assumes "s_arr t < length h" and "s_arr t \<noteq> s_arr s \<or> s_cap s = 0"
  shows "contents (fst (append_slice grow h s vs)) t = contents h t"
proof (cases "vs = []")
  case True
  then show ?thesis by (simp add: append_slice_def Let_def)
next
  case False
  have "fst (append_slice grow h s vs) ! s_arr t = h ! s_arr t"
    using assms False by (intro append_other_array) auto
  then show ?thesis
    using assms(1) append_store_length [of h s vs] by (simp add: contents_def cells_def)
qed

text \<open>A shorter slice of the same array, from the same offset, keeps its contents.\<close>

lemma append_prefix_contents:
  assumes "slice_ok h s" and "s_arr t = s_arr s" and "s_off t = s_off s" and "s_len t \<le> s_len s"
    and "s_arr t < length h"
  shows "contents (fst (append_slice grow h s vs)) t = contents h t"
proof (cases "vs = [] \<or> s_cap s < s_len s + length vs")
  case True
  then show ?thesis using assms(5) by (auto simp: append_slice_def contents_def cells_def Let_def nth_append)
next
  case False
  then have "s_off s + s_len s \<le> length (cells h s)" using assms(1) by (auto simp: slice_ok_def)
  with False assms show ?thesis
    by (auto simp: append_slice_def contents_def cells_def Let_def drop_take min_def)
qed

lemma slice_ok_append_other:
  assumes "slice_ok h s" and "slice_ok h t"
  shows "slice_ok (fst (append_slice grow h s vs)) t"
proof (cases "vs = [] \<or> s_cap s < s_len s + length vs")
  case True
  then show ?thesis using assms(2) by (auto simp: append_slice_def slice_ok_def cells_def Let_def nth_append)
next
  case False
  then show ?thesis
    using assms
    by (cases "s_arr t = s_arr s") (auto simp: append_slice_def slice_ok_def cells_def Let_def)
qed

lemma append_array:
  assumes "vs \<noteq> []"
  shows "s_arr (snd (append_slice grow h s vs)) = (if s_len s + length vs \<le> s_cap s then s_arr s else length h)"
    and "s_off (snd (append_slice grow h s vs)) = (if s_len s + length vs \<le> s_cap s then s_off s else 0)"
    and "s_len (snd (append_slice grow h s vs)) = s_len s + length vs"
    and "0 < s_cap (snd (append_slice grow h s vs))"
proof -
  have "0 < length vs" using assms by simp
  then have "0 < s_cap s" if "s_len s + length vs \<le> s_cap s" using that by linarith
  moreover have "0 < grow (s_cap s) (s_len s + length vs)"
    using grow_enough [of "s_len s + length vs" "s_cap s"] \<open>0 < length vs\<close> by linarith
  ultimately show "0 < s_cap (snd (append_slice grow h s vs))"
    by (auto simp: append_slice_def Let_def assms)
qed (auto simp: append_slice_def Let_def assms)

end

text \<open>
  The documented policy of the Go run time before rounding up to a size class: the needed
  length if it exceeds twice the old capacity, twice the old capacity below 256, and about
  a quarter more above. The pointer slices of the model land on size classes, where the
  rounding changes nothing for the small capacities evaluated here.
\<close>

definition go_grow :: "nat \<Rightarrow> nat \<Rightarrow> nat" where
  "go_grow c n = (if 2 * c < n then n else if c < 256 then 2 * c else max n (c + (c + 768) div 4))"

interpretation go_growth: growth go_grow
  by unfold_locales (auto simp: go_grow_def)

end
