(* ===== verification/Circular_Queue.thy ===== *)
theory Circular_Queue
  imports Prelude
begin

section \<open>The keyed ring buffer of tools/circular\_queue.go\<close>

text \<open>
  \<open>defaultCircularQueue\<close> is a ring of the last \<open>size\<close> added items with a map for quick
  look-up. The model keeps the 64-bit counters, the slots of the ring and the map. The
  interface \<open>CircularQueue\<close> is the locale \<open>keyed_ring\<close>: what a look-up may return after any
  additions is proved there once and reused by the message cache.
\<close>

record 'a cqueue =
  cq_head :: int
  cq_tail :: int
  cq_size :: int
  cq_queue :: "(string \<times> 'a) option list"
  cq_m :: "(string, string \<times> 'a) gmap"

definition NewCircularQueue :: "int \<Rightarrow> 'a cqueue option" where
  "NewCircularQueue sz =
     (if sz \<le> 0 then None
      else Some \<lparr>cq_head = 0, cq_tail = 0, cq_size = sz,
                  cq_queue = replicate (nat sz) None, cq_m = []\<rparr>)"

text \<open>Go's \<open>%\<close> has the sign of the dividend; a negative index panics.\<close>

definition go_rem :: "int \<Rightarrow> int \<Rightarrow> int" where
  "go_rem a b = (if a < 0 then - ((- a) mod b) else a mod b)"

definition at_slot :: "'b list \<Rightarrow> int \<Rightarrow> 'b go" where
  "at_slot xs i = (if i < 0 then Panic IndexOutOfRange else go_index xs (nat i))"

definition CircularQueue_Add :: "string \<Rightarrow> 'a \<Rightarrow> 'a cqueue \<Rightarrow> 'a cqueue go" where
  "CircularQueue_Add key T q =
     go_bind
       (if cq_size q \<le> i64 (cq_tail q - cq_head q)
        then go_bind (at_slot (cq_queue q) (go_rem (cq_head q) (cq_size q)))
               (\<lambda>slot. go_bind (go_deref slot)
                 (\<lambda>old. Ret (q\<lparr>cq_m := gdel (fst old) (cq_m q), cq_head := i64 (cq_head q + 1)\<rparr>)))
        else Ret q)
       (\<lambda>q. go_bind (at_slot (cq_queue q) (go_rem (cq_tail q) (cq_size q)))
         (\<lambda>_. Ret (q\<lparr>cq_queue := (cq_queue q)[nat (go_rem (cq_tail q) (cq_size q)) := Some (key, T)],
                     cq_tail := i64 (cq_tail q + 1),
                     cq_m := gput key (key, T) (cq_m q)\<rparr>)))"

definition CircularQueue_Get :: "string \<Rightarrow> 'a cqueue \<Rightarrow> 'a option" where
  "CircularQueue_Get key q = map_option snd (gget (cq_m q) key)"

subsection \<open>The interface and what its clients may rely on\<close>

text \<open>
  \<open>window q\<close> is the abstract state: the last additions, oldest first, at most \<open>cap q\<close> of
  them. \<open>room q\<close> counts the additions before the 64-bit counters would overflow.
\<close>

definition push :: "nat \<Rightarrow> 'a list \<Rightarrow> 'a \<Rightarrow> 'a list" where
  "push n w x = (if n \<le> length w then tl w else w) @ [x]"

fun add_all :: "(string \<Rightarrow> 'a \<Rightarrow> 'q \<Rightarrow> 'q go) \<Rightarrow> (string \<times> 'a) list \<Rightarrow> 'q \<Rightarrow> 'q go" where
  "add_all add [] q = Ret q"
| "add_all add ((k, v) # kvs) q = go_bind (add k v q) (add_all add kvs)"

text \<open>The newest \<open>n\<close> elements of a history.\<close>

definition last_n :: "nat \<Rightarrow> 'b list \<Rightarrow> 'b list" where
  "last_n n xs = drop (length xs - n) xs"

lemma push_last_n: "0 < n \<Longrightarrow> push n (last_n n xs) x = last_n n (xs @ [x])"
  by (auto simp: push_def last_n_def Suc_diff_le drop_Suc tl_drop)

locale keyed_ring =
  fixes add :: "string \<Rightarrow> 'a \<Rightarrow> 'q \<Rightarrow> 'q go"
    and get :: "string \<Rightarrow> 'q \<Rightarrow> 'a option"
    and window :: "'q \<Rightarrow> (string \<times> 'a) list"
    and cap :: "'q \<Rightarrow> nat"
    and room :: "'q \<Rightarrow> nat"
    and ok :: "'q \<Rightarrow> bool"
  assumes cap_pos: "ok q \<Longrightarrow> 0 < cap q"
    and window_cap: "ok q \<Longrightarrow> length (window q) \<le> cap q"
    and add_returns: "ok q \<Longrightarrow> 0 < room q \<Longrightarrow> \<exists>q'. add k v q = Ret q'"
    and add_ok: "ok q \<Longrightarrow> 0 < room q \<Longrightarrow> add k v q = Ret q' \<Longrightarrow> ok q'"
    and add_cap: "ok q \<Longrightarrow> 0 < room q \<Longrightarrow> add k v q = Ret q' \<Longrightarrow> cap q' = cap q"
    and add_room: "ok q \<Longrightarrow> 0 < room q \<Longrightarrow> add k v q = Ret q' \<Longrightarrow> room q \<le> Suc (room q')"
    and add_window: "ok q \<Longrightarrow> 0 < room q \<Longrightarrow> add k v q = Ret q' \<Longrightarrow>
           window q' = push (cap q) (window q) (k, v)"
    and get_add_same: "ok q \<Longrightarrow> 0 < room q \<Longrightarrow> add k v q = Ret q' \<Longrightarrow> get k q' = Some v"
    and get_add_other: "ok q \<Longrightarrow> 0 < room q \<Longrightarrow> add k v q = Ret q' \<Longrightarrow> k' \<noteq> k \<Longrightarrow>
           get k' q' = (if cap q \<le> length (window q) \<and> k' = fst (hd (window q)) then None else get k' q)"
begin

lemma add_all_window:
  assumes "ok q" and "length kvs \<le> room q" and "window q = last_n (cap q) pre"
  shows "\<exists>q'. add_all add kvs q = Ret q' \<and> ok q' \<and> cap q' = cap q \<and>
              window q' = last_n (cap q) (pre @ kvs)"
  using assms
proof (induction kvs arbitrary: q pre)
  case Nil
  then show ?case by simp
next
  case (Cons kv kvs)
  obtain k v where kv: "kv = (k, v)" by (cases kv)
  from Cons.prems have room: "0 < room q" by simp
  then obtain q1 where q1: "add k v q = Ret q1" using add_returns Cons.prems(1) by blast
  have "ok q1" and cap: "cap q1 = cap q" and "length kvs \<le> room q1"
    using add_ok add_cap add_room Cons.prems room q1 by (auto dest: add_room)
  moreover have "window q1 = last_n (cap q1) (pre @ [kv])"
    using add_window [OF Cons.prems(1) room q1] push_last_n [OF cap_pos [OF Cons.prems(1)]]
    by (simp add: Cons.prems(3) cap kv)
  ultimately show ?case using Cons.IH [of q1 "pre @ [kv]"] q1 kv cap by auto
qed

text \<open>
  Soundness of look-ups: what \<open>get\<close> returns is the newest value added under the key, and it
  is still in the window. Exactness: with no key added twice, every key of the window is found.
\<close>

definition sound :: "'q \<Rightarrow> bool" where
  "sound q \<longleftrightarrow> (\<forall>k v. get k q = Some v \<longrightarrow> map_of (rev (window q)) k = Some v)"

definition exact :: "'q \<Rightarrow> bool" where
  "exact q \<longleftrightarrow> (\<forall>k. get k q = map_of (window q) k)"

lemma sound_add:
  assumes "ok q" and "0 < room q" and "add k v q = Ret q'" and "sound q"
  shows "sound q'"
  unfolding sound_def
proof (intro allI impI)
  fix k' v' assume get: "get k' q' = Some v'"
  show "map_of (rev (window q')) k' = Some v'"
  proof (cases "k' = k")
    case True
    then show ?thesis
      using get get_add_same [OF assms(1-3)] add_window [OF assms(1-3)] by (simp add: push_def)
  next
    case False
    with get have kept: "\<not> (cap q \<le> length (window q) \<and> k' = fst (hd (window q)))"
      and "get k' q = Some v'"
      using get_add_other [OF assms(1-3), of k'] by (auto split: if_splits)
    then have old: "map_of (rev (window q)) k' = Some v'" using assms(4) by (simp add: sound_def)
    show ?thesis
      using False kept old cap_pos [OF assms(1)]
      by (cases "window q")
        (auto simp: add_window [OF assms(1-3)] push_def map_add_def split: if_splits option.splits)
  qed
qed

lemma exact_add:
  assumes "ok q" and "0 < room q" and "add k v q = Ret q'" and "exact q"
    and "distinct (map fst (window q))" and "k \<notin> fst ` set (window q)"
  shows "exact q'"
  unfolding exact_def
proof
  fix k'
  show "get k' q' = map_of (window q') k'"
  proof (cases "k' = k")
    case True
    have "k \<notin> fst ` set (tl (window q))"
      using assms(6) by (cases "window q") auto
    then have "map_of (tl (window q)) k = None" and "map_of (window q) k = None"
      using assms(6) by (simp_all add: map_of_eq_None_iff)
    then show ?thesis
      using True get_add_same [OF assms(1-3)] add_window [OF assms(1-3)]
      by (simp add: push_def map_add_def)
  next
    case False
    have "get k' q = map_of (window q) k'" using assms(4) by (simp add: exact_def)
    then show ?thesis
      using False get_add_other [OF assms(1-3) False] add_window [OF assms(1-3)]
        assms(5) cap_pos [OF assms(1)]
      by (cases "window q")
        (auto simp: push_def map_add_def map_of_eq_None_iff [symmetric] split: option.splits)
  qed
qed

lemma add_all_sound:
  assumes "ok q" and "length kvs \<le> room q" and "sound q" and "add_all add kvs q = Ret q'"
  shows "sound q'"
  using assms
proof (induction kvs arbitrary: q)
  case (Cons kv kvs)
  obtain k v where kv: "kv = (k, v)" by (cases kv)
  from Cons.prems have room: "0 < room q" by simp
  from Cons.prems(4) obtain q1 where q1: "add k v q = Ret q1" and rest: "add_all add kvs q1 = Ret q'"
    by (auto simp: kv go_bind_eq_Ret_iff)
  show ?case
    using Cons.IH [OF add_ok [OF Cons.prems(1) room q1] _ sound_add [OF Cons.prems(1) room q1 Cons.prems(3)] rest]
      add_room [OF Cons.prems(1) room q1] Cons.prems(2) by simp
qed simp

lemma add_all_exact:
  assumes "ok q" and "length kvs \<le> room q" and "exact q" and "add_all add kvs q = Ret q'"
    and "distinct (map fst (window q @ kvs))"
  shows "exact q'"
  using assms
proof (induction kvs arbitrary: q)
  case (Cons kv kvs)
  obtain k v where kv: "kv = (k, v)" by (cases kv)
  from Cons.prems have room: "0 < room q" by simp
  from Cons.prems(4) obtain q1 where q1: "add k v q = Ret q1" and rest: "add_all add kvs q1 = Ret q'"
    by (auto simp: kv go_bind_eq_Ret_iff)
  have "exact q1"
    using exact_add [OF Cons.prems(1) room q1 Cons.prems(3)] Cons.prems(5) by (simp add: kv)
  moreover have "distinct (map fst (window q1 @ kvs))"
    using Cons.prems(5) add_window [OF Cons.prems(1) room q1]
    by (cases "window q") (auto simp: kv push_def)
  ultimately show ?case
    using Cons.IH [OF add_ok [OF Cons.prems(1) room q1] _ _ rest]
      add_room [OF Cons.prems(1) room q1] Cons.prems(2) by simp
qed simp

end

subsection \<open>The ring buffer implements the interface\<close>

definition cq_window :: "'a cqueue \<Rightarrow> (string \<times> 'a) list" where
  "cq_window q = map (\<lambda>i. the (cq_queue q ! nat (i mod cq_size q))) [cq_head q .. cq_tail q - 1]"

definition cq_cap :: "'a cqueue \<Rightarrow> nat" where
  "cq_cap q = nat (cq_size q)"

definition cq_room :: "'a cqueue \<Rightarrow> nat" where
  "cq_room q = nat (2 ^ 63 - 1 - cq_tail q)"

definition cq_ok :: "'a cqueue \<Rightarrow> bool" where
  "cq_ok q \<longleftrightarrow>
     0 < cq_size q \<and> cq_size q < 2 ^ 63 \<and> length (cq_queue q) = nat (cq_size q) \<and>
     0 \<le> cq_head q \<and> cq_head q \<le> cq_tail q \<and> cq_tail q - cq_head q \<le> cq_size q \<and>
     cq_tail q < 2 ^ 63 \<and>
     (\<forall>i. cq_head q \<le> i \<longrightarrow> i < cq_tail q \<longrightarrow> cq_queue q ! nat (i mod cq_size q) \<noteq> None)"

lemma slots_distinct:
  fixes i j n :: int
  assumes "0 < n" and "i < j" and "j < i + n"
  shows "nat (i mod n) \<noteq> nat (j mod n)"
proof -
  have "i mod n \<noteq> j mod n"
  proof
    assume "i mod n = j mod n"
    then have "n dvd j - i" by (metis mod_eq_dvd_iff)
    then show False using assms zdvd_imp_le [of n "j - i"] by linarith
  qed
  then show ?thesis using assms(1) by (simp add: eq_nat_nat_iff)
qed

lemma slot_in_range: "cq_ok q \<Longrightarrow> nat (i mod cq_size q) < length (cq_queue q)"
  by (simp add: cq_ok_def nat_less_iff)

text \<open>On a well-formed queue an addition is this record update, with no panic and no overflow.\<close>

lemma Add_eq:
  assumes "cq_ok q" and "0 < cq_room q"
  shows "CircularQueue_Add k v q =
    (let full = cq_size q \<le> cq_tail q - cq_head q in
     Ret (q\<lparr>cq_head := (if full then cq_head q + 1 else cq_head q),
            cq_tail := cq_tail q + 1,
            cq_queue := (cq_queue q)[nat (cq_tail q mod cq_size q) := Some (k, v)],
            cq_m := gput k (k, v) (if full then gdel (fst (hd (cq_window q))) (cq_m q) else cq_m q)\<rparr>))"
proof -
  have b: "0 \<le> cq_head q" "cq_head q \<le> cq_tail q" "cq_tail q + 1 < 2 ^ 63" "0 < cq_size q"
    using assms by (auto simp: cq_ok_def cq_room_def)
  have i: "i64 (cq_tail q - cq_head q) = cq_tail q - cq_head q"
    "i64 (cq_head q + 1) = cq_head q + 1" "i64 (cq_tail q + 1) = cq_tail q + 1"
    using b by (auto intro!: i64_id)
  have r: "go_rem (cq_head q) (cq_size q) = cq_head q mod cq_size q"
    "go_rem (cq_tail q) (cq_size q) = cq_tail q mod cq_size q"
    using b by (auto simp: go_rem_def)
  have s: "at_slot (cq_queue q) (j mod cq_size q) = Ret (cq_queue q ! nat (j mod cq_size q))" for j
    using b slot_in_range [OF assms(1)] by (simp add: at_slot_def go_index_def not_less)
  show ?thesis
  proof (cases "cq_size q \<le> cq_tail q - cq_head q")
    case True
    then have "cq_head q < cq_tail q" using b by linarith
    then obtain e where e: "cq_queue q ! nat (cq_head q mod cq_size q) = Some e"
      using assms(1) by (auto simp: cq_ok_def)
    have "hd (cq_window q) = e"
      using \<open>cq_head q < cq_tail q\<close> e by (simp add: cq_window_def upto.simps)
    with True show ?thesis
      by (simp add: CircularQueue_Add_def i r s e go_deref_def Let_def)
  next
    case False
    then show ?thesis by (simp add: CircularQueue_Add_def i r s Let_def)
  qed
qed

lemma Add_keeps_ok:
  assumes "cq_ok q" and "0 < cq_room q" and "CircularQueue_Add k v q = Ret q'"
  shows "cq_ok q'"
proof -
  let ?n = "cq_size q" and ?t = "cq_tail q"
  have kept: "(cq_queue q)[nat (?t mod ?n) := Some (k, v)] ! nat (i mod ?n) \<noteq> None"
    if "cq_head q \<le> i" and "i < ?t + 1" for i
    using that assms(1) slot_in_range [OF assms(1)]
    by (cases "i = ?t"; cases "nat (?t mod ?n) = nat (i mod ?n)") (auto simp: cq_ok_def)
  show ?thesis
    using assms kept unfolding Add_eq [OF assms(1,2)]
    by (auto simp: cq_ok_def cq_room_def Let_def split: if_splits)
qed

lemma Add_window:
  assumes "cq_ok q" and "0 < cq_room q" and "CircularQueue_Add k v q = Ret q'"
  shows "cq_window q' = push (cq_cap q) (cq_window q) (k, v)"
proof -
  let ?n = "cq_size q" and ?t = "cq_tail q" and ?h = "cq_head q"
  let ?h' = "if ?n \<le> ?t - ?h then ?h + 1 else ?h"
  have b: "0 < ?n" "?h \<le> ?t" "?t - ?h \<le> ?n" using assms(1) by (auto simp: cq_ok_def)
  have "(cq_queue q)[nat (?t mod ?n) := Some (k, v)] ! nat (i mod ?n) = cq_queue q ! nat (i mod ?n)"
    if "?h' \<le> i" and "i < ?t" for i
    using slots_distinct [of ?n i ?t] that b by (simp add: nth_list_update split: if_splits)
  then have old: "map (\<lambda>i. the ((cq_queue q)[nat (?t mod ?n) := Some (k, v)] ! nat (i mod ?n))) [?h' .. ?t - 1]
      = map (\<lambda>i. the (cq_queue q ! nat (i mod ?n))) [?h' .. ?t - 1]" by auto
  have "[?h' .. ?t] = [?h' .. ?t - 1] @ [?t]"
    using b by (intro upto_rec2) (auto split: if_splits)
  then have "cq_window q' = map (\<lambda>i. the (cq_queue q ! nat (i mod ?n))) [?h' .. ?t - 1] @ [(k, v)]"
    using assms(3) old slot_in_range [OF assms(1), of ?t]
    unfolding Add_eq [OF assms(1,2)] by (auto simp: cq_window_def Let_def)
  moreover have "map (\<lambda>i. the (cq_queue q ! nat (i mod ?n))) [?h' .. ?t - 1]
      = (if cq_cap q \<le> length (cq_window q) then tl (cq_window q) else cq_window q)"
    using b by (auto simp: cq_window_def cq_cap_def upto.simps [of ?h "?t - 1"])
  ultimately show ?thesis by (simp add: push_def)
qed

interpretation ring: keyed_ring CircularQueue_Add CircularQueue_Get cq_window cq_cap cq_room cq_ok
proof (unfold_locales, goal_cases)
  case (1 q)
  then show ?case by (simp add: cq_ok_def cq_cap_def)
next
  case (2 q)
  then show ?case by (auto simp: cq_ok_def cq_cap_def cq_window_def intro: nat_mono)
next
  case (3 q k v)
  then show ?case by (simp add: Add_eq Let_def)
next
  case (4 q k v q')
  then show ?case by (rule Add_keeps_ok)
next
  case (5 q k v q')
  then show ?case by (auto simp: Add_eq Let_def cq_cap_def)
next
  case (6 q k v q')
  then show ?case by (auto simp: Add_eq Let_def cq_room_def)
next
  case (7 q k v q')
  then show ?case by (rule Add_window)
next
  case (8 q k v q')
  then show ?case by (auto simp: Add_eq Let_def CircularQueue_Get_def)
next
  case (9 q k v q' k')
  then have "(cq_cap q \<le> length (cq_window q)) = (cq_size q \<le> cq_tail q - cq_head q)"
    by (auto simp: cq_ok_def cq_cap_def cq_window_def)
  with 9 show ?case by (auto simp: Add_eq Let_def CircularQueue_Get_def)
qed

lemma NewCircularQueue_ok:
  assumes "0 < sz" and "sz < 2 ^ 63"
  shows "\<exists>q. NewCircularQueue sz = Some q \<and> cq_ok q \<and> cq_window q = [] \<and>
             cq_cap q = nat sz \<and> cq_room q = nat (2 ^ 63 - 1) \<and> (\<forall>k. CircularQueue_Get k q = None)"
  using assms
  by (simp add: NewCircularQueue_def cq_ok_def cq_window_def cq_cap_def cq_room_def CircularQueue_Get_def)

lemma filled_queue:
  fixes kvs :: "(string \<times> 'a) list"
  assumes "0 < sz" and "sz < 2 ^ 63" and "length kvs < 2 ^ 63"
  shows "\<exists>q0 q. NewCircularQueue sz = Some q0 \<and> add_all CircularQueue_Add kvs q0 = Ret q \<and>
     cq_window q = last_n (nat sz) kvs \<and> ring.sound q \<and> (distinct (map fst kvs) \<longrightarrow> ring.exact q)"
proof -
  obtain q0 :: "'a cqueue" where q0: "NewCircularQueue sz = Some q0" "cq_ok q0" "cq_window q0 = []"
    "cq_cap q0 = nat sz" "cq_room q0 = nat (2 ^ 63 - 1)" "\<forall>k. CircularQueue_Get k q0 = None"
    using NewCircularQueue_ok [OF assms(1,2)] by blast
  have room: "length kvs \<le> cq_room q0" using assms(3) q0(5) by simp
  have "cq_window q0 = last_n (cq_cap q0) []" using q0(3) by (simp add: last_n_def)
  from ring.add_all_window [OF q0(2) room this]
  obtain q where q: "add_all CircularQueue_Add kvs q0 = Ret q"
    and w: "cq_window q = last_n (nat sz) kvs" using q0(4) by auto
  have "ring.sound q0" and "ring.exact q0" using q0(3,6) by (simp_all add: ring.sound_def ring.exact_def)
  then show ?thesis
    using ring.add_all_sound [OF q0(2) room _ q] ring.add_all_exact [OF q0(2) room _ q] q0 q w by auto
qed

subsection \<open>Properties\<close>

text \<open>
  A queue of size \<open>sz\<close> into which any entries with pairwise different keys are added, in
  any number below the 64-bit limit, never panics and finds exactly the last \<open>sz\<close> of them.
\<close>

theorem CircularQueue_holds_last:
  assumes "0 < sz" and "sz < 2 ^ 63" and "length kvs < 2 ^ 63" and "distinct (map fst kvs)"
  shows "\<exists>q0 q. NewCircularQueue sz = Some q0 \<and> add_all CircularQueue_Add kvs q0 = Ret q \<and>
     (\<forall>k. CircularQueue_Get k q = map_of (last_n (nat sz) kvs) k)"
  using filled_queue [OF assms(1-3)] assms(4) unfolding ring.exact_def by metis

theorem CircularQueue_holds_last_witness:
  "\<exists>q0 q. NewCircularQueue 2 = Some q0 \<and>
     add_all CircularQueue_Add [(''a'', 1), (''b'', 2), (''c'', 3 :: nat)] q0 = Ret q \<and>
     (\<forall>k. CircularQueue_Get k q = map_of [(''b'', 2), (''c'', 3)] k)"
  using CircularQueue_holds_last [of 2 "[(''a'', 1), (''b'', 2), (''c'', 3 :: nat)]"]
  by (simp add: last_n_def)

text \<open>
  Whatever is added, keys repeated or not, no addition panics and a look-up returns only
  the newest value of its key, and only while it is among the last \<open>sz\<close> additions.
\<close>

theorem CircularQueue_never_stale:
  assumes "0 < sz" and "sz < 2 ^ 63" and "length kvs < 2 ^ 63"
  shows "\<exists>q0 q. NewCircularQueue sz = Some q0 \<and> add_all CircularQueue_Add kvs q0 = Ret q \<and>
     (\<forall>k v. CircularQueue_Get k q = Some v \<longrightarrow> map_of (rev (last_n (nat sz) kvs)) k = Some v)"
  using filled_queue [OF assms(1-3)] unfolding ring.sound_def by metis

theorem CircularQueue_never_stale_witness:
  "\<exists>q0 q. NewCircularQueue 2 = Some q0 \<and>
     add_all CircularQueue_Add [(''a'', 1), (''a'', 2 :: nat)] q0 = Ret q \<and>
     (\<forall>k v. CircularQueue_Get k q = Some v \<longrightarrow> map_of [(''a'', 2), (''a'', 1)] k = Some v)"
  using CircularQueue_never_stale [of 2 "[(''a'', 1), (''a'', 2 :: nat)]"]
  by (simp add: last_n_def)

text \<open>
  With repeated keys the queue forgets too early: evicting the old entry of a key deletes the
  newer one from the map although it is still among the last \<open>size\<close> additions.
\<close>

theorem CircularQueue_repeated_key_lost:
  "\<exists>q0 q. NewCircularQueue 2 = Some q0 \<and>
     add_all CircularQueue_Add [(''a'', 1), (''a'', 2), (''b'', 3 :: nat)] q0 = Ret q \<and>
     last_n 2 [(''a'', 1), (''a'', 2), (''b'', 3 :: nat)] = [(''a'', 2), (''b'', 3)] \<and>
     CircularQueue_Get ''a'' q = None"
  by (simp add: NewCircularQueue_def CircularQueue_Add_def CircularQueue_Get_def go_rem_def at_slot_def
      go_index_def go_deref_def i64_def last_n_def gdel_def gput_def gget_def numeral_2_eq_2)

end
