(* ===== verification/Work_Request.thy ===== *)
theory Work_Request
  imports Prelude "HOL-Library.Word"
begin

section \<open>Parties, work types and work requests\<close>

text \<open>
  The data every other component passes around: party ids (utils/party.go,
  worker/helper/misc.go), the threshold (utils/misc.go), work types and work requests
  (worker/types). Key shares and pre-parameters of the TSS library are only stored and handed
  on, so a value of such a type is an opaque token.
\<close>

type_synonym bytes = "8 word list"
type_synonym opaque = nat

subsection \<open>Parties\<close>

text \<open>
  A party id of the TSS library, with the fields the sources read. Its constructor and
  \<open>SortPartyIDs\<close> belong to the library: they are the parameter \<open>lib\<close>, and \<open>tss_parties\<close> is
  what its documentation says of them.
\<close>

record party =
  p_Id :: string
  p_Moniker :: string
  p_Key :: int
  p_Index :: int

record tss_lib =
  NewPartyID :: "string \<Rightarrow> string \<Rightarrow> int \<Rightarrow> party"
  SortPartyIDs :: "party list \<Rightarrow> party list"

definition person :: "party \<Rightarrow> string \<times> string \<times> int" where
  "person p = (p_Id p, p_Moniker p, p_Key p)"

locale tss_parties =
  fixes lib :: tss_lib
  assumes new_person: "person (NewPartyID lib nm mo k) = (nm, mo, k)"
    and sort_persons: "mset (map person (SortPartyIDs lib ps)) = mset (map person ps)"
    and sort_keys: "sorted (map p_Key (SortPartyIDs lib ps))"
    and sort_index: "i < length (SortPartyIDs lib ps) \<Longrightarrow> p_Index (SortPartyIDs lib ps ! i) = int i"
begin

lemma sort_length [simp]: "length (SortPartyIDs lib ps) = length ps"
  using sort_persons [of ps] by (metis length_map mset_eq_length)

lemma sort_ids: "mset (map p_Id (SortPartyIDs lib ps)) = mset (map p_Id ps)"
proof -
  have "image_mset fst (mset (map person (SortPartyIDs lib ps))) = image_mset fst (mset (map person ps))"
    by (simp only: sort_persons)
  then show ?thesis by (simp add: person_def comp_def multiset.map_comp)
qed

end

definition GetPidFromString :: "string \<Rightarrow> party list \<Rightarrow> party option" where
  "GetPidFromString fromString pids = find (\<lambda>pid. p_Id pid = fromString) pids"

definition GetPartyIdFromString :: "string \<Rightarrow> party list \<Rightarrow> party option" where
  "GetPartyIdFromString pid allParties = find (\<lambda>p. p_Id p = pid) allParties"

definition GetPidsArray :: "party list \<Rightarrow> string list" where
  "GetPidsArray pids = sort (map p_Id pids)"

definition GetPidString :: "party list \<Rightarrow> string" where
  "GetPidString pids = str_Join (sort (map p_Id pids)) '',''"

text \<open>\<open>(n+1)*2/3 - 1\<close> with Go's integer division, on the length of a slice.\<close>

definition GetThreshold :: "nat \<Rightarrow> int" where
  "GetThreshold n = (int n + 1) * 2 div 3 - 1"

subsection \<open>Work types and requests\<close>

text \<open>\<open>WorkType\<close> is an integer with four named values; any other value is \<open>OtherWork\<close>.\<close>

datatype WorkType = EcKeygen | EcSigning | EdKeygen | EdSigning | OtherWork

fun WorkType_String :: "WorkType \<Rightarrow> string" where
  "WorkType_String EcKeygen = ''ECDSA_KEYGEN''"
| "WorkType_String EcSigning = ''ECDSA_SIGNING''"
| "WorkType_String EdKeygen = ''EDDSA_KEYGEN''"
| "WorkType_String EdSigning = ''EDDSA_SIGNING''"
| "WorkType_String OtherWork = ''''"

definition WorkType_IsKeygen :: "WorkType \<Rightarrow> bool" where
  "WorkType_IsKeygen w \<longleftrightarrow> w = EcKeygen \<or> w = EdKeygen"

definition WorkType_IsSigning :: "WorkType \<Rightarrow> bool" where
  "WorkType_IsSigning w \<longleftrightarrow> w = EcSigning \<or> w = EdSigning"

text \<open>\<open>nil\<close> slices and pointers are \<open>None\<close>; a message to sign is itself a slice of bytes.\<close>

record WorkRequest =
  wr_WorkType :: WorkType
  wr_AllParties :: "party list"
  wr_WorkId :: string
  wr_N :: int
  wr_ForcedPresign :: bool
  wr_BatchSize :: nat
  wr_KeygenType :: string
  wr_KeygenIndex :: int
  wr_Threshold :: int
  wr_EcKeygenInput :: "opaque option"
  wr_EcSigningInput :: "opaque option"
  wr_EdSigningInput :: "opaque option"
  wr_Messages :: "bytes option list option"
  wr_Chains :: "string list option"

definition go_len :: "'a list option \<Rightarrow> nat" where
  "go_len xs = (case xs of None \<Rightarrow> 0 | Some ys \<Rightarrow> length ys)"

definition baseRequest ::
  "tss_lib \<Rightarrow> WorkType \<Rightarrow> string \<Rightarrow> int \<Rightarrow> int \<Rightarrow> party list \<Rightarrow> nat \<Rightarrow> WorkRequest" where
  "baseRequest lib workType workId n threshold pIDs batchSize =
     \<lparr>wr_WorkType = workType,
      wr_AllParties = SortPartyIDs lib
        (map (\<lambda>pid. NewPartyID lib (p_Id pid) (p_Moniker pid) (p_Key pid)) pIDs),
      wr_WorkId = workId, wr_N = n, wr_ForcedPresign = False, wr_BatchSize = batchSize,
      wr_KeygenType = '''', wr_KeygenIndex = 0, wr_Threshold = threshold,
      wr_EcKeygenInput = None, wr_EcSigningInput = None, wr_EdSigningInput = None,
      wr_Messages = None, wr_Chains = None\<rparr>"

definition NewEcKeygenRequest ::
  "tss_lib \<Rightarrow> string \<Rightarrow> string \<Rightarrow> party list \<Rightarrow> int \<Rightarrow> opaque option \<Rightarrow> WorkRequest" where
  "NewEcKeygenRequest lib keyType workId pIds threshold keygenInput =
     (baseRequest lib EcKeygen workId (int (length pIds)) threshold pIds 1)
       \<lparr>wr_EcKeygenInput := keygenInput, wr_KeygenType := keyType\<rparr>"

definition NewEcSigningRequest ::
  "tss_lib \<Rightarrow> string \<Rightarrow> party list \<Rightarrow> int \<Rightarrow> bytes option list option \<Rightarrow> string list option \<Rightarrow>
   opaque option \<Rightarrow> WorkRequest" where
  "NewEcSigningRequest lib workId pIds threshold messages chns keygenOutput =
     (baseRequest lib EcSigning workId (int (length pIds)) threshold pIds (go_len messages))
       \<lparr>wr_EcSigningInput := keygenOutput, wr_Messages := messages, wr_Chains := chns\<rparr>"

definition NewEdKeygenRequest :: "tss_lib \<Rightarrow> string \<Rightarrow> party list \<Rightarrow> int \<Rightarrow> WorkRequest" where
  "NewEdKeygenRequest lib workId pIds threshold =
     (baseRequest lib EdKeygen workId (int (length pIds)) threshold pIds 1)\<lparr>wr_KeygenType := ''eddsa''\<rparr>"

definition NewEdSigningRequest ::
  "tss_lib \<Rightarrow> string \<Rightarrow> party list \<Rightarrow> int \<Rightarrow> bytes option list option \<Rightarrow> string list option \<Rightarrow>
   opaque option \<Rightarrow> WorkRequest" where
  "NewEdSigningRequest lib workId pIds threshold messages chns inputs =
     (baseRequest lib EdSigning workId (int (length pIds)) threshold pIds (go_len messages))
       \<lparr>wr_EdSigningInput := inputs, wr_Messages := messages, wr_Chains := chns\<rparr>"

fun Validate :: "WorkRequest \<Rightarrow> string option" where
  "Validate request =
     (case wr_WorkType request of
        EcKeygen \<Rightarrow> None
      | EcSigning \<Rightarrow> None
      | EdKeygen \<Rightarrow> None
      | EdSigning \<Rightarrow> None
      | OtherWork \<Rightarrow> Some ''Invalid request type'')"

definition IsKeygen :: "WorkRequest \<Rightarrow> bool" where
  "IsKeygen request \<longleftrightarrow> wr_WorkType request = EcKeygen \<or> wr_WorkType request = EdKeygen"

definition IsSigning :: "WorkRequest \<Rightarrow> bool" where
  "IsSigning request \<longleftrightarrow> wr_WorkType request = EcSigning \<or> wr_WorkType request = EdSigning"

definition IsEcdsa :: "WorkRequest \<Rightarrow> bool" where
  "IsEcdsa request \<longleftrightarrow> wr_WorkType request = EcKeygen \<or> wr_WorkType request = EcSigning"

definition IsEddsa :: "WorkRequest \<Rightarrow> bool" where
  "IsEddsa request \<longleftrightarrow> wr_WorkType request = EdKeygen \<or> wr_WorkType request = EdSigning"

text \<open>\<open>request.Messages[0]\<close> panics on a signing request without messages.\<close>

definition IsEcPresign :: "WorkRequest \<Rightarrow> bool go" where
  "IsEcPresign request =
     (if wr_WorkType request = EcSigning
      then go_bind (go_index (case wr_Messages request of None \<Rightarrow> [] | Some ms \<Rightarrow> ms) 0)
             (\<lambda>msg. Ret (msg = None))
      else Ret False)"

definition GetMinPartyCount :: "WorkRequest \<Rightarrow> int" where
  "GetMinPartyCount request = (if IsKeygen request then wr_N request else wr_Threshold request + 1)"

definition GetPriority :: "WorkRequest \<Rightarrow> int" where
  "GetPriority request =
     (if wr_WorkType request = EcKeygen \<or> wr_WorkType request = EdKeygen then 100
      else if wr_WorkType request = EcSigning \<or> wr_WorkType request = EdSigning then 80
      else -1)"

subsection \<open>A library for evaluation\<close>

text \<open>
  A concrete \<open>tss_lib\<close> that keeps the documented laws, for witnesses: insertion by key, then
  numbering.
\<close>

definition number_parties :: "party list \<Rightarrow> party list" where
  "number_parties ps = map (\<lambda>(i, p). p\<lparr>p_Index := int i\<rparr>) (enumerate 0 ps)"

definition ref_lib :: tss_lib where
  "ref_lib = \<lparr>NewPartyID = (\<lambda>i mo k. \<lparr>p_Id = i, p_Moniker = mo, p_Key = k, p_Index = -1\<rparr>),
              SortPartyIDs = (\<lambda>ps. number_parties (sort_key p_Key ps))\<rparr>"

lemma map_number_parties:
  assumes "\<And>p i. f (p\<lparr>p_Index := i\<rparr>) = f p"
  shows "map f (number_parties ps) = map f ps"
  by (rule nth_equalityI) (simp_all add: number_parties_def nth_enumerate_eq assms)

interpretation ref_parties: tss_parties ref_lib
proof (unfold_locales, goal_cases)
  case (2 ps)
  have "map person (number_parties qs) = map person qs" for qs
    by (rule map_number_parties) (simp add: person_def)
  then show ?case by (simp add: ref_lib_def)
next
  case (3 ps)
  have "map p_Key (number_parties qs) = map p_Key qs" for qs
    by (rule map_number_parties) simp
  then show ?case by (simp add: ref_lib_def)
qed (auto simp: ref_lib_def person_def number_parties_def nth_enumerate_eq)

subsection \<open>Laws\<close>

lemma find_party_Some:
  "GetPidFromString i ps = Some p \<Longrightarrow> p \<in> set ps \<and> p_Id p = i"
  by (auto simp: GetPidFromString_def find_Some_iff)

lemma find_party_None: "GetPidFromString i ps = None \<longleftrightarrow> i \<notin> p_Id ` set ps"
  by (auto simp: GetPidFromString_def find_None_iff)

lemma GetPartyIdFromString_eq: "GetPartyIdFromString = GetPidFromString"
  by (simp add: fun_eq_iff GetPartyIdFromString_def GetPidFromString_def)

lemma kinds_exclusive: "\<not> (IsKeygen r \<and> IsSigning r)" "\<not> (IsEcdsa r \<and> IsEddsa r)"
  by (auto simp: IsKeygen_def IsSigning_def IsEcdsa_def IsEddsa_def)

lemma Validate_None_iff: "Validate r = None \<longleftrightarrow> IsKeygen r \<or> IsSigning r"
  by (cases "wr_WorkType r") (auto simp: IsKeygen_def IsSigning_def)

lemma threshold_bounds:
  "GetThreshold n + 1 = (2 * int n + 2) div 3"
  by (simp add: GetThreshold_def algebra_simps)

end
