(* ===== verification/Request_Queue.thy ===== *)
theory Request_Queue
  imports Go_Slice Work_Request
begin

section \<open>The request queue of core/request\_queue.go\<close>

text \<open>
  Pending work, ordered by priority. The queue is a Go slice that \<open>AddWork\<close> re-slices and
  appends to, so the model runs on the store of \<open>Go_Slice\<close>. The requests waiting in the queue
  are \<open>pending\<close>.
\<close>

record request_queue =
  rq_store :: "WorkRequest store"
  rq_queue :: slice

definition NewRequestQueue :: request_queue where
  "NewRequestQueue = \<lparr>rq_store = [], rq_queue = nil_slice\<rparr>"

definition pending :: "request_queue \<Rightarrow> WorkRequest list" where
  "pending q = contents (rq_store q) (rq_queue q)"

definition rq_ok :: "request_queue \<Rightarrow> bool" where
  "rq_ok q \<longleftrightarrow> slice_ok (rq_store q) (rq_queue q)"

text \<open>The loop \<open>for position = len(q.queue) - 1; position >= 0; position--\<close>.\<close>

fun insert_position :: "int \<Rightarrow> WorkRequest list \<Rightarrow> nat \<Rightarrow> int" where
  "insert_position priority ws 0 = -1"
| "insert_position priority ws (Suc position) =
     (if priority \<le> GetPriority (ws ! position) then int position
      else insert_position priority ws position)"

definition AddWork :: "(nat \<Rightarrow> nat \<Rightarrow> nat) \<Rightarrow> request_queue \<Rightarrow> WorkRequest \<Rightarrow> request_queue \<times> bool" where
  "AddWork grow q work =
     (let h = rq_store q; s = rq_queue q; ws = contents h s in
      if \<exists>w \<in> set ws. wr_WorkId w = wr_WorkId work then (q, False)
      else
        let position = insert_position (GetPriority work) ws (s_len s) in
        if position = -1
        then let (h1, front) = slice_lit h [work];
                 (h2, s2) = append_slice grow h1 front (contents h1 s)
             in (\<lparr>rq_store = h2, rq_queue = s2\<rparr>, True)
        else let first = reslice s 0 (nat position + 1);
                 second = reslice s (nat position + 1) (s_len s);
                 (h1, s1) = append_slice grow h first [work];
                 (h2, s2) = append_slice grow h1 s1 (contents h1 second)
             in (\<lparr>rq_store = h2, rq_queue = s2\<rparr>, True))"

definition Pop :: "request_queue \<Rightarrow> request_queue \<times> WorkRequest option" where
  "Pop q =
     (let s = rq_queue q in
      if s_len s = 0 then (q, None)
      else (q\<lparr>rq_queue := reslice s 1 (s_len s)\<rparr>, Some (pending q ! 0)))"

definition Size :: "request_queue \<Rightarrow> nat" where
  "Size q = s_len (rq_queue q)"

definition Print :: "request_queue \<Rightarrow> string" where
  "Print q = concat (map (\<lambda>work. '' '' @ wr_WorkId work) (pending q))"

subsection \<open>What AddWork computes on the pending requests\<close>

text \<open>
  The list-level meaning of \<open>AddWork\<close>. Appending \<open>work\<close> to the prefix \<open>first\<close> writes it in
  place over the first cell of \<open>second\<close>, which shares the array: the request that was there is
  gone and \<open>work\<close> is queued twice.
\<close>

definition position_of :: "WorkRequest \<Rightarrow> WorkRequest list \<Rightarrow> nat" where
  "position_of work ws = nat (insert_position (GetPriority work) ws (length ws) + 1)"

definition add_pending :: "WorkRequest \<Rightarrow> WorkRequest list \<Rightarrow> WorkRequest list" where
  "add_pending work ws =
     (let p = position_of work ws in
      if p = 0 then work # ws
      else take p ws @ work # (if p < length ws then work # drop (p + 1) ws else []))"

lemma insert_position_range: "-1 \<le> insert_position pr ws n \<and> insert_position pr ws n < int n"
  by (induction n) auto

lemma insert_position_max:
  "insert_position pr ws n < int i \<Longrightarrow> i < n \<Longrightarrow> GetPriority (ws ! i) < pr"
proof (induction n)
  case (Suc n)
  show ?case
  proof (cases "pr \<le> GetPriority (ws ! n)")
    case True
    with Suc.prems show ?thesis by simp
  next
    case False
    with Suc show ?thesis by (cases "i = n") auto
  qed
qed simp

lemma insert_position_hit:
  "insert_position pr ws n = int i \<Longrightarrow> i < n \<and> pr \<le> GetPriority (ws ! i)"
  by (induction n) (auto split: if_splits)

lemma position_of_le: "position_of work ws \<le> length ws"
  using insert_position_range [of "GetPriority work" ws "length ws"]
  by (simp add: position_of_def nat_le_iff)

lemma position_of_after: "position_of work ws \<le> i \<Longrightarrow> i < length ws \<Longrightarrow> GetPriority (ws ! i) < GetPriority work"
  using insert_position_range [of "GetPriority work" ws "length ws"]
  by (intro insert_position_max) (auto simp: position_of_def)

lemma position_of_before:
  "position_of work ws = Suc i \<Longrightarrow> i < length ws \<and> GetPriority work \<le> GetPriority (ws ! i)"
  using insert_position_hit [of "GetPriority work" ws "length ws" i]
  by (auto simp: position_of_def)

lemma rq_ok_New [simp]: "rq_ok NewRequestQueue" and pending_New [simp]: "pending NewRequestQueue = []"
  by (simp_all add: rq_ok_def pending_def NewRequestQueue_def)

lemma length_pending: "rq_ok q \<Longrightarrow> length (pending q) = Size q"
  by (simp add: rq_ok_def pending_def Size_def length_contents)

lemma Pop_pending:
  assumes "rq_ok q"
  shows "rq_ok (fst (Pop q)) \<and>
    (case pending q of
       [] \<Rightarrow> Pop q = (q, None)
     | w # ws \<Rightarrow> pending (fst (Pop q)) = ws \<and> snd (Pop q) = Some w)"
proof (cases "pending q")
  case Nil
  then show ?thesis using assms length_pending [OF assms] by (simp add: Pop_def Size_def)
next
  case (Cons w ws)
  then have "s_len (rq_queue q) = Suc (length ws)"
    using length_pending [OF assms] by (simp add: Size_def)
  then show ?thesis
    using assms Cons contents_reslice [of "rq_store q" "rq_queue q" 1 "Suc (length ws)"]
      slice_ok_reslice [of "rq_store q" "rq_queue q" 1 "Suc (length ws)"]
    by (auto simp: Pop_def rq_ok_def pending_def Let_def)
qed

context growth
begin

lemma contents_after_lit:
  assumes "slice_ok h s"
  shows "contents (fst (slice_lit h xs)) s = contents h s"
  using assms by (auto simp: slice_lit_def contents_def cells_def slice_ok_def nth_append)

text \<open>The in-place append of the middle insertion: it overwrites the first cell of the suffix.\<close>

lemma append_overwrites_suffix:
  assumes "slice_ok h s" and "p < s_len s"
  shows "contents (fst (append_slice grow h (reslice s 0 p) [w])) (reslice s p (s_len s)) =
         w # drop (Suc p) (contents h s)"
proof -
  define r where "r = append_slice grow h (reslice s 0 p) [w]"
  let ?a = "fst (h ! s_arr s)" and ?e = "s_off s + p"
  have ok: "s_arr s < length h" "s_off s + s_len s \<le> length ?a" "p < s_cap s"
    using assms by (auto simp: slice_ok_def cells_def)
  then have "fst r = h[s_arr s := (take ?e ?a @ [w] @ drop (Suc ?e) ?a, snd (h ! s_arr s))]"
    by (simp add: r_def append_slice_def reslice_def cells_def Let_def)
  then have "contents (fst r) (reslice s p (s_len s)) = take (s_len s - p) (w # drop (Suc ?e) ?a)"
    using ok assms(2) by (simp add: contents_def cells_def reslice_def)
  also have "\<dots> = w # drop (Suc p) (contents h s)"
    using ok Suc_diff_Suc [OF assms(2), symmetric]
    by (simp add: contents_def cells_def drop_take add.commute add.left_commute)
  finally show ?thesis by (simp only: r_def)
qed

lemma AddWork_pending:
  assumes "rq_ok q"
  shows "rq_ok (fst (AddWork grow q work)) \<and>
    pending (fst (AddWork grow q work)) =
      (if wr_WorkId work \<in> wr_WorkId ` set (pending q) then pending q else add_pending work (pending q)) \<and>
    snd (AddWork grow q work) = (wr_WorkId work \<notin> wr_WorkId ` set (pending q))"
proof -
  let ?h = "rq_store q" and ?s = "rq_queue q" and ?ws = "pending q"
  let ?pos = "insert_position (GetPriority work) ?ws (length ?ws)"
  have ok: "slice_ok ?h ?s" using assms by (simp add: rq_ok_def)
  have len: "s_len ?s = length ?ws" using length_contents [OF ok] by (simp add: pending_def)
  have known: "(\<exists>w \<in> set ?ws. wr_WorkId w = wr_WorkId work) \<longleftrightarrow> wr_WorkId work \<in> wr_WorkId ` set ?ws"
    by (metis image_iff)
  consider (dup) "wr_WorkId work \<in> wr_WorkId ` set ?ws"
    | (front) "wr_WorkId work \<notin> wr_WorkId ` set ?ws" "?pos = -1"
    | (mid) "wr_WorkId work \<notin> wr_WorkId ` set ?ws" "0 \<le> ?pos" "?pos < int (length ?ws)"
    using insert_position_range [of "GetPriority work" ?ws "length ?ws"] by fastforce
  then show ?thesis
  proof cases
    case dup
    then show ?thesis using known assms by (simp add: AddWork_def pending_def Let_def)
  next
    case front
    let ?lit = "slice_lit ?h [work]"
    have "slice_ok (fst ?lit) (snd ?lit)" by simp
    from contents_append [OF this, of ?ws] slice_ok_append [OF this, of ?ws] front known
    show ?thesis
      using contents_after_lit [OF ok, of "[work]"]
      by (simp add: AddWork_def pending_def rq_ok_def Let_def len [unfolded pending_def]
          add_pending_def position_of_def split_beta)
  next
    case mid
    define p where "p = nat ?pos + 1"
    have p: "position_of work ?ws = p" "0 < p" "p \<le> length ?ws" using mid by (auto simp: p_def position_of_def)
    let ?first = "reslice ?s 0 p" and ?second = "reslice ?s p (s_len ?s)"
    let ?r1 = "append_slice grow ?h ?first [work]"
    let ?r2 = "append_slice grow (fst ?r1) (snd ?r1) (contents (fst ?r1) ?second)"
    have eq: "AddWork grow q work = (\<lparr>rq_store = fst ?r2, rq_queue = snd ?r2\<rparr>, True)"
      using mid known by (simp add: AddWork_def pending_def Let_def len [unfolded pending_def] split_beta p_def)
    have okf: "slice_ok ?h ?first" using slice_ok_reslice [OF ok] p len by simp
    have first: "contents (fst ?r1) (snd ?r1) = take p ?ws @ [work]"
      using contents_append [OF okf] contents_reslice [OF ok, of 0 p] p len by (simp add: pending_def)
    have "contents (fst ?r1) ?second = []" if "p = length ?ws"
      using that len by (simp add: contents_def reslice_def)
    then have second: "contents (fst ?r1) ?second = (if p < length ?ws then work # drop (p + 1) ?ws else [])"
      using append_overwrites_suffix [OF ok, of p work] p len by (simp add: pending_def)
    have "contents (fst ?r2) (snd ?r2) = add_pending work ?ws"
      using contents_append [OF slice_ok_append [OF okf]] first second p
      by (simp add: add_pending_def)
    then have "pending (fst (AddWork grow q work)) = add_pending work ?ws"
      by (simp only: eq pending_def [of "\<lparr>rq_store = _, rq_queue = _\<rparr>"] fst_conv request_queue.simps)
    moreover have "rq_ok (fst (AddWork grow q work))"
      using slice_ok_append [OF slice_ok_append [OF okf]]
      by (simp only: eq rq_ok_def fst_conv request_queue.simps)
    ultimately show ?thesis using mid(1) eq by simp
  qed
qed

end

subsection \<open>Sequences of calls\<close>

datatype queue_op = OpAdd WorkRequest | OpPop

fun rq_run ::
  "(nat \<Rightarrow> nat \<Rightarrow> nat) \<Rightarrow> queue_op list \<Rightarrow> request_queue \<Rightarrow> request_queue \<times> WorkRequest option list" where
  "rq_run grow [] q = (q, [])"
| "rq_run grow (OpAdd w # ops) q = rq_run grow ops (fst (AddWork grow q w))"
| "rq_run grow (OpPop # ops) q =
     (let (q1, r) = Pop q; (q2, rs) = rq_run grow ops q1 in (q2, r # rs))"

text \<open>The abstract queue: first in, first out, a request whose id is waiting is dropped.\<close>

fun fifo_run :: "queue_op list \<Rightarrow> WorkRequest list \<Rightarrow> WorkRequest list \<times> WorkRequest option list" where
  "fifo_run [] ws = (ws, [])"
| "fifo_run (OpAdd w # ops) ws =
     fifo_run ops (if wr_WorkId w \<in> wr_WorkId ` set ws then ws else ws @ [w])"
| "fifo_run (OpPop # ops) ws =
     (let (ws2, rs) = fifo_run ops (tl ws) in (ws2, (if ws = [] then None else Some (hd ws)) # rs))"

fun op_works :: "queue_op list \<Rightarrow> WorkRequest set" where
  "op_works [] = {}"
| "op_works (OpAdd w # ops) = insert w (op_works ops)"
| "op_works (OpPop # ops) = op_works ops"

definition by_priority :: "WorkRequest list \<Rightarrow> bool" where
  "by_priority ws \<longleftrightarrow> sorted_wrt (\<lambda>a b. GetPriority b \<le> GetPriority a) ws"

lemma Pop_cases:
  assumes "rq_ok q"
  shows "rq_ok (fst (Pop q))" and "pending (fst (Pop q)) = tl (pending q)"
    and "snd (Pop q) = (if pending q = [] then None else Some (hd (pending q)))"
  using Pop_pending [OF assms] by (auto split: list.splits)

lemma add_pending_last:
  assumes "\<forall>w \<in> set ws. GetPriority work \<le> GetPriority w"
  shows "add_pending work ws = ws @ [work]"
proof (cases ws)
  case Nil
  then show ?thesis by (simp add: add_pending_def position_of_def)
next
  case (Cons a as)
  have "\<not> position_of work ws < length ws"
    using position_of_after [of work ws "position_of work ws"] assms nth_mem [of "position_of work ws" ws]
    by (meson linorder_not_less order_refl)
  then show ?thesis
    using position_of_le [of work ws] Cons by (simp add: add_pending_def)
qed

lemma add_pending_first:
  assumes "\<forall>w \<in> set ws. GetPriority w < GetPriority work"
  shows "add_pending work ws = work # ws"
proof -
  have "position_of work ws = 0"
  proof (rule ccontr)
    assume "position_of work ws \<noteq> 0"
    then obtain i where "position_of work ws = Suc i" by (cases "position_of work ws") auto
    from position_of_before [OF this] assms show False by (metis nth_mem not_le)
  qed
  then show ?thesis by (simp add: add_pending_def)
qed

lemma by_priority_add_pending:
  assumes "by_priority ws"
  shows "by_priority (add_pending work ws)"
proof -
  let ?p = "position_of work ws"
  have split: "by_priority (take ?p ws)" "by_priority (drop (?p + 1) ws)"
    using assms by (auto simp: by_priority_def sorted_wrt_take sorted_wrt_drop)
  have after: "GetPriority w < GetPriority work" if "w \<in> set (drop ?p ws)" for w
    using that position_of_after [of work ws] by (auto simp: in_set_conv_nth)
  then have after': "GetPriority w < GetPriority work" if "w \<in> set (drop (?p + 1) ws)" for w
    using that set_drop_subset_set_drop [of ?p "?p + 1" ws] by auto
  have before: "GetPriority work \<le> GetPriority w" if "w \<in> set (take ?p ws)" for w
  proof (cases ?p)
    case (Suc i)
    with that obtain j where j: "j \<le> i" "j < length ws" "w = ws ! j"
      by (auto simp: in_set_conv_nth less_Suc_eq_le)
    from position_of_before [OF Suc] have i: "i < length ws" "GetPriority work \<le> GetPriority (ws ! i)"
      by auto
    have "GetPriority (ws ! i) \<le> GetPriority w"
      using assms j i by (cases "j = i") (auto simp: by_priority_def sorted_wrt_iff_nth_less)
    with i show ?thesis by simp
  qed (use that in simp)
  show ?thesis
    using assms split after after' before
    by (fastforce simp: add_pending_def by_priority_def sorted_wrt_append Let_def)
qed

context growth
begin

lemma rq_run_sorted:
  assumes "rq_ok q" and "by_priority (pending q)"
  shows "rq_ok (fst (rq_run grow ops q)) \<and> by_priority (pending (fst (rq_run grow ops q)))"
  using assms
proof (induction ops arbitrary: q)
  case (Cons x ops)
  show ?case
  proof (cases x)
    case (OpAdd w)
    then show ?thesis
      using Cons.IH [of "fst (AddWork grow q w)"] AddWork_pending [OF Cons.prems(1), of w]
        by_priority_add_pending Cons.prems(2) by simp
  next
    case OpPop
    have "by_priority (tl (pending q))"
      using Cons.prems(2) by (cases "pending q") (auto simp: by_priority_def)
    then show ?thesis
      using Cons.IH [of "fst (Pop q)"] Pop_cases [OF Cons.prems(1)] OpPop by (simp add: split_beta)
  qed
qed simp

lemma rq_run_fifo:
  assumes "rq_ok q" and "\<forall>w \<in> set (pending q) \<union> op_works ops. GetPriority w = c"
  shows "fifo_run ops (pending q) = (pending (fst (rq_run grow ops q)), snd (rq_run grow ops q))"
  using assms
proof (induction ops arbitrary: q)
  case (Cons x ops)
  show ?case
  proof (cases x)
    case (OpAdd w)
    let ?q = "fst (AddWork grow q w)"
    have "pending ?q = (if wr_WorkId w \<in> wr_WorkId ` set (pending q) then pending q else pending q @ [w])"
      using AddWork_pending [OF Cons.prems(1), of w] add_pending_last [of "pending q" w] Cons.prems(2) OpAdd
      by simp
    then show ?thesis
      using Cons.IH [of ?q] AddWork_pending [OF Cons.prems(1), of w] Cons.prems(2) OpAdd
      by (auto split: if_splits)
  next
    case OpPop
    have "\<forall>w \<in> set (tl (pending q)) \<union> op_works ops. GetPriority w = c"
      using Cons.prems(2) OpPop by (cases "pending q") auto
    then show ?thesis
      using Cons.IH [of "fst (Pop q)"] Pop_cases [OF Cons.prems(1)] OpPop
      by (simp add: split_beta)
  qed
qed simp

end

subsection \<open>Properties\<close>

definition sample_request :: "WorkType \<Rightarrow> string \<Rightarrow> WorkRequest" where
  "sample_request ty i =
     \<lparr>wr_WorkType = ty, wr_AllParties = [], wr_WorkId = i, wr_N = 0, wr_ForcedPresign = False,
      wr_BatchSize = 1, wr_KeygenType = '''', wr_KeygenIndex = 0, wr_Threshold = 0,
      wr_EcKeygenInput = None, wr_EcSigningInput = None, wr_EdSigningInput = None,
      wr_Messages = None, wr_Chains = None\<rparr>"

text \<open>
  C33. For every growth policy of the run time and every sequence of \<open>AddWork\<close> and \<open>Pop\<close> calls
  on a new queue, the pending requests are ordered by priority, highest first.
\<close>

theorem queue_sorted_by_priority:
  assumes "growth grow"
  shows "by_priority (pending (fst (rq_run grow ops NewRequestQueue)))"
  using growth.rq_run_sorted [OF assms, of NewRequestQueue ops] by (simp add: by_priority_def)

theorem queue_sorted_by_priority_witness:
  "by_priority (pending (fst (rq_run go_grow
     [OpAdd (sample_request EcSigning ''s1''), OpAdd (sample_request EcKeygen ''k1''), OpPop] NewRequestQueue)))"
  using queue_sorted_by_priority [OF go_growth.growth_axioms] by blast

text \<open>
  C34. On requests of one priority (all signings, or all keygens) the queue refines a first-in
  first-out queue that drops a request whose id is already waiting: the same pending requests
  and the same results of every \<open>Pop\<close>, for every growth policy.
\<close>

theorem queue_refines_fifo:
  assumes "growth grow" and "\<forall>w \<in> op_works ops. GetPriority w = c"
  shows "fifo_run ops [] =
    (pending (fst (rq_run grow ops NewRequestQueue)), snd (rq_run grow ops NewRequestQueue))"
  using growth.rq_run_fifo [OF assms(1), of NewRequestQueue ops c] assms(2) by simp

theorem queue_refines_fifo_witness:
  "fifo_run [OpAdd (sample_request EcSigning ''a''), OpAdd (sample_request EdSigning ''b''), OpPop] [] =
   (let r = rq_run go_grow [OpAdd (sample_request EcSigning ''a''), OpAdd (sample_request EdSigning ''b''), OpPop]
      NewRequestQueue in (pending (fst r), snd r))"
  using queue_refines_fifo [OF go_growth.growth_axioms,
      of "[OpAdd (sample_request EcSigning ''a''), OpAdd (sample_request EdSigning ''b''), OpPop]" 80]
  by (simp add: GetPriority_def sample_request_def Let_def)

text \<open>
  \<open>AddWork\<close> answers whether the id was new, leaves the queue unchanged otherwise, puts a
  request of higher priority than all pending ones first, and one of lowest priority last.
\<close>

theorem AddWork_places:
  assumes "growth grow" and "rq_ok q"
  shows "snd (AddWork grow q work) = (wr_WorkId work \<notin> wr_WorkId ` set (pending q)) \<and>
    (wr_WorkId work \<in> wr_WorkId ` set (pending q) \<longrightarrow> pending (fst (AddWork grow q work)) = pending q) \<and>
    (wr_WorkId work \<notin> wr_WorkId ` set (pending q) \<longrightarrow> (\<forall>w \<in> set (pending q). GetPriority w < GetPriority work) \<longrightarrow>
       pending (fst (AddWork grow q work)) = work # pending q) \<and>
    (wr_WorkId work \<notin> wr_WorkId ` set (pending q) \<longrightarrow> (\<forall>w \<in> set (pending q). GetPriority work \<le> GetPriority w) \<longrightarrow>
       pending (fst (AddWork grow q work)) = pending q @ [work])"
  using growth.AddWork_pending [OF assms, of work] add_pending_first [of "pending q" work]
    add_pending_last [of "pending q" work] by simp

theorem AddWork_places_witness:
  "pending (fst (AddWork go_grow NewRequestQueue (sample_request EcKeygen ''k''))) = [sample_request EcKeygen ''k'']"
  using AddWork_places [OF go_growth.growth_axioms rq_ok_New, of "sample_request EcKeygen ''k''"] by simp

text \<open>
  Inserting between pending requests loses one: when a waiting request has at least the
  priority of the new one and a later one has less, the first of lower priority is overwritten
  by the new request, which ends up in the queue twice, whatever the growth policy.
\<close>

theorem AddWork_middle_overwrites:
  assumes "growth grow" and "rq_ok q" and "wr_WorkId work \<notin> wr_WorkId ` set (pending q)"
    and "pending q = hi @ lo # rest" and "hi \<noteq> []"
    and "GetPriority work \<le> GetPriority (last hi)"
    and "\<forall>w \<in> set (lo # rest). GetPriority w < GetPriority work"
  shows "pending (fst (AddWork grow q work)) = hi @ work # work # rest"
proof -
  have last: "pending q ! (length hi - 1) = last hi"
    using assms(4,5) by (simp add: nth_append last_conv_nth)
  have "length hi \<le> position_of work (pending q)"
  proof (rule ccontr)
    assume "\<not> length hi \<le> position_of work (pending q)"
    then have "GetPriority (pending q ! (length hi - 1)) < GetPriority work"
      using position_of_after [of work "pending q" "length hi - 1"] assms(4) by simp
    then show False using last assms(6) by simp
  qed
  moreover have "position_of work (pending q) \<le> length hi"
  proof (rule ccontr)
    assume "\<not> position_of work (pending q) \<le> length hi"
    then obtain i where i: "position_of work (pending q) = Suc i" "length hi \<le> i"
      by (cases "position_of work (pending q)") auto
    from position_of_before [OF i(1)] have "(lo # rest) ! (i - length hi) \<in> set (lo # rest)"
      and "GetPriority work \<le> GetPriority ((lo # rest) ! (i - length hi))"
      using i(2) assms(4) by (auto simp: nth_append simp del: set_simps intro!: nth_mem)
    then show False using assms(7) by fastforce
  qed
  ultimately have "position_of work (pending q) = length hi" by simp
  then show ?thesis
    using growth.AddWork_pending [OF assms(1,2), of work] assms(3-5) by (simp add: add_pending_def)
qed

theorem AddWork_middle_overwrites_witness:
  "pending (fst (AddWork go_grow (fst (rq_run go_grow
      [OpAdd (sample_request EcSigning ''s1''), OpAdd (sample_request EcKeygen ''k1'')] NewRequestQueue))
      (sample_request EdKeygen ''k2''))) =
   [sample_request EcKeygen ''k1'', sample_request EdKeygen ''k2'', sample_request EdKeygen ''k2'']"
  (is "pending (fst (AddWork _ ?q _)) = _")
proof -
  have "pending ?q = [sample_request EcKeygen ''k1''] @ sample_request EcSigning ''s1'' # []"
    by code_simp
  moreover have "rq_ok ?q"
    using growth.AddWork_pending [OF go_growth.growth_axioms] by simp
  ultimately show ?thesis
    using AddWork_middle_overwrites [OF go_growth.growth_axioms, of ?q "sample_request EdKeygen ''k2''"
        "[sample_request EcKeygen ''k1'']" "sample_request EcSigning ''s1''" "[]"]
    by (simp add: sample_request_def GetPriority_def)
qed

end
