(* ===== verification/Tss_Message.thy ===== *)
theory Tss_Message
  imports Work_Request
begin

section \<open>Wire messages: types/common/tss\_message.go\<close>

text \<open>
  The messages dheart nodes exchange (the structs protoc generates from
  proto/common/tss\_message.proto and signed\_message.proto), their constructors, and the
  message keys under which a node caches an update message and asks others for a missing one.
\<close>

datatype TssMessage_Type =
    UPDATE_MESSAGES | AVAILABILITY_REQUEST | AVAILABILITY_RESPONSE | PRE_EXEC_OUTPUT
  | ASK_MESSAGE_REQUEST | OtherType int

datatype ANSWER = YES | NO | OtherAnswer int

record UpdateMessage =
  um_Data :: bytes
  um_SerializedMessageRouting :: bytes
  um_Round :: string

record AvailabilityResponseMessage =
  ar_Answer :: ANSWER
  ar_MaxJob :: int

record PreExecOutputMessage =
  pe_Success :: bool
  pe_Pids :: "string list"
  pe_PresignIds :: "string list"

text \<open>Nested messages are pointers in Go: a message from the network may lack them.\<close>

record TssMessage =
  tm_Type :: TssMessage_Type
  tm_From :: string
  tm_To :: string
  tm_WorkId :: string
  tm_UpdateMessages :: "UpdateMessage list"
  tm_AvailabilityResponse :: "AvailabilityResponseMessage option"
  tm_PreExecOutput :: "PreExecOutputMessage option"
  tm_AskRequest :: "string option"

record SignedMessage =
  sm_From :: string
  sm_TssMessage :: "TssMessage option"
  sm_Signature :: bytes

text \<open>
  A message of the TSS library: the results of the methods the sources call on it. The
  routing header is opaque; \<open>json.Marshal\<close> of it is the parameter \<open>marshal\<close>.
\<close>

record tss_msg =
  msg_Type :: string
  msg_IsBroadcast :: bool
  msg_To :: "party list option"
  msg_From :: party
  msg_WireBytes :: "(bytes \<times> opaque) result"

definition baseMessage :: "TssMessage_Type \<Rightarrow> string \<Rightarrow> string \<Rightarrow> string \<Rightarrow> TssMessage" where
  "baseMessage typez from to workId =
     \<lparr>tm_Type = typez, tm_From = from, tm_To = to, tm_WorkId = workId, tm_UpdateMessages = [],
      tm_AvailabilityResponse = None, tm_PreExecOutput = None, tm_AskRequest = None\<rparr>"

fun serialize_msgs ::
  "(opaque \<Rightarrow> bytes result) \<Rightarrow> string \<Rightarrow> tss_msg option list \<Rightarrow> UpdateMessage list result go" where
  "serialize_msgs marshal round [] = Ret (Inr [])"
| "serialize_msgs marshal round (msg # msgs) =
     go_bind (go_deref msg) (\<lambda>msg.
       case msg_WireBytes msg of
         Inl err \<Rightarrow> Ret (Inl err)
       | Inr (bz, routing) \<Rightarrow>
           (case marshal routing of
              Inl err \<Rightarrow> Ret (Inl err)
            | Inr serialized \<Rightarrow>
                go_bind (serialize_msgs marshal round msgs) (\<lambda>rest. Ret (map_sum id
                  ((#) \<lparr>um_Data = bz, um_SerializedMessageRouting = serialized, um_Round = round\<rparr>) rest))))"

definition NewTssMessage ::
  "(opaque \<Rightarrow> bytes result) \<Rightarrow> string \<Rightarrow> string \<Rightarrow> string \<Rightarrow> tss_msg option list \<Rightarrow> string \<Rightarrow> TssMessage result go" where
  "NewTssMessage marshal from to workId msgs round =
     go_bind (serialize_msgs marshal round msgs) (\<lambda>r. Ret (map_sum id
       (\<lambda>updateMessages. (baseMessage UPDATE_MESSAGES from to workId)
          \<lparr>tm_UpdateMessages := updateMessages\<rparr>) r))"

definition NewAvailabilityRequestMessage :: "string \<Rightarrow> string \<Rightarrow> string \<Rightarrow> TssMessage" where
  "NewAvailabilityRequestMessage from to workId = baseMessage AVAILABILITY_REQUEST from to workId"

text \<open>The name of a type that is in the proto file, the decimal number of any other.\<close>

fun TssMessage_Type_String :: "TssMessage_Type \<Rightarrow> string" where
  "TssMessage_Type_String UPDATE_MESSAGES = ''UPDATE_MESSAGES''"
| "TssMessage_Type_String AVAILABILITY_REQUEST = ''AVAILABILITY_REQUEST''"
| "TssMessage_Type_String AVAILABILITY_RESPONSE = ''AVAILABILITY_RESPONSE''"
| "TssMessage_Type_String PRE_EXEC_OUTPUT = ''PRE_EXEC_OUTPUT''"
| "TssMessage_Type_String ASK_MESSAGE_REQUEST = ''ASK_MESSAGE_REQUEST''"
| "TssMessage_Type_String (OtherType n) = dec_of_int n"

text \<open>Go's conversion to \<open>int32\<close>.\<close>

definition int32 :: "int \<Rightarrow> int" where
  "int32 z = (z + 2 ^ 31) mod 2 ^ 32 - 2 ^ 31"

text \<open>The \<open>answer\<close> argument is not used: every response says YES.\<close>

definition NewAvailabilityResponseMessage ::
  "string \<Rightarrow> string \<Rightarrow> string \<Rightarrow> ANSWER \<Rightarrow> int \<Rightarrow> TssMessage" where
  "NewAvailabilityResponseMessage from to workId answer maxJob =
     (baseMessage AVAILABILITY_RESPONSE from to workId)
       \<lparr>tm_AvailabilityResponse := Some \<lparr>ar_Answer = YES, ar_MaxJob = int32 maxJob\<rparr>\<rparr>"

definition NewPreExecOutputMessage ::
  "string \<Rightarrow> string \<Rightarrow> string \<Rightarrow> bool \<Rightarrow> string list \<Rightarrow> party list \<Rightarrow> TssMessage" where
  "NewPreExecOutputMessage from to workId success presignIds pids =
     (baseMessage PRE_EXEC_OUTPUT from to workId)
       \<lparr>tm_PreExecOutput := Some \<lparr>pe_Success = success, pe_Pids = map p_Id pids, pe_PresignIds = presignIds\<rparr>\<rparr>"

definition NewRequestMessage :: "string \<Rightarrow> string \<Rightarrow> string \<Rightarrow> string \<Rightarrow> TssMessage" where
  "NewRequestMessage from to workId msgKey =
     (baseMessage ASK_MESSAGE_REQUEST from to workId)\<lparr>tm_AskRequest := Some msgKey\<rparr>"

definition IsBroadcast :: "TssMessage \<Rightarrow> bool" where
  "IsBroadcast msg \<longleftrightarrow> tm_To msg = ''''"

definition GetMessageKey :: "string \<Rightarrow> string \<Rightarrow> string \<Rightarrow> string \<Rightarrow> string" where
  "GetMessageKey workId from to tssMsgType = workId @ ''__'' @ from @ ''__'' @ to @ ''__'' @ tssMsgType"

definition TssMessage_GetMessageKey :: "TssMessage \<Rightarrow> string result" where
  "TssMessage_GetMessageKey msg =
     (case tm_UpdateMessages msg of
        [] \<Rightarrow> Inl ''empty update messages''
      | um # _ \<Rightarrow> Inr (GetMessageKey (tm_WorkId msg) (tm_From msg) (tm_To msg) (um_Round um)))"

definition IsSigningMessage :: "TssMessage \<Rightarrow> bool" where
  "IsSigningMessage msg \<longleftrightarrow>
     tm_Type msg = UPDATE_MESSAGES \<and> tm_UpdateMessages msg \<noteq> [] \<and>
     um_Round (hd (tm_UpdateMessages msg)) = ''SignRound1Message''"

text \<open>An empty key is not an error: it yields an empty (nil) slice of parts.\<close>

definition ExtractMessageKey :: "string \<Rightarrow> string list result" where
  "ExtractMessageKey msgKey =
     (if length msgKey = 0 then Inr []
      else let keys = str_Split msgKey ''__'' in
           if length keys < 4 then Inl (''not enough keys. msgKey = '' @ msgKey) else Inr keys)"

definition GetPreworkSelectionMsgType :: "(TssMessage_Type, bool) gmap" where
  "GetPreworkSelectionMsgType =
     [(AVAILABILITY_REQUEST, True), (AVAILABILITY_RESPONSE, True), (PRE_EXEC_OUTPUT, True)]"

definition GetUpdateMessageType :: "(TssMessage_Type, bool) gmap" where
  "GetUpdateMessageType = [(UPDATE_MESSAGES, True)]"

subsection \<open>Laws\<close>

lemma GetMessageKey_Join: "GetMessageKey w f t ty = str_Join [w, f, t, ty] ''__''"
  by (simp add: GetMessageKey_def)

lemma separable_without_underscore:
  assumes "CHR ''_'' \<notin> set x"
  shows "separable ''__'' x"
  unfolding separable_def
proof (intro allI impI notI)
  fix i assume i: "i < length x" and "prefix ''__'' (drop i (x @ butlast ''__''))"
  then have "x ! i = CHR ''_''"
    using Cons_nth_drop_Suc [OF i] by (metis append_Cons drop_append drop_eq_Nil2 Cons_prefix_Cons
        diff_is_0_eq less_imp_le_nat drop_0)
  then show False using i assms nth_mem by fastforce
qed

text \<open>Serialization keeps one update message per job, in order, all tagged with the round.\<close>

lemma serialize_msgs_Ret:
  "serialize_msgs marshal round msgs = Ret (Inr ums) \<Longrightarrow>
   length ums = length msgs \<and> (\<forall>um \<in> set ums. um_Round um = round)"
proof (induction msgs arbitrary: ums)
  case (Cons msg msgs)
  then show ?case
    by (auto simp: go_bind_eq_Ret_iff go_deref_def split: option.splits sum.splits prod.splits)
      (case_tac x; fastforce)+
qed simp

lemma serialize_msgs_total:
  assumes "\<forall>msg \<in> set msgs. msg \<noteq> None"
  shows "\<exists>r. serialize_msgs marshal round msgs = Ret r"
  using assms
proof (induction msgs)
  case (Cons msg msgs)
  then obtain y r where y: "msg = Some y" and r: "serialize_msgs marshal round msgs = Ret r" by auto
  then show ?case by (auto simp: go_deref_def split: sum.splits prod.splits)
qed simp

subsection \<open>Properties\<close>

lemma extract_key:
  assumes "\<forall>x \<in> {w, f, t, ty}. separable ''__'' x"
  shows "ExtractMessageKey (GetMessageKey w f t ty) = Inr [w, f, t, ty]"
proof -
  have "str_Split (str_Join [w, f, t, ty] ''__'') ''__'' = [w, f, t, ty]"
    by (rule str_Split_Join) (use assms in auto)
  moreover have "GetMessageKey w f t ty \<noteq> []" by (simp add: GetMessageKey_def)
  ultimately show ?thesis by (simp add: ExtractMessageKey_def GetMessageKey_Join Let_def)
qed

text \<open>
  C37. Message keys round-trip: when no part of the key contains or runs into the separator
  (in particular when it has no underscore), \<open>ExtractMessageKey\<close> returns the four parts that
  \<open>GetMessageKey\<close> joined, so two messages with such parts share a key only if they agree on all four.
\<close>

theorem ExtractMessageKey_GetMessageKey:
  assumes "\<forall>x \<in> {w, f, t, ty}. separable ''__'' x"
  shows "ExtractMessageKey (GetMessageKey w f t ty) = Inr [w, f, t, ty] \<and>
    (\<forall>w' f' t' ty'. (\<forall>x \<in> {w', f', t', ty'}. separable ''__'' x) \<longrightarrow>
      GetMessageKey w' f' t' ty' = GetMessageKey w f t ty \<longrightarrow> [w', f', t', ty'] = [w, f, t, ty])"
proof (intro conjI allI impI)
  show own: "ExtractMessageKey (GetMessageKey w f t ty) = Inr [w, f, t, ty]" using assms by (rule extract_key)
  fix w' f' t' ty'
  assume "\<forall>x \<in> {w', f', t', ty'}. separable ''__'' x" and same: "GetMessageKey w' f' t' ty' = GetMessageKey w f t ty"
  from extract_key [OF this(1)] show "[w', f', t', ty'] = [w, f, t, ty]" unfolding same own by simp
qed

theorem ExtractMessageKey_GetMessageKey_witness:
  "ExtractMessageKey (GetMessageKey ''work1'' ''node1'' '''' ''KGRound1Message'') =
   Inr [''work1'', ''node1'', '''', ''KGRound1Message'']"
  by (rule ExtractMessageKey_GetMessageKey [THEN conjunct1]) (auto intro!: separable_without_underscore)

text \<open>
  Without the side condition a key can be read back wrongly: a work id that ends in an
  underscore moves the cut, and the sender is looked up under another name.
\<close>

theorem ExtractMessageKey_underscore:
  "ExtractMessageKey (GetMessageKey ''work_'' ''node1'' '''' ''KGRound1Message'') =
   Inr [''work'', ''_node1'', '''', ''KGRound1Message'']"
  by (simp add: ExtractMessageKey_def GetMessageKey_def str_Split_def)

end
