(* ===== verification/Work_Message_Cache.thy ===== *)
theory Work_Message_Cache
  imports Circular_Queue Tss_Message
begin

section \<open>The cache of sent and received update messages: core/cache/work\_message\_cache.go\<close>

text \<open>
  One ring buffer per sender, five times as long for the node's own messages. A node answers
  requests for missing messages from this cache. Its client lemmas come from \<open>keyed_ring\<close>
  through the interpretation \<open>ring\<close> of the circular queue.
\<close>

record WorkMessageCache =
  wc_cache :: "(string, SignedMessage cqueue) gmap"
  wc_sizePerNode :: int
  wc_myPid :: party

definition NewWorkMessageCache :: "int \<Rightarrow> party \<Rightarrow> WorkMessageCache" where
  "NewWorkMessageCache sizePerNode myPid =
     \<lparr>wc_cache = [], wc_sizePerNode = sizePerNode, wc_myPid = myPid\<rparr>"

definition WorkMessageCache_Add :: "string \<Rightarrow> SignedMessage \<Rightarrow> WorkMessageCache \<Rightarrow> WorkMessageCache go" where
  "WorkMessageCache_Add key msg c =
     (let q = (case gget (wc_cache c) (sm_From msg) of
                 Some q \<Rightarrow> Some q
               | None \<Rightarrow> if sm_From msg = p_Id (wc_myPid c)
                         then NewCircularQueue (i64 (wc_sizePerNode c * 5))
                         else NewCircularQueue (wc_sizePerNode c))
      in go_bind (go_deref q) (\<lambda>q. go_bind (CircularQueue_Add key msg q)
           (\<lambda>q. Ret (c\<lparr>wc_cache := gput (sm_From msg) q (wc_cache c)\<rparr>))))"

definition WorkMessageCache_Get :: "string \<Rightarrow> string \<Rightarrow> WorkMessageCache \<Rightarrow> SignedMessage option" where
  "WorkMessageCache_Get from key c =
     (case gget (wc_cache c) from of None \<Rightarrow> None | Some q \<Rightarrow> CircularQueue_Get key q)"

subsection \<open>Each sender has its own window\<close>

fun wc_add_all :: "(string \<times> SignedMessage) list \<Rightarrow> WorkMessageCache \<Rightarrow> WorkMessageCache go" where
  "wc_add_all [] c = Ret c"
| "wc_add_all ((key, msg) # kms) c = go_bind (WorkMessageCache_Add key msg c) (wc_add_all kms)"

definition sent_by :: "string \<Rightarrow> (string \<times> SignedMessage) list \<Rightarrow> (string \<times> SignedMessage) list" where
  "sent_by from kms = filter (\<lambda>(key, msg). sm_From msg = from) kms"

definition cache_size :: "int \<Rightarrow> party \<Rightarrow> string \<Rightarrow> int" where
  "cache_size n me from = (if from = p_Id me then n * 5 else n)"

lemma add_all_append: "add_all add (xs @ ys) q = go_bind (add_all add xs q) (add_all add ys)"
proof (induction xs arbitrary: q)
  case (Cons x xs)
  then show ?case by (cases x; cases "add (fst x) (snd x) q") (simp_all add: go_bind_assoc)
qed simp

lemma length_sent_by: "length (sent_by s kms) \<le> length kms"
  by (simp add: sent_by_def)

text \<open>\<open>filled n me kms c\<close>: every sender's queue holds exactly what that sender's messages left in it.\<close>

definition filled :: "int \<Rightarrow> party \<Rightarrow> (string \<times> SignedMessage) list \<Rightarrow> WorkMessageCache \<Rightarrow> bool" where
  "filled n me kms c \<longleftrightarrow>
     wc_sizePerNode c = n \<and> wc_myPid c = me \<and>
     (\<forall>from. if sent_by from kms = [] then gget (wc_cache c) from = None
             else \<exists>q0 q. NewCircularQueue (cache_size n me from) = Some q0 \<and>
                         add_all CircularQueue_Add (sent_by from kms) q0 = Ret q \<and>
                         gget (wc_cache c) from = Some q)"

lemma Add_filled:
  assumes "filled n me pre c" and "0 < n" and "n * 5 < 2 ^ 63" and "Suc (length pre) < 2 ^ 63"
  shows "\<exists>c'. WorkMessageCache_Add key msg c = Ret c' \<and> filled n me (pre @ [(key, msg)]) c'"
proof -
  let ?f = "sm_From msg"
  let ?sz = "cache_size n me ?f"
  have sz: "0 < ?sz" "?sz < 2 ^ 63" "i64 (n * 5) = n * 5"
    using assms(2,3) by (auto simp: cache_size_def intro!: i64_id)
  have sent: "sent_by ?f (pre @ [(key, msg)]) = sent_by ?f pre @ [(key, msg)]"
    by (simp add: sent_by_def)
  have len: "length (sent_by ?f pre @ [(key, msg)]) < 2 ^ 63"
    using assms(4) length_sent_by [of ?f pre] by simp
  obtain q0 q' where q0: "NewCircularQueue ?sz = Some q0"
    and all: "add_all CircularQueue_Add (sent_by ?f pre @ [(key, msg)]) q0 = Ret q'"
    using filled_queue [OF sz(1,2) len] by auto
  from all obtain q where q: "add_all CircularQueue_Add (sent_by ?f pre) q0 = Ret q"
    and add: "CircularQueue_Add key msg q = Ret q'"
    by (auto simp: add_all_append go_bind_eq_Ret_iff)
  have found: "(case gget (wc_cache c) ?f of Some q \<Rightarrow> Some q
      | None \<Rightarrow> if ?f = p_Id (wc_myPid c) then NewCircularQueue (i64 (wc_sizePerNode c * 5))
                else NewCircularQueue (wc_sizePerNode c)) = Some q"
    using assms(1) q0 q sz(3) unfolding filled_def
    by (cases "sent_by ?f pre = []") (auto simp: cache_size_def dest!: spec [of _ ?f] split: if_splits)
  let ?c' = "c\<lparr>wc_cache := gput ?f q' (wc_cache c)\<rparr>"
  have "WorkMessageCache_Add key msg c = Ret ?c'"
    by (simp only: WorkMessageCache_Add_def found Let_def go_deref_Some go_bind.simps add)
  moreover have "sent_by s (pre @ [(key, msg)]) = sent_by s pre" if "s \<noteq> ?f" for s
    using that by (simp add: sent_by_def)
  then have "filled n me (pre @ [(key, msg)]) ?c'"
    using assms(1) q0 all sent unfolding filled_def by (simp split: if_splits) metis
  ultimately show ?thesis by blast
qed

lemma wc_add_all_filled:
  assumes "filled n me pre c" and "0 < n" and "n * 5 < 2 ^ 63" and "length (pre @ kms) < 2 ^ 63"
  shows "\<exists>c'. wc_add_all kms c = Ret c' \<and> filled n me (pre @ kms) c'"
  using assms(1,4)
proof (induction kms arbitrary: pre c)
  case (Cons km kms)
  obtain key msg where km: "km = (key, msg)" by (cases km)
  obtain c1 where "WorkMessageCache_Add key msg c = Ret c1" and "filled n me (pre @ [(key, msg)]) c1"
    using Add_filled [OF Cons.prems(1) assms(2,3), of key msg] Cons.prems(2) by auto
  then show ?case using Cons.IH [of "pre @ [(key, msg)]" c1] Cons.prems(2) by (simp add: km)
qed auto

subsection \<open>Properties\<close>

lemma cache_contents:
  assumes "0 < n" and "n * 5 < 2 ^ 63" and "length kms < 2 ^ 63"
  shows "\<exists>c. wc_add_all kms (NewWorkMessageCache n me) = Ret c \<and>
    (\<forall>s key. let w = last_n (nat (cache_size n me s)) (sent_by s kms) in
       (\<forall>msg. WorkMessageCache_Get s key c = Some msg \<longrightarrow>
              map_of (rev w) key = Some msg \<and> sm_From msg = s) \<and>
       (distinct (map fst (sent_by s kms)) \<longrightarrow> WorkMessageCache_Get s key c = map_of w key))"
proof -
  have "filled n me [] (NewWorkMessageCache n me)"
    by (simp add: filled_def NewWorkMessageCache_def sent_by_def)
  from wc_add_all_filled [OF this assms(1,2), of kms] assms(3)
  obtain c where c: "wc_add_all kms (NewWorkMessageCache n me) = Ret c" and f: "filled n me kms c" by auto
  have sender_in_window: "sm_From msg = s" if "map_of (rev (last_n i (sent_by s kms))) key = Some msg"
    for s key msg i
    using map_of_SomeD [OF that] set_drop_subset [of _ "sent_by s kms"]
    by (auto simp: last_n_def sent_by_def)
  have "let w = last_n (nat (cache_size n me s)) (sent_by s kms) in
       (\<forall>msg. WorkMessageCache_Get s key c = Some msg \<longrightarrow>
              map_of (rev w) key = Some msg \<and> sm_From msg = s) \<and>
       (distinct (map fst (sent_by s kms)) \<longrightarrow> WorkMessageCache_Get s key c = map_of w key)"
    for s key
  proof (cases "sent_by s kms = []")
    case True
    then show ?thesis using f by (auto simp: filled_def WorkMessageCache_Get_def last_n_def Let_def)
  next
    case False
    have len: "length (sent_by s kms) < 2 ^ 63"
      using assms(3) length_sent_by [of s kms] by simp
    have "0 < cache_size n me s" "cache_size n me s < 2 ^ 63"
      using assms(1,2) by (auto simp: cache_size_def)
    from filled_queue [OF this len] False f obtain q where
      "gget (wc_cache c) s = Some q" "cq_window q = last_n (nat (cache_size n me s)) (sent_by s kms)"
      "ring.sound q" "distinct (map fst (sent_by s kms)) \<longrightarrow> ring.exact q"
      unfolding filled_def by (auto dest!: spec [of _ "s"])
    then show ?thesis
      by (auto simp: Let_def WorkMessageCache_Get_def ring.sound_def ring.exact_def
          intro: sender_in_window)
  qed
  with c show ?thesis by blast
qed

text \<open>
  C35. Whatever messages are cached, in any number below the 64-bit limit, \<open>Add\<close> never panics and
  \<open>Get(from, key)\<close> returns only the newest message of that very sender under that key, still
  among its last \<open>sizePerNode\<close> messages (five times as many for the node itself); with no key
  repeated by the sender, it returns each of these. Other senders' messages change nothing.
\<close>

theorem WorkMessageCache_per_sender:
  assumes "0 < n" and "n * 5 < 2 ^ 63" and "length kms < 2 ^ 63"
  shows "\<exists>c. wc_add_all kms (NewWorkMessageCache n me) = Ret c \<and>
    (\<forall>s key. let w = last_n (nat (cache_size n me s)) (sent_by s kms) in
       (\<forall>msg. WorkMessageCache_Get s key c = Some msg \<longrightarrow>
              map_of (rev w) key = Some msg \<and> sm_From msg = s) \<and>
       (distinct (map fst (sent_by s kms)) \<longrightarrow> WorkMessageCache_Get s key c = map_of w key))"
  using assms by (rule cache_contents)

definition sample_signed :: "string \<Rightarrow> SignedMessage" where
  "sample_signed from = \<lparr>sm_From = from, sm_TssMessage = None, sm_Signature = []\<rparr>"

definition sample_party :: "string \<Rightarrow> int \<Rightarrow> party" where
  "sample_party i k = \<lparr>p_Id = i, p_Moniker = '''', p_Key = k, p_Index = -1\<rparr>"

theorem WorkMessageCache_per_sender_witness:
  "\<exists>c. wc_add_all [(''k1'', sample_signed ''a''), (''k2'', sample_signed ''b''), (''k3'', sample_signed ''b'')]
         (NewWorkMessageCache 1 (sample_party ''me'' 0)) = Ret c \<and>
       WorkMessageCache_Get ''a'' ''k1'' c = Some (sample_signed ''a'') \<and>
       WorkMessageCache_Get ''b'' ''k2'' c = None"
proof -
  let ?kms = "[(''k1'', sample_signed ''a''), (''k2'', sample_signed ''b''), (''k3'', sample_signed ''b'')]"
  let ?me = "sample_party ''me'' 0"
  from WorkMessageCache_per_sender [of 1 ?kms ?me]
  obtain c where c: "wc_add_all ?kms (NewWorkMessageCache 1 ?me) = Ret c"
    and g: "\<And>s key. distinct (map fst (sent_by s ?kms)) \<longrightarrow>
        WorkMessageCache_Get s key c = map_of (last_n (nat (cache_size 1 ?me s)) (sent_by s ?kms)) key"
    by (auto simp: Let_def)
  show ?thesis
    using c g [of "''a''" "''k1''"] g [of "''b''" "''k2''"]
    by (auto simp: sent_by_def sample_signed_def cache_size_def sample_party_def last_n_def)
qed

end
