(* ===== verification/Message_Cache.thy ===== *)
theory Message_Cache
  imports Go_Slice Tss_Message Circular_Queue
begin

section \<open>The cache of early messages: core/cache/message\_cache.go\<close>

text \<open>
  Messages that arrive before their worker, or before the worker's next phase, has started.
  Each sender has a slice of at most \<open>MaxMessagePerNode\<close> messages; \<open>PopAllMessages\<close> hands over
  the messages of one work and keeps the others. Slices share arrays after a pop, so the cache
  runs on the store of \<open>Go_Slice\<close>; \<open>msgs_of\<close> reads the messages kept for a sender.
\<close>

definition MaxMessagePerNode :: nat where
  "MaxMessagePerNode = 64"

record MessageCache =
  mc_store :: "TssMessage store"
  mc_cache :: "(string, slice) gmap"

definition NewMessageCache :: MessageCache where
  "NewMessageCache = \<lparr>mc_store = [], mc_cache = []\<rparr>"

definition AddMessage :: "(nat \<Rightarrow> nat \<Rightarrow> nat) \<Rightarrow> TssMessage \<Rightarrow> MessageCache \<Rightarrow> MessageCache" where
  "AddMessage grow msg c =
     (let value = (case gget (mc_cache c) (tm_From msg) of None \<Rightarrow> nil_slice | Some s \<Rightarrow> s);
          value = (if MaxMessagePerNode \<le> s_len value then reslice value 1 (s_len value) else value);
          (h, value) = append_slice grow (mc_store c) value [msg]
      in \<lparr>mc_store = h, mc_cache = gput (tm_From msg) value (mc_cache c)\<rparr>)"

text \<open>\<open>msg.WorkId == workId && (filter == nil || filter[msg.Type])\<close>\<close>

definition selects :: "string \<Rightarrow> (TssMessage_Type, bool) gmap option \<Rightarrow> TssMessage \<Rightarrow> bool" where
  "selects workId flt msg \<longleftrightarrow>
     tm_WorkId msg = workId \<and>
     (case flt of None \<Rightarrow> True | Some f \<Rightarrow> gget f (tm_Type msg) = Some True)"

text \<open>
  The inner loop over \<open>value.msgs\<close>. The slice \<open>newList\<close> is declared outside the loop over the
  senders and keeps growing; its array is allocated by this call, so reading \<open>value.msgs\<close> is
  not affected by its appends.
\<close>

fun scan_msgs ::
  "(nat \<Rightarrow> nat \<Rightarrow> nat) \<Rightarrow> (TssMessage \<Rightarrow> bool) \<Rightarrow> TssMessage list \<Rightarrow>
   TssMessage store \<times> slice \<times> TssMessage list \<Rightarrow> TssMessage store \<times> slice \<times> TssMessage list" where
  "scan_msgs grow p [] (h, newList, result) = (h, newList, result)"
| "scan_msgs grow p (msg # msgs) (h, newList, result) =
     (if p msg then scan_msgs grow p msgs (h, newList, result @ [msg])
      else let (h, newList) = append_slice grow h newList [msg]
           in scan_msgs grow p msgs (h, newList, result))"

fun scan_values ::
  "(nat \<Rightarrow> nat \<Rightarrow> nat) \<Rightarrow> (TssMessage \<Rightarrow> bool) \<Rightarrow> bool \<Rightarrow> (string \<times> slice) list \<Rightarrow>
   MessageCache \<times> slice \<times> TssMessage list \<Rightarrow> MessageCache \<times> slice \<times> TssMessage list" where
  "scan_values grow p upd [] (c, newList, result) = (c, newList, result)"
| "scan_values grow p upd ((k, value) # it) (c, newList, result) =
     (let (h, newList, result) = scan_msgs grow p (contents (mc_store c) value) (mc_store c, newList, result);
          cache = (if upd then gput k newList (mc_cache c) else mc_cache c)
      in scan_values grow p upd it (\<lparr>mc_store = h, mc_cache = cache\<rparr>, newList, result))"

definition getAllMessages ::
  "(nat \<Rightarrow> nat \<Rightarrow> nat) \<Rightarrow> (string \<times> slice) list \<Rightarrow> string \<Rightarrow> bool \<Rightarrow> (TssMessage_Type, bool) gmap option \<Rightarrow>
   MessageCache \<Rightarrow> MessageCache \<times> TssMessage list" where
  "getAllMessages grow it workId upd flt c =
     (let (c', newList, result) = scan_values grow (selects workId flt) upd it (c, nil_slice, [])
      in (c', result))"

definition PopAllMessages ::
  "(nat \<Rightarrow> nat \<Rightarrow> nat) \<Rightarrow> (string \<times> slice) list \<Rightarrow> string \<Rightarrow> (TssMessage_Type, bool) gmap option \<Rightarrow>
   MessageCache \<Rightarrow> MessageCache \<times> TssMessage list" where
  "PopAllMessages grow it workId flt c = getAllMessages grow it workId True flt c"

definition GetAllMessages ::
  "(nat \<Rightarrow> nat \<Rightarrow> nat) \<Rightarrow> (string \<times> slice) list \<Rightarrow> string \<Rightarrow> MessageCache \<Rightarrow> MessageCache \<times> TssMessage list" where
  "GetAllMessages grow it workId c = getAllMessages grow it workId False None c"

subsection \<open>Reading a cache\<close>

definition msgs_of :: "MessageCache \<Rightarrow> string \<Rightarrow> TssMessage list" where
  "msgs_of c k = (case gget (mc_cache c) k of None \<Rightarrow> [] | Some s \<Rightarrow> contents (mc_store c) s)"

definition mc_ok :: "MessageCache \<Rightarrow> bool" where
  "mc_ok c \<longleftrightarrow> gmap_ok (mc_cache c) \<and> (\<forall>(k, s) \<in> set (mc_cache c). slice_ok (mc_store c) s)"

text \<open>\<open>separate c\<close>: no two senders share an array, as in a cache that was only added to.\<close>

definition separate :: "MessageCache \<Rightarrow> bool" where
  "separate c \<longleftrightarrow> gmap_ok (mc_cache c) \<and>
     (\<forall>k s. gget (mc_cache c) k = Some s \<longrightarrow>
        slice_ok (mc_store c) s \<and> s_arr s < length (mc_store c) \<and>
        (\<forall>k' s'. gget (mc_cache c) k' = Some s' \<longrightarrow> k' \<noteq> k \<longrightarrow> s_arr s' \<noteq> s_arr s))"

lemma separate_ok: "separate c \<Longrightarrow> mc_ok c"
  by (fastforce simp: separate_def mc_ok_def gget_Some_iff)

lemma msgs_of_entry: "gmap_ok (mc_cache c) \<Longrightarrow> (k, s) \<in> set (mc_cache c) \<Longrightarrow> msgs_of c k = contents (mc_store c) s"
  by (simp add: msgs_of_def gget_Some_iff [symmetric])

context growth
begin

lemma AddMessage_separate:
  assumes "separate c"
  shows "separate (AddMessage grow msg c)" and
    "msgs_of (AddMessage grow msg c) k =
       (if k = tm_From msg then push MaxMessagePerNode (msgs_of c k) msg else msgs_of c k)"
proof -
  let ?f = "tm_From msg" and ?h = "mc_store c"
  define v where "v = (case gget (mc_cache c) ?f of None \<Rightarrow> nil_slice | Some s \<Rightarrow> s)"
  define v' where "v' = (if MaxMessagePerNode \<le> s_len v then reslice v 1 (s_len v) else v)"
  let ?r = "append_slice grow ?h v' [msg]"
  have add: "AddMessage grow msg c = \<lparr>mc_store = fst ?r, mc_cache = gput ?f (snd ?r) (mc_cache c)\<rparr>"
    by (simp add: AddMessage_def v_def [symmetric] v'_def [symmetric] Let_def split_beta)
  have v: "slice_ok ?h v" "contents ?h v = msgs_of c ?f"
    using assms by (auto simp: v_def separate_def msgs_of_def split: option.splits)
  have len: "s_len v = length (msgs_of c ?f)" using length_contents [OF v(1)] v(2) by simp
  have v': "slice_ok ?h v'"
    using slice_ok_reslice [OF v(1), of 1 "s_len v"] v(1) by (auto simp: v'_def MaxMessagePerNode_def)
  have cont: "contents ?h v' = (if MaxMessagePerNode \<le> length (msgs_of c ?f) then tl (msgs_of c ?f) else msgs_of c ?f)"
    using contents_reslice [OF v(1), of 1 "s_len v"] v(2) len
    by (auto simp: v'_def MaxMessagePerNode_def drop_Suc)
  have arr: "s_arr v' = s_arr v" by (simp add: v'_def reslice_def)
  have other: "s_arr t \<noteq> s_arr v' \<or> s_cap v' = 0" if "gget (mc_cache c) k' = Some t" "k' \<noteq> ?f" for k' t
    using that assms arr
    by (auto simp: v_def v'_def separate_def nil_slice_def reslice_def split: option.splits)
  have new: "slice_ok (fst ?r) (snd ?r)" "s_arr (snd ?r) < length (fst ?r)"
    using slice_ok_append [OF v', of "[msg]"] append_array(4) [of "[msg]" ?h v']
    by (simp, simp add: slice_ok_def)
  have arr_new: "s_arr (snd ?r) = (if s_len v' + 1 \<le> s_cap v' then s_arr v' else length ?h)"
    using append_array(1) [of "[msg]" ?h v'] by simp
  show "msgs_of (AddMessage grow msg c) k =
       (if k = ?f then push MaxMessagePerNode (msgs_of c k) msg else msgs_of c k)"
  proof (cases "k = ?f")
    case True
    then show ?thesis using contents_append [OF v', of "[msg]"] cont by (simp add: add msgs_of_def push_def)
  next
    case False
    then show ?thesis
      using assms other append_other_contents [of _ ?h v' "[msg]"]
      by (auto simp: add msgs_of_def separate_def split: option.splits)
  qed
  have "s_arr t \<noteq> s_arr (snd ?r)" if "gget (mc_cache c) k' = Some t" "k' \<noteq> ?f" for k' t
    using other [OF that] that(1) assms arr_new by (fastforce simp: separate_def split: if_splits)
  moreover have "slice_ok (fst ?r) t \<and> s_arr t < length (fst ?r)" if "gget (mc_cache c) k' = Some t" for k' t
    using that assms slice_ok_append_other [OF v'] append_store_length [of ?h v' "[msg]"]
    by (fastforce simp: separate_def)
  ultimately show "separate (AddMessage grow msg c)"
    using assms new unfolding add separate_def by (fastforce split: if_splits)
qed

end

subsection \<open>What a pop returns and what it keeps\<close>

text \<open>
  \<open>tracked h nl t\<close>: appending to \<open>nl\<close> cannot change what \<open>t\<close> shows, because \<open>t\<close> is empty, lies
  in another array, or is an earlier state of \<open>nl\<close> itself.
\<close>

definition tracked :: "'a store \<Rightarrow> slice \<Rightarrow> slice \<Rightarrow> bool" where
  "tracked h nl t \<longleftrightarrow> s_len t = 0 \<or>
     s_arr t < length h \<and>
     (s_cap nl = 0 \<or> s_arr t \<noteq> s_arr nl \<or> s_off t = s_off nl \<and> s_len t \<le> s_len nl)"

lemma tracked_nil [simp]: "slice_ok h t \<Longrightarrow> tracked h nil_slice t"
  by (auto simp: tracked_def nil_slice_def slice_ok_def)

lemma tracked_self: "slice_ok h nl \<Longrightarrow> tracked h nl nl"
  by (auto simp: tracked_def slice_ok_def)

lemma contents_len0: "s_len t = 0 \<Longrightarrow> contents h t = []"
  by (simp add: contents_def)

text \<open>The lists a pop leaves behind, sender by sender in the order of the loop.\<close>

fun kept_lists :: "('m \<Rightarrow> bool) \<Rightarrow> 'm list \<Rightarrow> (string \<times> 'm list) list \<Rightarrow> (string \<times> 'm list) list" where
  "kept_lists p acc [] = []"
| "kept_lists p acc ((k, ms) # it) =
     (let acc' = acc @ filter (Not \<circ> p) ms in (k, acc') # kept_lists p acc' it)"

context growth
begin

lemma append_tracked:
  assumes "slice_ok h nl" and "tracked h nl t"
  shows "contents (fst (append_slice grow h nl [m])) t = contents h t \<and>
         tracked (fst (append_slice grow h nl [m])) (snd (append_slice grow h nl [m])) t"
proof (cases "s_len t = 0")
  case True
  then show ?thesis by (simp add: contents_len0 tracked_def)
next
  case False
  then have t: "s_arr t < length h"
    "s_cap nl = 0 \<or> s_arr t \<noteq> s_arr nl \<or> s_off t = s_off nl \<and> s_len t \<le> s_len nl"
    using assms(2) by (auto simp: tracked_def)
  have "contents (fst (append_slice grow h nl [m])) t = contents h t"
    using t append_other_contents [of t h nl "[m]"] append_prefix_contents [OF assms(1), of t "[m]"] by blast
  moreover have "tracked (fst (append_slice grow h nl [m])) (snd (append_slice grow h nl [m])) t"
    using t append_store_length [of h nl "[m]"] append_array [of "[m]" h nl]
    by (auto simp: tracked_def split: if_splits)
  ultimately show ?thesis ..
qed

lemma scan_msgs_spec:
  assumes "slice_ok h nl" and "scan_msgs grow p ms (h, nl, res) = (h', nl', res')"
  shows "res' = res @ filter p ms" and "slice_ok h' nl'"
    and "contents h' nl' = contents h nl @ filter (Not \<circ> p) ms"
    and "slice_ok h t \<Longrightarrow> tracked h nl t \<Longrightarrow> slice_ok h' t \<and> tracked h' nl' t \<and> contents h' t = contents h t"
  using assms
proof (induction ms arbitrary: h nl res)
  case (Cons m ms)
  have hit: "p m \<Longrightarrow> scan_msgs grow p ms (h, nl, res @ [m]) = (h', nl', res')"
    and miss: "\<not> p m \<Longrightarrow> scan_msgs grow p ms
      (fst (append_slice grow h nl [m]), snd (append_slice grow h nl [m]), res) = (h', nl', res')"
    if "scan_msgs grow p (m # ms) (h, nl, res) = (h', nl', res')" for h nl res
    using that by (simp_all add: split_beta)
  {
    case 1
    with Cons.IH(1) [OF _ hit] Cons.IH(1) [OF slice_ok_append miss] show ?case by (cases "p m") auto
  next
    case 2
    with Cons.IH(2) [OF _ hit] Cons.IH(2) [OF slice_ok_append miss] show ?case by (cases "p m") auto
  next
    case 3
    with Cons.IH(3) [OF _ hit] Cons.IH(3) [OF slice_ok_append miss] show ?case
      by (cases "p m") (simp_all add: contents_append)
  next
    case 4
    show ?case
    proof (cases "p m")
      case True
      from Cons.IH(4) [OF 4(1-3) hit [OF 4(4) True]] show ?thesis .
    next
      case False
      note kept = append_tracked [OF 4(3,2), of m]
      from Cons.IH(4) [OF slice_ok_append_other [OF 4(3,1)] kept [THEN conjunct2]
          slice_ok_append [OF 4(3)] miss [OF 4(4) False]] kept
      show ?thesis by simp
    qed
  }
qed auto

lemma scan_values_spec:
  assumes "slice_ok (mc_store c) nl" and "gmap_ok (mc_cache c)" and "distinct (map fst it)"
    and "\<forall>(k, s) \<in> set it. slice_ok (mc_store c) s \<and> tracked (mc_store c) nl s"
    and "scan_values grow p upd it (c, nl, res) = (c', nl', res')"
  shows "res' = res @ concat (map (\<lambda>(k, s). filter p (contents (mc_store c) s)) it) \<and>
    gmap_ok (mc_cache c') \<and>
    (\<forall>t. slice_ok (mc_store c) t \<longrightarrow> tracked (mc_store c) nl t \<longrightarrow>
       slice_ok (mc_store c') t \<and> contents (mc_store c') t = contents (mc_store c) t) \<and>
    (\<forall>k. \<not> upd \<or> k \<notin> fst ` set it \<longrightarrow> gget (mc_cache c') k = gget (mc_cache c) k) \<and>
    (upd \<longrightarrow> (\<forall>(k, xs) \<in> set (kept_lists p (contents (mc_store c) nl)
         (map (\<lambda>(k, s). (k, contents (mc_store c) s)) it)).
       \<exists>s'. gget (mc_cache c') k = Some s' \<and> slice_ok (mc_store c') s' \<and> contents (mc_store c') s' = xs))"
  using assms
proof (induction it arbitrary: c nl res)
  case (Cons ks it)
  obtain k s where ks: "ks = (k, s)" by (cases ks)
  obtain h1 nl1 res1 where sc: "scan_msgs grow p (contents (mc_store c) s) (mc_store c, nl, res) = (h1, nl1, res1)"
    by (cases "scan_msgs grow p (contents (mc_store c) s) (mc_store c, nl, res)") auto
  note spec = scan_msgs_spec [OF Cons.prems(1) sc]
  let ?c1 = "\<lparr>mc_store = h1, mc_cache = if upd then gput k nl1 (mc_cache c) else mc_cache c\<rparr>"
  have "\<forall>(k, s) \<in> set it. slice_ok h1 s \<and> tracked h1 nl1 s"
    using Cons.prems(4) spec(4) by (auto simp: ks)
  then have IH: "res' = res1 @ concat (map (\<lambda>(k, s). filter p (contents h1 s)) it) \<and>
    gmap_ok (mc_cache c') \<and>
    (\<forall>t. slice_ok h1 t \<longrightarrow> tracked h1 nl1 t \<longrightarrow> slice_ok (mc_store c') t \<and> contents (mc_store c') t = contents h1 t) \<and>
    (\<forall>k. \<not> upd \<or> k \<notin> fst ` set it \<longrightarrow> gget (mc_cache c') k = gget (mc_cache ?c1) k) \<and>
    (upd \<longrightarrow> (\<forall>(k, xs) \<in> set (kept_lists p (contents h1 nl1) (map (\<lambda>(k, s). (k, contents h1 s)) it)).
       \<exists>s'. gget (mc_cache c') k = Some s' \<and> slice_ok (mc_store c') s' \<and> contents (mc_store c') s' = xs))"
    using Cons.IH [of ?c1 nl1 res1] Cons.prems(2,3,5) spec(2) sc by (simp add: ks gmap_ok_gput)
  have same: "contents h1 t = contents (mc_store c) t" if "(k', t) \<in> set it" for k' t
    using spec(4) Cons.prems(4) that by (auto simp: ks)
  have m: "map (\<lambda>(k, s). filter p (contents h1 s)) it = map (\<lambda>(k, s). filter p (contents (mc_store c) s)) it"
    "map (\<lambda>(k, s). (k, contents h1 s)) it = map (\<lambda>(k, s). (k, contents (mc_store c) s)) it"
    using same by (auto simp: map_eq_conv split: prod.splits)
  have "k \<notin> fst ` set it" using Cons.prems(3) by (simp add: ks)
  then have "upd \<Longrightarrow> gget (mc_cache c') k = Some nl1 \<and> slice_ok (mc_store c') nl1 \<and>
      contents (mc_store c') nl1 = contents (mc_store c) nl @ filter (Not \<circ> p) (contents (mc_store c) s)"
    using IH spec(2,3) tracked_self [OF spec(2)] by simp
  moreover have "\<forall>t. slice_ok (mc_store c) t \<longrightarrow> tracked (mc_store c) nl t \<longrightarrow>
       slice_ok (mc_store c') t \<and> contents (mc_store c') t = contents (mc_store c) t"
    using IH spec(4) by metis
  ultimately show ?case
    using IH spec(1,3) by (simp add: ks m Let_def comp_def)
qed simp

end

subsection \<open>Properties\<close>

lemma kept_lists_keys: "map fst (kept_lists p acc it) = map fst it"
  by (induction p acc it rule: kept_lists.induct) (simp_all add: Let_def)

lemma kept_lists_clean:
  "(k, xs) \<in> set (kept_lists p acc it) \<Longrightarrow> m \<in> set xs \<Longrightarrow> m \<notin> set acc \<Longrightarrow> \<not> p m"
  by (induction p acc it rule: kept_lists.induct) (auto simp: Let_def)

lemma kept_lists_keep:
  "(k, xs) \<in> set (kept_lists p acc it) \<Longrightarrow> distinct (map fst it) \<Longrightarrow> (k, ms) \<in> set it \<Longrightarrow>
   \<exists>pre. xs = pre @ filter (Not \<circ> p) ms"
proof (induction p acc it rule: kept_lists.induct)
  case (2 p acc k' ms' it)
  let ?acc = "acc @ filter (Not \<circ> p) ms'"
  show ?case
  proof (cases "k = k'")
    case True
    then have "k \<notin> fst ` set it" using "2.prems"(2) by simp
    then have "k \<notin> fst ` set (kept_lists p ?acc it)"
      using kept_lists_keys [of p ?acc it] by (metis list.set_map)
    then have "(k, xs) \<notin> set (kept_lists p ?acc it)" and "(k, ms) \<notin> set it"
      using \<open>k \<notin> fst ` set it\<close> by (auto simp: image_iff)
    then show ?thesis using "2.prems"(1,3) by (auto simp: Let_def comp_def)
  next
    case False
    then show ?thesis using "2.IH" [OF refl] "2.prems" by (simp add: Let_def)
  qed
qed simp

lemma Pop_lists:
  assumes "growth grow" and "mc_ok c" and "ranges (mc_cache c) it"
    and "PopAllMessages grow it workId flt c = (c', result)"
  shows "result = concat (map (\<lambda>(k, s). filter (selects workId flt) (msgs_of c k)) it)"
    and "mc_ok c'"
    and "map (\<lambda>(k, s). (k, msgs_of c' k)) it =
         kept_lists (selects workId flt) [] (map (\<lambda>(k, s). (k, msgs_of c k)) it)"
proof -
  let ?p = "selects workId flt" and ?h = "mc_store c"
  let ?entries = "map (\<lambda>(k, s). (k, contents ?h s)) it"
  from assms(4) obtain nl' where sv: "scan_values grow ?p True it (c, nil_slice, []) = (c', nl', result)"
    by (auto simp: PopAllMessages_def getAllMessages_def split: prod.splits)
  have ok: "gmap_ok (mc_cache c)" "distinct (map fst it)" "\<forall>(k, s) \<in> set it. slice_ok ?h s \<and> tracked ?h nil_slice s"
    using assms(2) ranges_ok [OF assms(3)] ranges_set [OF assms(3)] by (auto simp: mc_ok_def gmap_ok_def)
  note spec = growth.scan_values_spec [OF assms(1) slice_ok_nil_slice ok sv]
  have entry: "msgs_of c k = contents ?h s" if "(k, s) \<in> set it" for k s
    using that ranges_set [OF assms(3)] ok(1) by (simp add: msgs_of_entry)
  then have entries: "?entries = map (\<lambda>(k, s). (k, msgs_of c k)) it"
    by (auto simp: map_eq_conv)
  have "map (\<lambda>(k, s). filter ?p (contents ?h s)) it = map (\<lambda>(k, s). filter ?p (msgs_of c k)) it"
    using entry by (auto simp: map_eq_conv)
  then show "result = concat (map (\<lambda>(k, s). filter ?p (msgs_of c k)) it)"
    using spec by (metis append_Nil)
  have kept: "msgs_of c' k = xs" "\<exists>s'. gget (mc_cache c') k = Some s' \<and> slice_ok (mc_store c') s'"
    if "(k, xs) \<in> set (kept_lists ?p [] ?entries)" for k xs
    using spec that by (fastforce simp: msgs_of_def)+
  have keys: "map fst (kept_lists ?p [] ?entries) = map fst it"
    by (simp add: kept_lists_keys comp_def split_beta)
  have "map (\<lambda>(k, s). (k, msgs_of c' k)) it = map (\<lambda>k. (k, msgs_of c' k)) (map fst it)"
    by (simp add: split_beta)
  also have "\<dots> = map (\<lambda>(k, xs). (k, msgs_of c' k)) (kept_lists ?p [] ?entries)"
    by (simp only: keys [symmetric]) (simp add: split_beta)
  also have "\<dots> = kept_lists ?p [] ?entries" using kept(1) by (intro map_idI) auto
  finally show "map (\<lambda>(k, s). (k, msgs_of c' k)) it = kept_lists ?p [] (map (\<lambda>(k, s). (k, msgs_of c k)) it)"
    by (simp only: entries)
  have "slice_ok (mc_store c') s" if "(k, s) \<in> set (mc_cache c')" for k s
  proof (cases "k \<in> fst ` set it")
    case True
    then have "k \<in> set (map fst (kept_lists ?p [] ?entries))" by (simp only: keys) simp
    then obtain xs where "(k, xs) \<in> set (kept_lists ?p [] ?entries)" by auto
    moreover have "gget (mc_cache c') k = Some s" using that spec by (simp add: gget_Some_iff)
    ultimately show ?thesis using kept(2) by fastforce
  next
    case False
    have "gget (mc_cache c) k = None"
      using False ranges_keys [OF assms(3)] by (simp add: gget_None_iff gkeys_def)
    then show ?thesis using spec False that by (metis gget_Some_iff option.distinct(1))
  qed
  then show "mc_ok c'" using spec by (auto simp: mc_ok_def)
qed

definition add_messages :: "(nat \<Rightarrow> nat \<Rightarrow> nat) \<Rightarrow> TssMessage list \<Rightarrow> MessageCache" where
  "add_messages grow ms = fold (AddMessage grow) ms NewMessageCache"

definition msgs_from :: "string \<Rightarrow> TssMessage list \<Rightarrow> TssMessage list" where
  "msgs_from k ms = filter (\<lambda>m. tm_From m = k) ms"

lemma separate_New: "separate NewMessageCache" and msgs_of_New: "msgs_of NewMessageCache k = []"
  by (simp_all add: separate_def NewMessageCache_def msgs_of_def)

lemma add_messages_state:
  assumes "growth grow"
  shows "separate (add_messages grow ms) \<and>
    msgs_of (add_messages grow ms) k = last_n MaxMessagePerNode (msgs_from k ms)"
proof (induction ms arbitrary: k rule: rev_induct)
  case Nil
  then show ?case by (simp add: add_messages_def separate_New msgs_of_New msgs_from_def last_n_def)
next
  case (snoc m ms)
  have "0 < MaxMessagePerNode" by (simp add: MaxMessagePerNode_def)
  then show ?case
    using growth.AddMessage_separate [OF assms, of "add_messages grow ms" m] snoc.IH
    by (auto simp: add_messages_def msgs_from_def push_last_n)
qed

lemma filter_concat_sender:
  assumes "distinct (map fst it)" and "\<forall>(k, xs) \<in> set it. \<forall>m \<in> set xs. tm_From m = k"
  shows "filter (\<lambda>m. tm_From m = k) (concat (map snd it)) = (case map_of it k of None \<Rightarrow> [] | Some xs \<Rightarrow> xs)"
  using assms
proof (induction it)
  case (Cons x it)
  obtain k' xs where x: "x = (k', xs)" by (cases x)
  have "filter (\<lambda>m. tm_From m = k) xs = (if k = k' then xs else [])"
    using Cons.prems(2) by (auto simp: x filter_empty_conv filter_id_conv)
  moreover have "map_of it k = None" if "k = k'"
    using Cons.prems(1) that by (simp add: x map_of_eq_None_iff)
  ultimately show ?case using Cons by (auto simp: x)
qed simp

text \<open>
  \<open>PopAllMessages\<close>, on any well-formed cache and for every order in which the map is ranged
  over and every growth policy, returns exactly the cached messages of the work whose type the
  filter admits, each sender's in order of arrival; none of them stays in the cache, and every
  other message of a sender is still kept for that sender.
\<close>

theorem PopAllMessages_hands_over:
  assumes "growth grow" and "mc_ok c" and "ranges (mc_cache c) it"
    and "PopAllMessages grow it workId flt c = (c', result)"
  shows "result = concat (map (\<lambda>(k, s). filter (selects workId flt) (msgs_of c k)) it) \<and>
    mc_ok c' \<and>
    (\<forall>k \<in> gkeys (mc_cache c).
       (\<forall>m \<in> set (msgs_of c' k). \<not> selects workId flt m) \<and>
       (\<exists>pre. msgs_of c' k = pre @ filter (\<lambda>m. \<not> selects workId flt m) (msgs_of c k)))"
proof -
  note pop = Pop_lists [OF assms]
  let ?old = "map (\<lambda>(k, s). (k, msgs_of c k)) it"
  have "distinct (map fst ?old)"
    using ranges_ok [OF assms(3)] assms(2) by (simp add: mc_ok_def gmap_ok_def comp_def split_beta)
  moreover have "(k, msgs_of c' k) \<in> set (kept_lists (selects workId flt) [] ?old)" "(k, msgs_of c k) \<in> set ?old"
    if "k \<in> gkeys (mc_cache c)" for k
    using that ranges_set [OF assms(3)] unfolding pop(3) [symmetric] by (force simp: gkeys_def)+
  ultimately show ?thesis
    using pop(1,2) kept_lists_clean [of _ _ "selects workId flt" "[]" ?old]
      kept_lists_keep [of _ _ "selects workId flt" "[]" ?old]
    by (simp add: comp_def) blast
qed

lemma delivers_last_64:
  assumes "growth grow" and "ranges (mc_cache (add_messages grow ms)) it"
    and "PopAllMessages grow it workId flt (add_messages grow ms) = (c', result)"
  shows "filter (\<lambda>m. tm_From m = k) result = filter (selects workId flt) (last_n 64 (msgs_from k ms))"
proof -
  let ?c = "add_messages grow ms"
  have sep: "separate ?c" and msgs: "\<And>k. msgs_of ?c k = last_n 64 (msgs_from k ms)"
    using add_messages_state [OF assms(1)] by (auto simp: MaxMessagePerNode_def)
  define parts where "parts = map (\<lambda>(k, s). (k, filter (selects workId flt) (msgs_of ?c k))) it"
  have "result = concat (map snd parts)"
    using Pop_lists(1) [OF assms(1) separate_ok [OF sep] assms(2,3)] by (simp add: parts_def comp_def case_prod_unfold)
  moreover have dist: "distinct (map fst parts)"
    using ranges_ok [OF assms(2)] sep by (simp add: parts_def separate_def gmap_ok_def comp_def split_beta)
  moreover have "\<forall>(k, xs) \<in> set parts. \<forall>m \<in> set xs. tm_From m = k"
    using set_drop_subset by (fastforce simp: parts_def msgs last_n_def msgs_from_def)
  ultimately have "filter (\<lambda>m. tm_From m = k) result = (case map_of parts k of None \<Rightarrow> [] | Some xs \<Rightarrow> xs)"
    by (simp add: filter_concat_sender)
  also have "\<dots> = filter (selects workId flt) (msgs_of ?c k)"
  proof (cases "k \<in> gkeys (mc_cache ?c)")
    case True
    then have "(k, filter (selects workId flt) (msgs_of ?c k)) \<in> set parts"
      using ranges_set [OF assms(2)] by (force simp: parts_def gkeys_def)
    then show ?thesis using dist by simp
  next
    case False
    then have "gget (mc_cache ?c) k = None" and "k \<notin> fst ` set it"
      using ranges_keys [OF assms(2)] by (simp_all add: gget_None_iff gkeys_def)
    then have "map_of parts k = None" and "msgs_of ?c k = []"
      by (force simp: parts_def map_of_eq_None_iff, simp add: msgs_of_def)
    then show ?thesis by simp
  qed
  finally show ?thesis by (simp add: msgs)
qed

text \<open>
  C28. A cache that was only added to delivers the newest 64 messages of each sender: popping a
  work returns, for every sender and in order of arrival, exactly the selected ones among the
  last 64 messages that sender sent, so one sender's flood never evicts another's messages.
\<close>

theorem MessageCache_delivers_last_64:
  assumes "growth grow" and "ranges (mc_cache (add_messages grow ms)) it"
    and "PopAllMessages grow it workId flt (add_messages grow ms) = (c', result)"
  shows "filter (\<lambda>m. tm_From m = k) result = filter (selects workId flt) (last_n 64 (msgs_from k ms))"
  using assms by (rule delivers_last_64)

definition sample_msg :: "string \<Rightarrow> string \<Rightarrow> TssMessage" where
  "sample_msg from work = baseMessage UPDATE_MESSAGES from '''' work"

theorem PopAllMessages_hands_over_witness:
  "snd (PopAllMessages go_grow (mc_cache (add_messages go_grow [sample_msg ''a'' ''w1'', sample_msg ''a'' ''w2'']))
      ''w1'' None (add_messages go_grow [sample_msg ''a'' ''w1'', sample_msg ''a'' ''w2''])) = [sample_msg ''a'' ''w1'']"
  (is "snd (PopAllMessages _ (mc_cache ?c) _ _ _) = _")
proof -
  have "mc_ok ?c" using separate_ok add_messages_state [OF go_growth.growth_axioms] by blast
  from PopAllMessages_hands_over [OF go_growth.growth_axioms this ranges_refl
      prod.collapse [symmetric, of "PopAllMessages go_grow (mc_cache ?c) ''w1'' None ?c"]]
  have "snd (PopAllMessages go_grow (mc_cache ?c) ''w1'' None ?c) =
     concat (map (\<lambda>(k, s). filter (selects ''w1'' None) (msgs_of ?c k)) (mc_cache ?c))" by blast
  also have "\<dots> = [sample_msg ''a'' ''w1'']" by code_simp
  finally show ?thesis .
qed

theorem MessageCache_delivers_last_64_witness:
  "filter (\<lambda>m. tm_From m = ''a'')
     (snd (PopAllMessages go_grow (mc_cache (add_messages go_grow [sample_msg ''a'' ''w1'', sample_msg ''b'' ''w1'']))
        ''w1'' None (add_messages go_grow [sample_msg ''a'' ''w1'', sample_msg ''b'' ''w1'']))) = [sample_msg ''a'' ''w1'']"
  (is "filter _ (snd (PopAllMessages _ (mc_cache ?c) _ _ _)) = _")
  using MessageCache_delivers_last_64 [OF go_growth.growth_axioms ranges_refl
      prod.collapse [symmetric, of "PopAllMessages go_grow (mc_cache ?c) ''w1'' None ?c"], of "''a''"]
  by (simp add: sample_msg_def baseMessage_def msgs_from_def last_n_def selects_def)

text \<open>
  The kept messages are not kept apart: popping work \<open>w1\<close> from a cache that holds one message
  of \<open>w2\<close> from each of two senders leaves the first sender's message in the second sender's list
  as well, and the next pop delivers it twice.
\<close>

theorem PopAllMessages_duplicates:
  "let c = add_messages go_grow [sample_msg ''a'' ''w2'', sample_msg ''b'' ''w2''];
       c1 = fst (PopAllMessages go_grow (mc_cache c) ''w1'' None c)
   in msgs_of c1 ''a'' = [sample_msg ''a'' ''w2''] \<and>
      msgs_of c1 ''b'' = [sample_msg ''a'' ''w2'', sample_msg ''b'' ''w2''] \<and>
      snd (PopAllMessages go_grow (mc_cache c1) ''w2'' None c1) =
        [sample_msg ''a'' ''w2'', sample_msg ''a'' ''w2'', sample_msg ''b'' ''w2'']"
  by code_simp

text \<open>
  After a pop the senders' slices share one array, and adding a message of one sender can
  overwrite a cached message of another: here \<open>b\<close>'s only message is lost when \<open>a\<close> sends a fourth.
\<close>

theorem AddMessage_overwrites_other_sender:
  "let c = add_messages go_grow [sample_msg ''a'' ''w2'', sample_msg ''a'' ''w3'', sample_msg ''a'' ''w4'', sample_msg ''b'' ''w2''];
       c1 = fst (PopAllMessages go_grow (mc_cache c) ''w1'' None c)
   in sample_msg ''b'' ''w2'' \<in> set (msgs_of c1 ''b'') \<and>
      sample_msg ''b'' ''w2'' \<notin> set (msgs_of (AddMessage go_grow (sample_msg ''a'' ''w5'') c1) ''b'')"
  by code_simp

end
