(* ===== verification/Database.thy ===== *)
theory Database
  imports Work_Request
begin

section \<open>The database layer: db/database.go and db/database\_helper.go\<close>

text \<open>
  \<open>SqlDatabase\<close> turns each operation into an SQL text with placeholders and a list of parameters,
  runs it on the driver and scans the rows. The driver (MySQL or SQLite behind
  \<open>database/sql\<close>) is a parameter: \<open>Exec\<close> and \<open>Query\<close> on an opaque state. \<open>json.Marshal\<close> and
  \<open>json.Unmarshal\<close> of the values of the TSS library are parameters too. The interface \<open>Database\<close>
  the rest of dheart uses is a record of operations, and \<open>SqlDatabase\<close> builds one.
\<close>

datatype sqlval = VStr string | VBytes bytes | VNull

record 's driver =
  sql_Exec :: "string \<Rightarrow> sqlval list \<Rightarrow> 's \<Rightarrow> string option \<times> 's"
  sql_Query :: "string \<Rightarrow> sqlval list \<Rightarrow> 's \<Rightarrow> sqlval list list result"

record json =
  js_Marshal :: "opaque option \<Rightarrow> bytes result"
  js_Unmarshal :: "bytes \<Rightarrow> opaque result"

text \<open>The constants of \<open>github.com/sisu-network/lib/chain\<close> the sources use.\<close>

record libchain =
  KEY_TYPE_ECDSA :: string
  KEY_TYPE_EDDSA :: string

record Peer =
  pr_Address :: string
  pr_PubKey :: string
  pr_PubKeyType :: string

record 'd Database =
  db_SavePreparams :: "opaque option \<Rightarrow> 'd \<Rightarrow> string option \<times> 'd"
  db_LoadPreparams :: "'d \<Rightarrow> opaque result"
  db_SaveEcKeygen :: "string \<Rightarrow> string \<Rightarrow> party list \<Rightarrow> opaque option \<Rightarrow> 'd \<Rightarrow> string option \<times> 'd"
  db_LoadEcKeygen :: "string \<Rightarrow> 'd \<Rightarrow> opaque option result"
  db_SaveEdKeygen :: "string \<Rightarrow> string \<Rightarrow> party list \<Rightarrow> opaque option \<Rightarrow> 'd \<Rightarrow> string option \<times> 'd"
  db_LoadEdKeygen :: "string \<Rightarrow> 'd \<Rightarrow> opaque option result"
  db_SavePresignData :: "string \<Rightarrow> party list \<Rightarrow> opaque option list \<Rightarrow> 'd \<Rightarrow> string option \<times> 'd"
  db_GetAvailablePresignShortForm :: "'d \<Rightarrow> (string list \<times> string list) result"
  db_LoadPresign :: "string list \<Rightarrow> 'd \<Rightarrow> opaque list result"
  db_LoadPresignStatus :: "string list \<Rightarrow> 'd \<Rightarrow> string list result"
  db_UpdatePresignStatus :: "string list \<Rightarrow> 'd \<Rightarrow> string option \<times> 'd"
  db_SavePeers :: "Peer list \<Rightarrow> 'd \<Rightarrow> string option \<times> 'd"
  db_LoadPeers :: "'d \<Rightarrow> Peer list"

definition PresignStatusNotUsed :: string where
  "PresignStatusNotUsed = ''not_used''"

definition PresignStatusUsed :: string where
  "PresignStatusUsed = ''used''"

definition ErrNotFound :: string where
  "ErrNotFound = ''not found''"

subsection \<open>Query texts\<close>

text \<open>The inner loop writes \<open>fieldCount\<close> marks, the outer one \<open>rowCount\<close> groups.\<close>

function question_marks :: "nat \<Rightarrow> nat \<Rightarrow> string \<Rightarrow> string" where
  "question_marks fieldCount j q =
     (if j < fieldCount
      then question_marks fieldCount (Suc j) (q @ ''?'' @ (if int j < int fieldCount - 1 then '', '' else ''''))
      else q)"
  by pat_completeness auto
termination
  by (relation "measure (\<lambda>(fieldCount, j, q). fieldCount - j)") auto

declare question_marks.simps [simp del]

function question_rows :: "nat \<Rightarrow> nat \<Rightarrow> nat \<Rightarrow> string \<Rightarrow> string" where
  "question_rows rowCount fieldCount i s =
     (if i < rowCount
      then question_rows rowCount fieldCount (Suc i)
             (s @ ''('' @ question_marks fieldCount 0 '''' @ '')'' @ (if int i < int rowCount - 1 then '', '' else ''''))
      else s)"
  by pat_completeness auto
termination
  by (relation "measure (\<lambda>(rowCount, fieldCount, i, s). rowCount - i)") auto

declare question_rows.simps [simp del]

definition getQueryQuestionMark :: "nat \<Rightarrow> nat \<Rightarrow> string" where
  "getQueryQuestionMark rowCount fieldCount = question_rows rowCount fieldCount 0 ''''"

subsection \<open>Scanning rows\<close>

definition bytes_of :: "string \<Rightarrow> bytes" where
  "bytes_of s = map (\<lambda>c. word_of_nat (of_char c)) s"

definition string_of :: "bytes \<Rightarrow> string" where
  "string_of b = map (\<lambda>w. char_of (unat w)) b"

fun scan_bytes :: "sqlval list \<Rightarrow> bytes result" where
  "scan_bytes [VBytes b] = Inr b"
| "scan_bytes [VStr s] = Inr (bytes_of s)"
| "scan_bytes [VNull] = Inr []"
| "scan_bytes _ = Inl ''scan''"

fun scan_string :: "sqlval \<Rightarrow> string result" where
  "scan_string (VBytes b) = Inr (string_of b)"
| "scan_string (VStr s) = Inr s"
| "scan_string VNull = Inl ''scan''"

fun scan_strings :: "nat \<Rightarrow> sqlval list \<Rightarrow> string list result" where
  "scan_strings n row =
     (if length row \<noteq> n then Inl ''scan''
      else if \<exists>v \<in> set row. v = VNull then Inl ''scan''
      else Inr (map (\<lambda>v. projr (scan_string v)) row))"

text \<open>A loop \<open>for rows.Next()\<close> that collects one value per row and stops at the first error.\<close>

fun scan_all :: "('r \<Rightarrow> 'a result) \<Rightarrow> 'r list \<Rightarrow> 'a list result" where
  "scan_all f [] = Inr []"
| "scan_all f (r # rs) =
     (case f r of Inl e \<Rightarrow> Inl e | Inr x \<Rightarrow> map_sum id ((#) x) (scan_all f rs))"

subsection \<open>Operations\<close>

definition SavePreparams :: "libchain \<Rightarrow> 's driver \<Rightarrow> json \<Rightarrow> opaque option \<Rightarrow> 's \<Rightarrow> string option \<times> 's" where
  "SavePreparams lc drv js preparams d =
     (case js_Marshal js preparams of
        Inl err \<Rightarrow> (Some err, d)
      | Inr bz \<Rightarrow> sql_Exec drv ''INSERT INTO preparams (key_type, preparams) VALUES (?, ?)''
                    [VStr (KEY_TYPE_ECDSA lc), VBytes bz] d)"

definition LoadPreparams :: "libchain \<Rightarrow> 's driver \<Rightarrow> json \<Rightarrow> 's \<Rightarrow> opaque result" where
  "LoadPreparams lc drv js d =
     (case sql_Query drv ''SELECT preparams FROM preparams WHERE key_type=?'' [VStr (KEY_TYPE_ECDSA lc)] d of
        Inl err \<Rightarrow> Inl err
      | Inr [] \<Rightarrow> Inl ErrNotFound
      | Inr (row # _) \<Rightarrow>
          (case scan_bytes row of Inl err \<Rightarrow> Inl err | Inr bz \<Rightarrow> js_Unmarshal js bz))"

definition saveKeygen ::
  "'s driver \<Rightarrow> json \<Rightarrow> string \<Rightarrow> string \<Rightarrow> party list \<Rightarrow> opaque option \<Rightarrow> 's \<Rightarrow> string option \<times> 's" where
  "saveKeygen drv js keyType workId pids keygenOutput d =
     (case js_Marshal js keygenOutput of
        Inl err \<Rightarrow> (Some err, d)
      | Inr bz \<Rightarrow>
          sql_Exec drv ''INSERT INTO keygen (key_type, work_id, pids_string, keygen_output) VALUES (?, ?, ?, ?)''
            [VStr keyType, VStr workId, VStr (GetPidString pids), VBytes bz] d)"

definition SaveEcKeygen ::
  "'s driver \<Rightarrow> json \<Rightarrow> string \<Rightarrow> string \<Rightarrow> party list \<Rightarrow> opaque option \<Rightarrow> 's \<Rightarrow> string option \<times> 's" where
  "SaveEcKeygen drv js keyType workId pids keygenOutput d = saveKeygen drv js keyType workId pids keygenOutput d"

definition SaveEdKeygen ::
  "'s driver \<Rightarrow> json \<Rightarrow> string \<Rightarrow> string \<Rightarrow> party list \<Rightarrow> opaque option \<Rightarrow> 's \<Rightarrow> string option \<times> 's" where
  "SaveEdKeygen drv js keyType workId pids keygenOutput d = saveKeygen drv js keyType workId pids keygenOutput d"

text \<open>A missing row is not an error: \<open>nil, nil\<close>.\<close>

definition load_keygen :: "'s driver \<Rightarrow> json \<Rightarrow> string \<Rightarrow> 's \<Rightarrow> opaque option result" where
  "load_keygen drv js keyType d =
     (case sql_Query drv ''SELECT keygen_output FROM keygen WHERE key_type=?'' [VStr keyType] d of
        Inl err \<Rightarrow> Inl err
      | Inr [] \<Rightarrow> Inr None
      | Inr (row # _) \<Rightarrow>
          (case scan_bytes row of Inl err \<Rightarrow> Inl err | Inr bz \<Rightarrow> map_sum id Some (js_Unmarshal js bz)))"

definition LoadEcKeygen :: "'s driver \<Rightarrow> json \<Rightarrow> string \<Rightarrow> 's \<Rightarrow> opaque option result" where
  "LoadEcKeygen drv js keyType d = load_keygen drv js keyType d"

definition LoadEdKeygen :: "'s driver \<Rightarrow> json \<Rightarrow> string \<Rightarrow> 's \<Rightarrow> opaque option result" where
  "LoadEdKeygen drv js keyType d = load_keygen drv js keyType d"

definition presign_id :: "string \<Rightarrow> nat \<Rightarrow> string" where
  "presign_id workId i = workId @ ''-'' @ dec_of_nat i"

fun presign_params :: "json \<Rightarrow> string \<Rightarrow> string \<Rightarrow> nat \<Rightarrow> opaque option list \<Rightarrow> sqlval list result" where
  "presign_params js workId pidString i [] = Inr []"
| "presign_params js workId pidString i (output # outputs) =
     (case js_Marshal js output of
        Inl err \<Rightarrow> Inl err
      | Inr bz \<Rightarrow> map_sum id (\<lambda>rest. [VStr (presign_id workId i), VStr workId, VStr pidString,
                    VStr PresignStatusNotUsed, VBytes bz] @ rest)
                    (presign_params js workId pidString (Suc i) outputs))"

definition SavePresignData ::
  "'s driver \<Rightarrow> json \<Rightarrow> string \<Rightarrow> party list \<Rightarrow> opaque option list \<Rightarrow> 's \<Rightarrow> string option \<times> 's" where
  "SavePresignData drv js workId pids presignOutputs d =
     (if length presignOutputs = 0 then (None, d)
      else case presign_params js workId (GetPidString pids) 0 presignOutputs of
             Inl err \<Rightarrow> (Some err, d)
           | Inr params \<Rightarrow>
               sql_Exec drv (''INSERT INTO presign (presign_id, work_id, pids_string, status, presign_output) VALUES ''
                             @ getQueryQuestionMark (length presignOutputs) 5) params d)"

definition GetAvailablePresignShortForm :: "'s driver \<Rightarrow> 's \<Rightarrow> (string list \<times> string list) result" where
  "GetAvailablePresignShortForm drv d =
     (case sql_Query drv (''SELECT presign_id, pids_string FROM presign WHERE status='' @ [CHR 0x27] @
                          PresignStatusNotUsed @ [CHR 0x27]) [] d of
        Inl err \<Rightarrow> Inl err
      | Inr rows \<Rightarrow>
          map_sum id (\<lambda>ps. (map (\<lambda>p. p ! 0) ps, map (\<lambda>p. p ! 1) ps)) (scan_all (scan_strings 2) rows))"

definition DeletePresignWork :: "'s driver \<Rightarrow> string \<Rightarrow> 's \<Rightarrow> string option \<times> 's" where
  "DeletePresignWork drv workId d = sql_Exec drv ''DELETE FROM presign WHERE work_id = ?'' [VStr workId] d"

definition DeleteKeygenWork :: "'s driver \<Rightarrow> string \<Rightarrow> 's \<Rightarrow> string option \<times> 's" where
  "DeleteKeygenWork drv workId d = sql_Exec drv ''DELETE FROM keygen WHERE work_id = ?'' [VStr workId] d"

definition LoadPresign :: "'s driver \<Rightarrow> json \<Rightarrow> string list \<Rightarrow> 's \<Rightarrow> opaque list result" where
  "LoadPresign drv js presignIds d =
     (case sql_Query drv (''SELECT presign_output FROM presign WHERE presign_id IN '' @
             getQueryQuestionMark 1 (length presignIds) @ '' ORDER BY created_time DESC'') (map VStr presignIds) d of
        Inl err \<Rightarrow> Inl err
      | Inr rows \<Rightarrow> scan_all (\<lambda>row. case scan_bytes row of Inl err \<Rightarrow> Inl err | Inr bz \<Rightarrow> js_Unmarshal js bz) rows)"

definition LoadPresignStatus :: "'s driver \<Rightarrow> string list \<Rightarrow> 's \<Rightarrow> string list result" where
  "LoadPresignStatus drv presignIds d =
     (case sql_Query drv (''SELECT status FROM presign WHERE presign_id IN '' @
             getQueryQuestionMark 1 (length presignIds) @ '' ORDER BY created_time DESC'') (map VStr presignIds) d of
        Inl err \<Rightarrow> Inl err
      | Inr rows \<Rightarrow> map_sum id (map (\<lambda>p. p ! 0)) (scan_all (scan_strings 1) rows))"

definition UpdatePresignStatus :: "'s driver \<Rightarrow> string list \<Rightarrow> 's \<Rightarrow> string option \<times> 's" where
  "UpdatePresignStatus drv presignIds d =
     sql_Exec drv (''UPDATE presign SET status = ? WHERE presign_id IN '' @ getQueryQuestionMark 1 (length presignIds))
       (VStr PresignStatusUsed # map VStr presignIds) d"

text \<open>\<open>Exec(query)\<close> is called without the parameters of the peers.\<close>

definition SavePeers :: "'s driver \<Rightarrow> Peer list \<Rightarrow> 's \<Rightarrow> string option \<times> 's" where
  "SavePeers drv peers d =
     sql_Exec drv (''INSERT INTO peers (`address`, pubkey, pubkey_type) VALUES '' @
                   getQueryQuestionMark (length peers) 3) [] d"

definition null_string :: "sqlval \<Rightarrow> string" where
  "null_string v = (case v of VNull \<Rightarrow> '''' | VStr s \<Rightarrow> s | VBytes b \<Rightarrow> string_of b)"

text \<open>The key type is read from the public key column.\<close>

definition LoadPeers :: "'s driver \<Rightarrow> 's \<Rightarrow> Peer list" where
  "LoadPeers drv d =
     (case sql_Query drv ''SELECT `address`, pubkey, pubkey_type FROM peers'' [] d of
        Inl err \<Rightarrow> []
      | Inr rows \<Rightarrow>
          map (\<lambda>row. \<lparr>pr_Address = null_string (row ! 0), pr_PubKey = null_string (row ! 1),
                      pr_PubKeyType = null_string (row ! 1)\<rparr>) (filter (\<lambda>row. length row = 3) rows))"

definition SqlDatabase :: "libchain \<Rightarrow> 's driver \<Rightarrow> json \<Rightarrow> 's Database" where
  "SqlDatabase lc drv js =
     \<lparr>db_SavePreparams = SavePreparams lc drv js, db_LoadPreparams = LoadPreparams lc drv js,
      db_SaveEcKeygen = SaveEcKeygen drv js, db_LoadEcKeygen = LoadEcKeygen drv js,
      db_SaveEdKeygen = SaveEdKeygen drv js, db_LoadEdKeygen = LoadEdKeygen drv js,
      db_SavePresignData = SavePresignData drv js,
      db_GetAvailablePresignShortForm = GetAvailablePresignShortForm drv,
      db_LoadPresign = LoadPresign drv js, db_LoadPresignStatus = LoadPresignStatus drv,
      db_UpdatePresignStatus = UpdatePresignStatus drv, db_SavePeers = SavePeers drv,
      db_LoadPeers = LoadPeers drv\<rparr>"

subsection \<open>Placeholders and parameters\<close>

text \<open>
  \<open>database/sql\<close> counts the placeholders of a statement and refuses to run it with another number
  of parameters. \<open>strict drv\<close> is \<open>drv\<close> with that check in front.
\<close>

definition marks :: "string \<Rightarrow> nat" where
  "marks q = count_list q CHR ''?''"

definition strict :: "'s driver \<Rightarrow> 's driver" where
  "strict drv = drv\<lparr>
     sql_Exec := (\<lambda>q ps d. if marks q = length ps then sql_Exec drv q ps d
                           else (Some ''wrong number of arguments'', d)),
     sql_Query := (\<lambda>q ps d. if marks q = length ps then sql_Query drv q ps d
                            else Inl ''wrong number of arguments'')\<rparr>"

lemma marks_simps [simp]: "marks [] = 0" "marks (c # q) = (if c = CHR ''?'' then 1 else 0) + marks q"
  "marks (q @ q') = marks q + marks q'"
  by (auto simp: marks_def)

lemma marks_question_marks: "j \<le> f \<Longrightarrow> marks (question_marks f j q) = marks q + (f - j)"
proof (induction f j q rule: question_marks.induct)
  case (1 f j q)
  then show ?case by (subst question_marks.simps) (cases "j < f", auto)
qed

lemma marks_question_rows: "i \<le> r \<Longrightarrow> marks (question_rows r f i s) = marks s + (r - i) * f"
proof (induction r f i s rule: question_rows.induct)
  case (1 r f i s)
  show ?case
  proof (cases "i < r")
    case True
    then have "r - i = Suc (r - Suc i)" by simp
    with True 1 show ?thesis
      by (subst question_rows.simps) (auto simp: marks_question_marks)
  qed (use 1 in \<open>subst question_rows.simps, simp\<close>)
qed

lemma marks_getQueryQuestionMark [simp]: "marks (getQueryQuestionMark r f) = r * f"
  by (simp add: getQueryQuestionMark_def marks_question_rows)

lemma presign_params_length:
  "presign_params js workId pidString i outputs = Inr params \<Longrightarrow> length params = length outputs * 5"
  by (induction outputs arbitrary: i params) (auto split: sum.splits simp: map_sum_def)

lemma strict_sel [simp]:
  "sql_Exec (strict drv) q ps d = (if marks q = length ps then sql_Exec drv q ps d
                                   else (Some ''wrong number of arguments'', d))"
  "sql_Query (strict drv) q ps d = (if marks q = length ps then sql_Query drv q ps d
                                    else Inl ''wrong number of arguments'')"
  by (simp_all add: strict_def)

lemma strict_preparams:
  "SavePreparams lc (strict drv) js = SavePreparams lc drv js"
  "LoadPreparams lc (strict drv) js = LoadPreparams lc drv js"
  by (intro ext, simp add: SavePreparams_def LoadPreparams_def split: sum.split)+

lemma strict_keygen:
  "saveKeygen (strict drv) js = saveKeygen drv js"
  "load_keygen (strict drv) js = load_keygen drv js"
  by (intro ext, simp add: saveKeygen_def load_keygen_def split: sum.split)+

lemma strict_presign:
  "SavePresignData (strict drv) js = SavePresignData drv js"
  "GetAvailablePresignShortForm (strict drv) = GetAvailablePresignShortForm drv"
  "LoadPresign (strict drv) js = LoadPresign drv js"
  "LoadPresignStatus (strict drv) = LoadPresignStatus drv"
  "UpdatePresignStatus (strict drv) = UpdatePresignStatus drv"
  by (intro ext, auto simp: SavePresignData_def GetAvailablePresignShortForm_def LoadPresign_def
    LoadPresignStatus_def UpdatePresignStatus_def PresignStatusNotUsed_def
    dest: presign_params_length split: sum.split)+

text \<open>
  C38. The statements of the operations of the interface \<open>Database\<close>, except the one of \<open>SavePeers\<close>, and
  those of \<open>DeletePresignWork\<close> and \<open>DeleteKeygenWork\<close>, which are not part of it, have as many
  parameters as placeholders, for every driver: putting the driver's own argument count check in
  front changes none of these operations. (The statements that \<open>Connect\<close> and the migrations execute are
  passed without parameters and are not part of this.)
\<close>

theorem SqlDatabase_binds_every_placeholder:
  "SqlDatabase lc (strict drv) js = (SqlDatabase lc drv js)\<lparr>db_SavePeers := SavePeers (strict drv)\<rparr> \<and>
   DeletePresignWork (strict drv) = DeletePresignWork drv \<and> DeleteKeygenWork (strict drv) = DeleteKeygenWork drv"
proof (intro conjI)
  show "SqlDatabase lc (strict drv) js = (SqlDatabase lc drv js)\<lparr>db_SavePeers := SavePeers (strict drv)\<rparr>"
    unfolding SqlDatabase_def SaveEcKeygen_def [abs_def] SaveEdKeygen_def [abs_def] LoadEcKeygen_def [abs_def]
      LoadEdKeygen_def [abs_def]
    by (simp add: strict_preparams strict_keygen strict_presign LoadPeers_def fun_eq_iff)
  show "DeletePresignWork (strict drv) = DeletePresignWork drv" "DeleteKeygenWork (strict drv) = DeleteKeygenWork drv"
    by (simp_all add: DeletePresignWork_def DeleteKeygenWork_def fun_eq_iff)
qed

text \<open>
  \<open>SavePeers\<close> never saves a peer: its statement has three placeholders per peer and no
  parameter, so the driver refuses it and the database is unchanged.
\<close>

theorem SavePeers_never_saves:
  assumes "peers \<noteq> []"
  shows "SavePeers (strict drv) peers d = (Some ''wrong number of arguments'', d)"
  using assms by (simp add: SavePeers_def)

definition idle_driver :: "nat driver" where
  "idle_driver = \<lparr>sql_Exec = (\<lambda>q ps d. (None, Suc d)), sql_Query = (\<lambda>q ps d. Inr [])\<rparr>"

theorem SavePeers_never_saves_witness:
  "SavePeers (strict idle_driver) [\<lparr>pr_Address = ''a'', pr_PubKey = ''k'', pr_PubKeyType = ''secp256k1''\<rparr>] 0
     = (Some ''wrong number of arguments'', 0)"
  by (rule SavePeers_never_saves) simp

subsection \<open>The rows of a presign set\<close>

text \<open>The parameters of the multi-row insert, cut into the rows of five the statement groups them in.\<close>

fun rows_of :: "nat \<Rightarrow> 'a list \<Rightarrow> 'a list list" where
  "rows_of 0 ps = []"
| "rows_of (Suc n) ps = take 5 ps # rows_of n (drop 5 ps)"

lemma presign_id_inj: "presign_id w i = presign_id v j \<longleftrightarrow> w = v \<and> i = j"
  using last_separator [of w "CHR ''-''" "dec_of_nat i" v "dec_of_nat j"] dec_of_nat_inj
  by (auto simp: presign_id_def dec_of_nat_notin)

lemma presign_params_rows:
  assumes "\<forall>x \<in> set outputs. js_Marshal js x = Inr (enc x)"
  shows "\<exists>params. presign_params js workId pidString i outputs = Inr params \<and>
    rows_of (length outputs) params =
      map (\<lambda>j. [VStr (presign_id workId (i + j)), VStr workId, VStr pidString,
                VStr PresignStatusNotUsed, VBytes (enc (outputs ! j))]) [0..<length outputs]"
  using assms
proof (induction outputs arbitrary: i)
  case (Cons x outputs)
  obtain params where params: "presign_params js workId pidString (Suc i) outputs = Inr params"
    "rows_of (length outputs) params =
      map (\<lambda>j. [VStr (presign_id workId (Suc i + j)), VStr workId, VStr pidString,
                VStr PresignStatusNotUsed, VBytes (enc (outputs ! j))]) [0..<length outputs]"
    using Cons.IH [of "Suc i"] Cons.prems by auto
  have upt: "[0..<length (x # outputs)] = 0 # map Suc [0..<length outputs]"
    by (simp add: map_Suc_upt upt_conv_Cons del: upt_Suc)
  show ?case using params Cons.prems unfolding upt by simp
qed simp

text \<open>
  \<open>SavePresignData\<close> inserts one row per presign output, in order: the ids
  \<open>workId-0, workId-1, ...\<close> are pairwise distinct, each row carries the same work id and party list,
  the status \<open>not_used\<close> and the encoded output.
\<close>

theorem SavePresignData_rows:
  assumes "outputs \<noteq> []" and "\<forall>x \<in> set outputs. js_Marshal js x = Inr (enc x)"
  shows "\<exists>q params. SavePresignData drv js workId pids outputs d = sql_Exec drv q params d \<and>
    rows_of (length outputs) params =
      map (\<lambda>j. [VStr (presign_id workId j), VStr workId, VStr (GetPidString pids),
                VStr PresignStatusNotUsed, VBytes (enc (outputs ! j))]) [0..<length outputs] \<and>
    distinct (map hd (rows_of (length outputs) params))"
proof -
  obtain params where params: "presign_params js workId (GetPidString pids) 0 outputs = Inr params"
    "rows_of (length outputs) params =
      map (\<lambda>j. [VStr (presign_id workId (0 + j)), VStr workId, VStr (GetPidString pids),
                VStr PresignStatusNotUsed, VBytes (enc (outputs ! j))]) [0..<length outputs]"
    using presign_params_rows [OF assms(2)] by blast
  then have "distinct (map hd (rows_of (length outputs) params))"
    by (simp add: distinct_map inj_on_def presign_id_inj)
  moreover have "\<exists>q. SavePresignData drv js workId pids outputs d = sql_Exec drv q params d"
    using assms(1) params(1) by (auto simp: SavePresignData_def)
  ultimately show ?thesis using params(2) unfolding add_0 by blast
qed

definition unary_json :: json where
  "unary_json = \<lparr>js_Marshal = (\<lambda>x. Inr (case x of None \<Rightarrow> [0] | Some n \<Rightarrow> replicate n 1)), js_Unmarshal = (\<lambda>b. Inr (length b))\<rparr>"

theorem SavePresignData_rows_witness:
  "\<exists>q params. SavePresignData idle_driver unary_json ''w'' [] [Some 7, Some 9] 0 = sql_Exec idle_driver q params 0 \<and>
    rows_of (length [Some 7, Some (9 :: nat)]) params =
      map (\<lambda>j. [VStr (presign_id ''w'' j), VStr ''w'', VStr (GetPidString []),
                VStr PresignStatusNotUsed, VBytes (replicate (the ([Some 7, Some 9] ! j)) 1)]) [0..<length [Some 7, Some (9 :: nat)]] \<and>
    distinct (map hd (rows_of (length [Some 7, Some (9 :: nat)]) params))"
  by (rule SavePresignData_rows [where enc = "\<lambda>x. replicate (the x) 1"]) (simp_all add: unary_json_def)

end
