(* ===== verification/Message_Rounds.thy ===== *)
theory Message_Rounds
  imports Work_Request
begin

section \<open>Rounds and message types of the TSS protocols: core/message/tss\_phase\_messages.go\<close>

text \<open>
  The contents of a protocol message, one constructor per Go type the sources switch on. The
  registered name of a type, \<open>proto.MessageName\<close>, belongs to the protobuf runtime: it is the
  parameter \<open>pname\<close>. Protobuf registers each type under a name of its own, the hypothesis
  \<open>inj pname\<close> where it is needed.
\<close>

datatype MessageContent =
    EcKGRound1Message | EcKGRound2Message1 | EcKGRound2Message2 | EcKGRound3Message
  | EcSignRound1Message1 | EcSignRound1Message2 | EcSignRound2Message | EcSignRound3Message
  | EcSignRound4Message | EcSignRound5Message | EcSignRound6Message | EcSignRound7Message
  | EdKGRound1Message | EdKGRound2Message1 | EdKGRound2Message2
  | EdSignRound1Message | EdSignRound2Message | EdSignRound3Message
  | OtherContent nat

datatype Round =
    EcKeygen1 | EcKeygen2 | EcKeygen3
  | EcSigning1 | EcSigning2 | EcSigning3 | EcSigning4 | EcSigning5 | EcSigning6 | EcSigning7
  | EdKeygen1 | EdKeygen2 | EdSigning1 | EdSigning2 | EdSigning3

text \<open>The value of the Go constants: \<open>iota + 1\<close>.\<close>

fun Round_int :: "Round \<Rightarrow> nat" where
  "Round_int EcKeygen1 = 1"
| "Round_int EcKeygen2 = 2"
| "Round_int EcKeygen3 = 3"
| "Round_int EcSigning1 = 4"
| "Round_int EcSigning2 = 5"
| "Round_int EcSigning3 = 6"
| "Round_int EcSigning4 = 7"
| "Round_int EcSigning5 = 8"
| "Round_int EcSigning6 = 9"
| "Round_int EcSigning7 = 10"
| "Round_int EdKeygen1 = 11"
| "Round_int EdKeygen2 = 12"
| "Round_int EdSigning1 = 13"
| "Round_int EdSigning2 = 14"
| "Round_int EdSigning3 = 15"

fun GetMsgRound :: "MessageContent \<Rightarrow> Round result" where
  "GetMsgRound EcKGRound1Message = Inr EcKeygen1"
| "GetMsgRound EcKGRound2Message1 = Inr EcKeygen2"
| "GetMsgRound EcKGRound2Message2 = Inr EcKeygen2"
| "GetMsgRound EcKGRound3Message = Inr EcKeygen3"
| "GetMsgRound EcSignRound1Message1 = Inr EcSigning1"
| "GetMsgRound EcSignRound1Message2 = Inr EcSigning1"
| "GetMsgRound EcSignRound2Message = Inr EcSigning1"
| "GetMsgRound EcSignRound3Message = Inr EcSigning3"
| "GetMsgRound EcSignRound4Message = Inr EcSigning4"
| "GetMsgRound EcSignRound5Message = Inr EcSigning5"
| "GetMsgRound EcSignRound6Message = Inr EcSigning6"
| "GetMsgRound EcSignRound7Message = Inr EcSigning7"
| "GetMsgRound EdKGRound1Message = Inr EdKeygen1"
| "GetMsgRound EdKGRound2Message1 = Inr EcKeygen2"
| "GetMsgRound EdKGRound2Message2 = Inr EcKeygen2"
| "GetMsgRound EdSignRound1Message = Inr EdSigning1"
| "GetMsgRound EdSignRound2Message = Inr EdSigning2"
| "GetMsgRound EdSignRound3Message = Inr EdSigning3"
| "GetMsgRound (OtherContent k) = Inl ''unknown round''"

fun GetMessageCountByWorkType :: "WorkType \<Rightarrow> bool \<Rightarrow> nat" where
  "GetMessageCountByWorkType EcKeygen isPresign = 4"
| "GetMessageCountByWorkType EcSigning isPresign = (if isPresign then 1 else 7)"
| "GetMessageCountByWorkType EdKeygen isPresign = 3"
| "GetMessageCountByWorkType EdSigning isPresign = 3"
| "GetMessageCountByWorkType OtherWork isPresign = 0"

fun GetMessagesByWorkType :: "(MessageContent \<Rightarrow> string) \<Rightarrow> WorkType \<Rightarrow> string list" where
  "GetMessagesByWorkType pname EcKeygen =
     [pname EcKGRound1Message, pname EcKGRound2Message1, pname EcKGRound2Message2, pname EcKGRound3Message]"
| "GetMessagesByWorkType pname EcSigning =
     [pname EcSignRound1Message1, pname EcSignRound1Message2, pname EcSignRound2Message,
      pname EcSignRound3Message, pname EcSignRound4Message, pname EcSignRound5Message,
      pname EcSignRound6Message, pname EcSignRound7Message]"
| "GetMessagesByWorkType pname _ = []"

definition IsBroadcastMessage :: "(MessageContent \<Rightarrow> string) \<Rightarrow> string \<Rightarrow> bool" where
  "IsBroadcastMessage pname msgType \<longleftrightarrow>
     msgType \<in> set [pname EcKGRound1Message, pname EcKGRound2Message2, pname EcKGRound3Message,
       pname EcSignRound1Message2, pname EcSignRound3Message, pname EcSignRound4Message,
       pname EcSignRound5Message, pname EcSignRound6Message, pname EcSignRound7Message]"

subsection \<open>Laws\<close>

lemma Round_int_inj: "Round_int r = Round_int r' \<longleftrightarrow> r = r'"
  by (cases r; cases r') auto

lemma messages_distinct: "inj pname \<Longrightarrow> distinct (GetMessagesByWorkType pname w)"
  by (cases w) (auto dest: injD)

text \<open>The protocol round a content belongs to, by the name of its type.\<close>

fun own_round :: "MessageContent \<Rightarrow> Round option" where
  "own_round EcSignRound2Message = Some EcSigning2"
| "own_round EdKGRound2Message1 = Some EdKeygen2"
| "own_round EdKGRound2Message2 = Some EdKeygen2"
| "own_round c = (case GetMsgRound c of Inl _ \<Rightarrow> None | Inr r \<Rightarrow> Some r)"

lemma GetMsgRound_wrong:
  "own_round c \<noteq> (case GetMsgRound c of Inl _ \<Rightarrow> None | Inr r \<Rightarrow> Some r) \<longleftrightarrow>
   c \<in> {EcSignRound2Message, EdKGRound2Message1, EdKGRound2Message2}"
  by (cases c) auto

text \<open>No content at all is filed under the rounds \<open>EcSigning2\<close> and \<open>EdKeygen2\<close>.\<close>

lemma GetMsgRound_range: "GetMsgRound c \<noteq> Inr EcSigning2" "GetMsgRound c \<noteq> Inr EdKeygen2"
  by (cases c; simp)+

text \<open>A registry of names for evaluation: the position of the constructor in unary.\<close>

fun content_code :: "MessageContent \<Rightarrow> nat" where
  "content_code EcKGRound1Message = 0"
| "content_code EcKGRound2Message1 = 1"
| "content_code EcKGRound2Message2 = 2"
| "content_code EcKGRound3Message = 3"
| "content_code EcSignRound1Message1 = 4"
| "content_code EcSignRound1Message2 = 5"
| "content_code EcSignRound2Message = 6"
| "content_code EcSignRound3Message = 7"
| "content_code EcSignRound4Message = 8"
| "content_code EcSignRound5Message = 9"
| "content_code EcSignRound6Message = 10"
| "content_code EcSignRound7Message = 11"
| "content_code EdKGRound1Message = 12"
| "content_code EdKGRound2Message1 = 13"
| "content_code EdKGRound2Message2 = 14"
| "content_code EdSignRound1Message = 15"
| "content_code EdSignRound2Message = 16"
| "content_code EdSignRound3Message = 17"
| "content_code (OtherContent k) = 18 + k"

definition ref_pname :: "MessageContent \<Rightarrow> string" where
  "ref_pname c = dec_of_nat (content_code c)"

lemma ref_pname_inj: "inj ref_pname"
proof (rule injI)
  fix c c' assume "ref_pname c = ref_pname c'"
  then have "content_code c = content_code c'"
    by (auto simp: ref_pname_def dest: dec_of_nat_inj)
  then show "c = c'" by (cases c; cases c') auto
qed

text \<open>
  The broadcast types are classified by the name of the type alone: under a registry that
  gives every type its own name, \<open>IsBroadcastMessage\<close> holds of exactly nine types, and of the
  types a worker expects from its peers the others are the point-to-point ones of rounds 1 and 2.
\<close>

lemma IsBroadcastMessage_types:
  assumes "inj pname"
  shows "IsBroadcastMessage pname (pname c) \<longleftrightarrow>
      c \<in> {EcKGRound1Message, EcKGRound2Message2, EcKGRound3Message, EcSignRound1Message2,
           EcSignRound3Message, EcSignRound4Message, EcSignRound5Message, EcSignRound6Message,
           EcSignRound7Message}"
    and "pname c \<in> set (GetMessagesByWorkType pname w) \<Longrightarrow> \<not> IsBroadcastMessage pname (pname c) \<Longrightarrow>
      c \<in> {EcKGRound2Message1, EcSignRound1Message1, EcSignRound2Message}"
proof -
  have eq: "pname a = pname b \<longleftrightarrow> a = b" for a b using assms by (simp add: inj_eq)
  show "IsBroadcastMessage pname (pname c) \<longleftrightarrow>
      c \<in> {EcKGRound1Message, EcKGRound2Message2, EcKGRound3Message, EcSignRound1Message2,
           EcSignRound3Message, EcSignRound4Message, EcSignRound5Message, EcSignRound6Message,
           EcSignRound7Message}"
    by (simp add: IsBroadcastMessage_def eq)
  then show "c \<in> {EcKGRound2Message1, EcSignRound1Message1, EcSignRound2Message}"
    if "pname c \<in> set (GetMessagesByWorkType pname w)" "\<not> IsBroadcastMessage pname (pname c)"
    using that by (cases w) (auto simp: eq)
qed

end
