(* ===== verification/Message_Monitor.thy ===== *)
theory Message_Monitor
  imports Message_Rounds
begin

section \<open>The message monitor: worker/components/message\_monitor.go\<close>

text \<open>
  The monitor of a running job records which protocol messages every peer has sent, and when
  nothing has arrived for the timeout it computes which messages to ask for. The loops over
  Go maps take their iteration orders as arguments. Instants and durations are integers; the
  zero \<open>time.Time\<close> is 0.
\<close>

record DefaultMessageMonitor =
  mm_jobType :: WorkType
  mm_stopped :: bool
  mm_timeout :: int
  mm_pIDsMap :: "(string, party) gmap"
  mm_receivedMessages :: "(string, bool list) gmap"
  mm_mypid :: party
  mm_lastReceivedTime :: int
  mm_allMessages :: "string list"

definition NewMessageMonitor ::
  "(MessageContent \<Rightarrow> string) \<Rightarrow> party \<Rightarrow> WorkType \<Rightarrow> (string, party) gmap \<Rightarrow> int \<Rightarrow> DefaultMessageMonitor" where
  "NewMessageMonitor pname mypid jobType pIDsMap timeout =
     \<lparr>mm_jobType = jobType, mm_stopped = False, mm_timeout = timeout, mm_pIDsMap = pIDsMap,
      mm_receivedMessages =
        map (\<lambda>(pid, _). (pid, replicate (length (GetMessagesByWorkType pname jobType)) False)) pIDsMap,
      mm_mypid = mypid, mm_lastReceivedTime = 0,
      mm_allMessages = GetMessagesByWorkType pname jobType\<rparr>"

definition monitor_Stop :: "DefaultMessageMonitor \<Rightarrow> DefaultMessageMonitor" where
  "monitor_Stop m = m\<lparr>mm_stopped := True\<rparr>"

fun mark_first :: "string \<Rightarrow> string list \<Rightarrow> nat \<Rightarrow> bool list \<Rightarrow> bool list go" where
  "mark_first ty [] i arr = Ret arr"
| "mark_first ty (s # ss) i arr =
     (if s = ty then (if i < length arr then Ret (arr[i := True]) else Panic IndexOutOfRange)
      else mark_first ty ss (Suc i) arr)"

text \<open>\<open>sender\<close> is \<open>msg.GetFrom().Id\<close>, \<open>ty\<close> is \<open>msg.Type()\<close>.\<close>

definition NewMessageReceived ::
  "string \<Rightarrow> string \<Rightarrow> int \<Rightarrow> DefaultMessageMonitor \<Rightarrow> DefaultMessageMonitor go" where
  "NewMessageReceived sender ty now m =
     (case gget (mm_receivedMessages m) sender of
        None \<Rightarrow> Ret m
      | Some receivedArr \<Rightarrow>
          go_bind (mark_first ty (mm_allMessages m) 0 receivedArr)
            (\<lambda>arr. Ret (m\<lparr>mm_lastReceivedTime := now,
                          mm_receivedMessages := gput sender arr (mm_receivedMessages m)\<rparr>)))"

subsection \<open>Finding the missing messages\<close>

definition row_of :: "DefaultMessageMonitor \<Rightarrow> string \<Rightarrow> bool list" where
  "row_of m pid = (case gget (mm_receivedMessages m) pid of None \<Rightarrow> [] | Some r \<Rightarrow> r)"

fun row_max :: "bool list \<Rightarrow> nat list \<Rightarrow> int \<Rightarrow> int go" where
  "row_max r [] mx = Ret mx"
| "row_max r (i # is) mx =
     go_bind (go_index r i) (\<lambda>b. row_max r is (if b \<and> mx < int i then int i else mx))"

fun max_index :: "DefaultMessageMonitor \<Rightarrow> (string \<times> party) list \<Rightarrow> int \<Rightarrow> int go" where
  "max_index m [] mx = Ret mx"
| "max_index m ((pid, _) # it) mx =
     (if pid = p_Id (mm_mypid m) then max_index m it mx
      else go_bind (row_max (row_of m pid) [0..<length (mm_allMessages m)] mx) (max_index m it))"

fun row_missing :: "bool list \<Rightarrow> int \<Rightarrow> (nat \<times> string) list \<Rightarrow> string list go" where
  "row_missing r mx [] = Ret []"
| "row_missing r mx ((i, s) # is) =
     (if int i \<le> mx
      then go_bind (go_index r i) (\<lambda>b. go_bind (row_missing r mx is) (\<lambda>ss. Ret (if b then ss else s # ss)))
      else row_missing r mx is)"

fun missing_pids ::
  "DefaultMessageMonitor \<Rightarrow> int \<Rightarrow> (string \<times> party) list \<Rightarrow> (string, string list) gmap \<Rightarrow>
   (string, string list) gmap go" where
  "missing_pids m mx [] acc = Ret acc"
| "missing_pids m mx ((pid, _) # it) acc =
     (if pid = p_Id (mm_mypid m) then missing_pids m mx it acc
      else go_bind (row_missing (row_of m pid) mx (enumerate 0 (mm_allMessages m)))
             (\<lambda>missingMsgs. missing_pids m mx it
               (if length missingMsgs > 0 then gput pid missingMsgs acc else acc)))"

fun next_pids ::
  "DefaultMessageMonitor \<Rightarrow> nat \<Rightarrow> (string \<times> party) list \<Rightarrow> (string, string list) gmap \<Rightarrow>
   (string, string list) gmap" where
  "next_pids m k [] acc = acc"
| "next_pids m k ((pid, _) # it) acc =
     next_pids m k it (if pid = p_Id (mm_mypid m) then acc else gput pid [mm_allMessages m ! k] acc)"

text \<open>
  The argument of the callback; the callback is called when it is not empty. \<open>maxIndex\<close> stays
  below the number of messages in the third loop, whose index expression therefore cannot panic.
\<close>

definition findMissingMessages ::
  "(string \<times> party) list \<Rightarrow> (string \<times> party) list \<Rightarrow> (string \<times> party) list \<Rightarrow> DefaultMessageMonitor \<Rightarrow>
   (string, string list) gmap go" where
  "findMissingMessages it1 it2 it3 m =
     go_bind (max_index m it1 (-1)) (\<lambda>maxIndex.
     go_bind (missing_pids m maxIndex it2 []) (\<lambda>missingPids.
     Ret (if length missingPids = 0 \<and> maxIndex < int (length (mm_allMessages m)) - 1
          then next_pids m (nat (maxIndex + 1)) it3 missingPids
          else missingPids)))"

text \<open>One expiry of the timer in \<open>Start\<close>: leave the loop, wait again, or look for missing messages.\<close>

datatype tick = LoopEnds | WaitAgain | Detected "(string, string list) gmap"

definition monitor_tick ::
  "(string \<times> party) list \<Rightarrow> (string \<times> party) list \<Rightarrow> (string \<times> party) list \<Rightarrow> int \<Rightarrow> DefaultMessageMonitor \<Rightarrow>
   tick go" where
  "monitor_tick it1 it2 it3 now m =
     (if mm_stopped m then Ret LoopEnds
      else if mm_lastReceivedTime m + mm_timeout m > now then Ret WaitAgain
      else go_bind (findMissingMessages it1 it2 it3 m)
             (\<lambda>missing. Ret (if length missing > 0 then Detected missing else WaitAgain)))"

subsection \<open>Well-formed monitors\<close>

text \<open>Every monitored peer has one flag per expected message.\<close>

definition mm_ok :: "DefaultMessageMonitor \<Rightarrow> bool" where
  "mm_ok m \<longleftrightarrow> gmap_ok (mm_pIDsMap m) \<and>
     (\<forall>(pid, _) \<in> set (mm_pIDsMap m). gget (mm_receivedMessages m) pid \<noteq> None) \<and>
     (\<forall>(pid, r) \<in> set (mm_receivedMessages m). length r = length (mm_allMessages m))"

definition peers_of :: "DefaultMessageMonitor \<Rightarrow> string set" where
  "peers_of m = gkeys (mm_pIDsMap m) - {p_Id (mm_mypid m)}"

lemma row_of_length: "mm_ok m \<Longrightarrow> pid \<in> gkeys (mm_pIDsMap m) \<Longrightarrow> length (row_of m pid) = length (mm_allMessages m)"
  by (fastforce simp: mm_ok_def row_of_def gkeys_def split: option.splits dest: gget_in_set)

lemma NewMessageMonitor_ok:
  assumes "gmap_ok pIDsMap"
  shows "mm_ok (NewMessageMonitor pname mypid jobType pIDsMap timeout)"
proof -
  let ?r = "replicate (length (GetMessagesByWorkType pname jobType)) False"
  have "gget (map (\<lambda>(pid, _). (pid, ?r)) pIDsMap) pid \<noteq> None" if "(pid, p) \<in> set pIDsMap" for pid p
    using that by (auto simp: gget_None_iff gkeys_def image_image case_prod_unfold intro: rev_image_eqI)
  then show ?thesis using assms by (auto simp: mm_ok_def NewMessageMonitor_def)
qed

lemma new_row:
  assumes "pid \<in> gkeys pIDsMap" and "i < length (GetMessagesByWorkType pname jobType)"
  shows "\<not> row_of (NewMessageMonitor pname mypid jobType pIDsMap timeout) pid ! i"
proof -
  have "gget (map (\<lambda>(pid, _). (pid, r)) xs) pid = (if pid \<in> gkeys xs then Some r else None)"
    for xs :: "(string, party) gmap" and r :: "bool list"
    by (induction xs) (auto simp: gget_def gkeys_def)
  then show ?thesis using assms by (simp add: row_of_def NewMessageMonitor_def)
qed

lemma mark_first_length:
  "length ss + i \<le> length arr \<Longrightarrow>
   \<exists>arr'. mark_first ty ss i arr = Ret arr' \<and> length arr' = length arr"
  by (induction ty ss i arr rule: mark_first.induct) auto

lemma mark_first_nth:
  "length ss + i \<le> length arr \<Longrightarrow> distinct ss \<Longrightarrow>
   mark_first ty ss i arr = Ret (map (\<lambda>j. arr ! j \<or> (i \<le> j \<and> j < i + length ss \<and> ss ! (j - i) = ty)) [0..<length arr])"
proof (induction ty ss i arr rule: mark_first.induct)
  case (1 ty i arr)
  show ?case by (rule ssubst [where P = "\<lambda>x. _ = Ret x"], rule nth_equalityI [of _ arr]) auto
next
  case (2 ty s ss i arr)
  show ?case
  proof (cases "s = ty")
    case True
    have "arr[i := True] = map (\<lambda>j. arr ! j \<or> (i \<le> j \<and> j < i + length (s # ss) \<and> (s # ss) ! (j - i) = ty)) [0..<length arr]"
    proof (rule nth_equalityI)
      fix j assume "j < length (arr[i := True])"
      moreover have "(i \<le> j \<and> j < i + length (s # ss) \<and> (s # ss) ! (j - i) = ty) \<longleftrightarrow> j = i"
        using "2.prems"(2) True by (auto simp: nth_Cons' set_conv_nth)
      ultimately show "arr[i := True] ! j = map (\<lambda>j. arr ! j \<or> (i \<le> j \<and> j < i + length (s # ss) \<and> (s # ss) ! (j - i) = ty)) [0..<length arr] ! j"
        by (auto simp: nth_list_update)
    qed simp
    then show ?thesis using True "2.prems" by simp
  next
    case False
    have "(Suc i \<le> j \<and> j < Suc i + length ss \<and> ss ! (j - Suc i) = ty) \<longleftrightarrow>
          (i \<le> j \<and> j < i + length (s # ss) \<and> (s # ss) ! (j - i) = ty)" for j
      using False by (cases "j = i") (auto simp: nth_Cons' Suc_diff_Suc le_Suc_eq)
    then show ?thesis using False "2.IH" "2.prems" by (simp del: length_Cons)
  qed
qed

subsection \<open>What the search returns\<close>

text \<open>The expected messages up to index \<open>k\<close> that the peer has not sent.\<close>

definition missing_upto :: "DefaultMessageMonitor \<Rightarrow> int \<Rightarrow> string \<Rightarrow> string list" where
  "missing_upto m k pid =
     map (\<lambda>i. mm_allMessages m ! i)
       (filter (\<lambda>i. int i \<le> k \<and> \<not> row_of m pid ! i) [0..<length (mm_allMessages m)])"

text \<open>The index of the latest expected message some peer has sent, -1 when there is none.\<close>

definition latest :: "DefaultMessageMonitor \<Rightarrow> int" where
  "latest m = Max (insert (-1) {int i |i pid. pid \<in> peers_of m \<and> i < length (mm_allMessages m) \<and> row_of m pid ! i})"

lemma row_max_spec:
  "\<forall>i \<in> set is. i < length r \<Longrightarrow> row_max r is mx = Ret (fold max (map int (filter ((!) r) is)) mx)"
  by (induction r "is" mx rule: row_max.induct) (auto simp: go_simps max_def)

lemma row_missing_spec:
  "\<forall>(i, s) \<in> set is. i < length r \<Longrightarrow>
   row_missing r mx is = Ret (map snd (filter (\<lambda>(i, s). int i \<le> mx \<and> \<not> r ! i) is))"
  by (induction r mx "is" rule: row_missing.induct) (auto simp: go_simps)

lemma row_missing_row:
  assumes "mm_ok m" and "pid \<in> gkeys (mm_pIDsMap m)"
  shows "row_missing (row_of m pid) mx (enumerate 0 (mm_allMessages m)) = Ret (missing_upto m mx pid)"
proof -
  have "filter (\<lambda>(i, s). P i) (enumerate 0 xs) = map (\<lambda>i. (i, xs ! i)) (filter P [0..<length xs])"
    for P and xs :: "string list"
  proof -
    have "enumerate 0 xs = map (\<lambda>i. (i, xs ! i)) [0..<length xs]"
      by (rule nth_equalityI) (simp_all add: nth_enumerate_eq)
    then show ?thesis by (simp add: filter_map comp_def)
  qed
  then show ?thesis
    using assms
    by (subst row_missing_spec) (auto simp: row_of_length missing_upto_def in_set_enumerate_eq comp_def)
qed

lemma max_index_spec:
  assumes "mm_ok m"
  shows "gkeys it \<subseteq> gkeys (mm_pIDsMap m) \<Longrightarrow>
    max_index m it mx = Ret (fold max (concat (map (\<lambda>e. if fst e = p_Id (mm_mypid m) then []
      else map int (filter ((!) (row_of m (fst e))) [0..<length (mm_allMessages m)])) it)) mx)"
  using assms
proof (induction m it mx rule: max_index.induct)
  case (2 m pid p it mx)
  have "pid \<in> gkeys (mm_pIDsMap m)" using "2.prems" by (auto simp: gkeys_def)
  then have "row_max (row_of m pid) [0..<length (mm_allMessages m)] mx =
      Ret (fold max (map int (filter ((!) (row_of m pid)) [0..<length (mm_allMessages m)])) mx)"
    using "2.prems" by (simp add: row_max_spec row_of_length)
  with 2 show ?case by (auto simp: gkeys_def)
qed simp

lemma max_index_latest:
  assumes "mm_ok m" and "ranges (mm_pIDsMap m) it"
  shows "max_index m it (-1) = Ret (latest m)"
proof -
  let ?n = "length (mm_allMessages m)"
  let ?xs = "concat (map (\<lambda>e. if fst e = p_Id (mm_mypid m) then []
      else map int (filter ((!) (row_of m (fst e))) [0..<?n])) it)"
  have "set ?xs = {int i |i pid. pid \<in> peers_of m \<and> i < ?n \<and> row_of m pid ! i}"
  proof -
    have "set ?xs = (\<Union>pid \<in> gkeys it. if pid = p_Id (mm_mypid m) then {}
        else int ` {i. i < ?n \<and> row_of m pid ! i})"
      by (auto simp: gkeys_def)
    then show ?thesis
      unfolding peers_of_def ranges_keys [OF assms(2)] by auto
  qed
  then have "fold max ?xs (-1) = latest m"
    unfolding latest_def using Max.set_eq_fold [of "-1" ?xs] by (simp only: list.set(2))
  then show ?thesis using max_index_spec [OF assms(1)] ranges_keys [OF assms(2)] by simp
qed

lemma latest_bounds:
  shows latest_ge: "-1 \<le> latest m"
    and latest_lt: "latest m < int (length (mm_allMessages m))"
    and latest_max: "pid \<in> peers_of m \<Longrightarrow> i < length (mm_allMessages m) \<Longrightarrow> row_of m pid ! i \<Longrightarrow> int i \<le> latest m"
proof -
  let ?S = "{int i |i pid. pid \<in> peers_of m \<and> i < length (mm_allMessages m) \<and> row_of m pid ! i}"
  have fin: "finite ?S" by (rule finite_subset [of _ "int ` {..<length (mm_allMessages m)}"]) auto
  then show "-1 \<le> latest m" by (simp add: latest_def)
  show "latest m < int (length (mm_allMessages m))"
    unfolding latest_def using fin by (subst Max_less_iff) auto
  show "int i \<le> latest m" if "pid \<in> peers_of m" "i < length (mm_allMessages m)" "row_of m pid ! i"
    unfolding latest_def using that fin by (intro Max_ge) auto
qed

lemma missing_pids_spec:
  assumes "mm_ok m"
  shows "gkeys it \<subseteq> gkeys (mm_pIDsMap m) \<Longrightarrow>
    \<exists>r. missing_pids m mx it acc = Ret r \<and> (\<forall>pid. gget r pid =
      (if pid \<in> gkeys it - {p_Id (mm_mypid m)} \<and> missing_upto m mx pid \<noteq> []
       then Some (missing_upto m mx pid) else gget acc pid))"
  using assms
proof (induction m mx it acc rule: missing_pids.induct)
  case (2 m mx pid p it acc)
  then have sub: "gkeys it \<subseteq> gkeys (mm_pIDsMap m)" "pid \<in> gkeys (mm_pIDsMap m)"
    by (auto simp: gkeys_def)
  show ?case
  proof (cases "pid = p_Id (mm_mypid m)")
    case True
    then show ?thesis using "2.IH"(1) sub "2.prems" by (auto simp: gkeys_def)
  next
    case False
    show ?thesis
      using "2.IH"(2) [OF False, of "missing_upto m mx pid"] False sub "2.prems"
      by (auto simp: row_missing_row gkeys_def)
  qed
qed simp

lemma next_pids_spec:
  "gget (next_pids m k it acc) pid =
     (if pid \<in> gkeys it - {p_Id (mm_mypid m)} then Some [mm_allMessages m ! k] else gget acc pid)"
  by (induction m k it acc rule: next_pids.induct) (auto simp: gkeys_def)

text \<open>
  The index up to which messages are asked for: the latest one seen, or the next one when every
  peer has sent all up to there.
\<close>

definition asked :: "DefaultMessageMonitor \<Rightarrow> int" where
  "asked m = (if \<forall>pid \<in> peers_of m. missing_upto m (latest m) pid = [] then latest m + 1 else latest m)"

lemma missing_next:
  assumes "missing_upto m (latest m) pid = []" and "pid \<in> peers_of m"
  shows "missing_upto m (latest m + 1) pid =
    (if latest m < int (length (mm_allMessages m)) - 1 then [mm_allMessages m ! nat (latest m + 1)] else [])"
proof -
  let ?n = "length (mm_allMessages m)"
  have "filter (\<lambda>i. int i \<le> latest m + 1 \<and> \<not> row_of m pid ! i) [0..<?n] =
        filter (\<lambda>i. i = nat (latest m + 1)) [0..<?n]"
  proof (rule filter_cong [OF refl])
    fix i assume "i \<in> set [0..<?n]"
    moreover have "int i \<le> latest m \<longrightarrow> row_of m pid ! i" if "i < ?n"
      using assms(1) that by (auto simp: missing_upto_def filter_empty_conv)
    ultimately show "(int i \<le> latest m + 1 \<and> \<not> row_of m pid ! i) = (i = nat (latest m + 1))"
      using latest_max [OF assms(2), of i] latest_ge [of m] by auto
  qed
  moreover have "filter (\<lambda>i. i = k) [0..<n] = (if k < n then [k] else [])" for k n :: nat
    by (induction n) auto
  ultimately show ?thesis using latest_ge [of m] by (auto simp: missing_upto_def)
qed

lemma missing_exact:
  assumes "mm_ok m" and "ranges (mm_pIDsMap m) it1" and "ranges (mm_pIDsMap m) it2" and "ranges (mm_pIDsMap m) it3"
  shows "\<exists>r. findMissingMessages it1 it2 it3 m = Ret r \<and>
    (\<forall>pid. gget r pid = (if pid \<in> peers_of m \<and> missing_upto m (asked m) pid \<noteq> []
                         then Some (missing_upto m (asked m) pid) else None))"
proof -
  obtain r where r: "missing_pids m (latest m) it2 [] = Ret r"
    and r_get: "\<And>pid. gget r pid = (if pid \<in> peers_of m \<and> missing_upto m (latest m) pid \<noteq> []
                                   then Some (missing_upto m (latest m) pid) else None)"
    using missing_pids_spec [OF assms(1), of it2 "latest m" "[]"] ranges_keys [OF assms(3)]
    by (auto simp: peers_of_def)
  have empty: "length r = 0 \<longleftrightarrow> (\<forall>pid \<in> peers_of m. missing_upto m (latest m) pid = [])"
    using gmap_empty_iff [of r] r_get by (auto split: if_splits)
  let ?k = "nat (latest m + 1)"
  have run: "findMissingMessages it1 it2 it3 m =
      Ret (if length r = 0 \<and> latest m < int (length (mm_allMessages m)) - 1 then next_pids m ?k it3 r else r)"
    by (simp add: findMissingMessages_def max_index_latest [OF assms(1,2)] r)
  show ?thesis
  proof (cases "length r = 0 \<and> latest m < int (length (mm_allMessages m)) - 1")
    case True
    then have "asked m = latest m + 1" and "r = []" using empty by (auto simp: asked_def)
    then show ?thesis
      using run True empty missing_next [of m] ranges_keys [OF assms(4)]
      by (auto simp: next_pids_spec peers_of_def)
  next
    case False
    then have "missing_upto m (asked m) pid = missing_upto m (latest m) pid" if "pid \<in> peers_of m" for pid
      using empty missing_next [OF _ that] that by (auto simp: asked_def)
    then show ?thesis using run False r_get by auto
  qed
qed

lemma missing_all:
  assumes "\<forall>pid \<in> peers_of m. missing_upto m (asked m) pid = []" and "pid \<in> peers_of m"
    and "i < length (mm_allMessages m)"
  shows "row_of m pid ! i"
proof -
  have asked: "asked m = latest m + 1" and none: "missing_upto m (latest m) pid = []"
    using assms(1,2) by (auto simp: asked_def split: if_splits)
  have "missing_upto m (latest m + 1) pid = []" using assms(1,2) asked by simp
  then have "\<not> latest m < int (length (mm_allMessages m)) - 1"
    using missing_next [OF none assms(2)] by (simp split: if_splits)
  then have "int i \<le> latest m" using assms(3) by linarith
  then show ?thesis using none assms(3) by (auto simp: missing_upto_def filter_empty_conv)
qed

text \<open>
  C31. Whatever the order of the three map loops, the search for missing messages never panics and
  returns exactly this: for every peer other than the node itself, the expected messages up to
  index \<open>asked\<close> it has not sent, in protocol order, and no entry for a peer that misses none.
\<close>

theorem findMissingMessages_exact:
  assumes "mm_ok m" and "ranges (mm_pIDsMap m) it1" and "ranges (mm_pIDsMap m) it2" and "ranges (mm_pIDsMap m) it3"
  shows "\<exists>r. findMissingMessages it1 it2 it3 m = Ret r \<and>
    (\<forall>pid. gget r pid = (if pid \<in> peers_of m \<and> missing_upto m (asked m) pid \<noteq> []
                         then Some (missing_upto m (asked m) pid) else None))"
  using assms by (rule missing_exact)

lemma missing_empty_iff:
  assumes "mm_ok m" and "ranges (mm_pIDsMap m) it1" and "ranges (mm_pIDsMap m) it2" and "ranges (mm_pIDsMap m) it3"
  shows "findMissingMessages it1 it2 it3 m = Ret [] \<longleftrightarrow>
    (\<forall>pid \<in> peers_of m. \<forall>i < length (mm_allMessages m). row_of m pid ! i)"
proof -
  obtain r where r: "findMissingMessages it1 it2 it3 m = Ret r"
    and r_get: "\<And>pid. gget r pid = (if pid \<in> peers_of m \<and> missing_upto m (asked m) pid \<noteq> []
                                   then Some (missing_upto m (asked m) pid) else None)"
    using missing_exact [OF assms] by blast
  have "r = [] \<longleftrightarrow> (\<forall>pid \<in> peers_of m. missing_upto m (asked m) pid = [])"
    using gmap_empty_iff [of r] r_get by (auto split: if_splits)
  also have "\<dots> \<longleftrightarrow> (\<forall>pid \<in> peers_of m. \<forall>i < length (mm_allMessages m). row_of m pid ! i)"
  proof
    assume "\<forall>pid \<in> peers_of m. missing_upto m (asked m) pid = []"
    then show "\<forall>pid \<in> peers_of m. \<forall>i < length (mm_allMessages m). row_of m pid ! i"
      using missing_all by blast
  qed (auto simp: missing_upto_def filter_empty_conv)
  finally show ?thesis using r by simp
qed

subsection \<open>From the messages received to the messages asked for\<close>

text \<open>The deliveries of a job, in order: sender, type and instant.\<close>

fun receive_all :: "(string \<times> string \<times> int) list \<Rightarrow> DefaultMessageMonitor \<Rightarrow> DefaultMessageMonitor go" where
  "receive_all [] m = Ret m"
| "receive_all ((sender, ty, now) # evs) m = go_bind (NewMessageReceived sender ty now m) (receive_all evs)"

lemma NewMessageReceived_step:
  assumes "mm_ok m" and "distinct (mm_allMessages m)"
  shows "\<exists>m'. NewMessageReceived sender ty now m = Ret m' \<and> mm_ok m' \<and>
    mm_pIDsMap m' = mm_pIDsMap m \<and> mm_mypid m' = mm_mypid m \<and> mm_allMessages m' = mm_allMessages m \<and>
    (\<forall>pid \<in> gkeys (mm_pIDsMap m). \<forall>i < length (mm_allMessages m).
       row_of m' pid ! i \<longleftrightarrow> row_of m pid ! i \<or> (sender = pid \<and> mm_allMessages m ! i = ty))"
proof (cases "gget (mm_receivedMessages m) sender")
  case None
  then have "sender \<notin> gkeys (mm_pIDsMap m)" using assms(1) by (auto simp: mm_ok_def gkeys_def)
  then show ?thesis using None assms(1) by (auto simp: NewMessageReceived_def)
next
  case (Some arr)
  have len: "length arr = length (mm_allMessages m)"
    using assms(1) gget_in_set [OF Some] by (auto simp: mm_ok_def)
  obtain arr' where arr': "mark_first ty (mm_allMessages m) 0 arr = Ret arr'" "length arr' = length arr"
    "\<And>j. j < length arr \<Longrightarrow> arr' ! j \<longleftrightarrow> arr ! j \<or> mm_allMessages m ! j = ty"
    using mark_first_nth [of "mm_allMessages m" 0 arr ty] assms(2) len by auto
  let ?m = "m\<lparr>mm_lastReceivedTime := now, mm_receivedMessages := gput sender arr' (mm_receivedMessages m)\<rparr>"
  have "NewMessageReceived sender ty now m = Ret ?m"
    using Some arr'(1) by (simp add: NewMessageReceived_def)
  moreover have "length r = length (mm_allMessages m)"
    if "(pid, r) \<in> set (gput sender arr' (mm_receivedMessages m))" for pid r
    using in_set_gput [OF that] assms(1) len arr'(2) by (auto simp: mm_ok_def)
  then have "mm_ok ?m" using assms(1) by (auto simp: mm_ok_def)
  ultimately show ?thesis
    using Some len arr'(2,3) by (auto simp: row_of_def)
qed

lemma receive_all_rows:
  assumes "mm_ok m" and "distinct (mm_allMessages m)"
  shows "\<exists>m'. receive_all evs m = Ret m' \<and> mm_ok m' \<and>
    mm_pIDsMap m' = mm_pIDsMap m \<and> mm_mypid m' = mm_mypid m \<and> mm_allMessages m' = mm_allMessages m \<and>
    (\<forall>pid \<in> gkeys (mm_pIDsMap m). \<forall>i < length (mm_allMessages m).
       row_of m' pid ! i \<longleftrightarrow> row_of m pid ! i \<or> (\<exists>now. (pid, mm_allMessages m ! i, now) \<in> set evs))"
  using assms
proof (induction evs m rule: receive_all.induct)
  case (2 sender ty now evs m)
  obtain m1 where m1: "NewMessageReceived sender ty now m = Ret m1" "mm_ok m1"
    "mm_pIDsMap m1 = mm_pIDsMap m" "mm_mypid m1 = mm_mypid m" "mm_allMessages m1 = mm_allMessages m"
    "\<forall>pid \<in> gkeys (mm_pIDsMap m). \<forall>i < length (mm_allMessages m).
       row_of m1 pid ! i \<longleftrightarrow> row_of m pid ! i \<or> (sender = pid \<and> mm_allMessages m ! i = ty)"
    using NewMessageReceived_step [OF "2.prems"] by blast
  obtain m2 where "receive_all evs m1 = Ret m2" "mm_ok m2"
    "mm_pIDsMap m2 = mm_pIDsMap m" "mm_mypid m2 = mm_mypid m" "mm_allMessages m2 = mm_allMessages m"
    "\<forall>pid \<in> gkeys (mm_pIDsMap m). \<forall>i < length (mm_allMessages m).
       row_of m2 pid ! i \<longleftrightarrow> row_of m1 pid ! i \<or> (\<exists>now. (pid, mm_allMessages m ! i, now) \<in> set evs)"
    using "2.IH" [of m1] m1 "2.prems" by auto
  then show ?case using m1 by auto
qed simp

text \<open>
  C32. The monitor of a job asks for something exactly as long as something is missing. After
  any sequence of deliveries to a new monitor the search returns the empty map, and the callback
  is not called, if and only if every other party of the job has sent every expected type.
\<close>

theorem monitor_silent_iff_complete:
  assumes "gmap_ok pIDsMap" and "inj pname"
    and "ranges pIDsMap it1" and "ranges pIDsMap it2" and "ranges pIDsMap it3"
  shows "\<exists>m. receive_all evs (NewMessageMonitor pname mypid jobType pIDsMap timeout) = Ret m \<and>
    (findMissingMessages it1 it2 it3 m = Ret [] \<longleftrightarrow>
      (\<forall>pid \<in> gkeys pIDsMap - {p_Id mypid}. \<forall>ty \<in> set (GetMessagesByWorkType pname jobType).
        \<exists>now. (pid, ty, now) \<in> set evs))"
proof -
  let ?m0 = "NewMessageMonitor pname mypid jobType pIDsMap timeout"
  have sel: "mm_allMessages ?m0 = GetMessagesByWorkType pname jobType" "mm_pIDsMap ?m0 = pIDsMap"
    "mm_mypid ?m0 = mypid"
    by (simp_all add: NewMessageMonitor_def)
  obtain m where m: "receive_all evs ?m0 = Ret m" "mm_ok m" "mm_pIDsMap m = pIDsMap" "mm_mypid m = mypid"
    "mm_allMessages m = GetMessagesByWorkType pname jobType"
    and rows: "\<forall>pid \<in> gkeys pIDsMap. \<forall>i < length (GetMessagesByWorkType pname jobType).
       row_of m pid ! i \<longleftrightarrow> row_of ?m0 pid ! i \<or> (\<exists>now. (pid, GetMessagesByWorkType pname jobType ! i, now) \<in> set evs)"
    using receive_all_rows [of ?m0 evs] NewMessageMonitor_ok [OF assms(1)] messages_distinct [OF assms(2)]
    by (auto simp: sel)
  have "\<not> row_of ?m0 pid ! i" if "pid \<in> gkeys pIDsMap" "i < length (GetMessagesByWorkType pname jobType)" for pid i
    using new_row that by metis
  then have "(\<forall>pid \<in> peers_of m. \<forall>i < length (mm_allMessages m). row_of m pid ! i) \<longleftrightarrow>
      (\<forall>pid \<in> gkeys pIDsMap - {p_Id mypid}. \<forall>ty \<in> set (GetMessagesByWorkType pname jobType).
        \<exists>now. (pid, ty, now) \<in> set evs)"
    using rows m by (auto simp: peers_of_def all_set_conv_all_nth)
  then show ?thesis using m missing_empty_iff [of m it1 it2 it3] assms by auto
qed

text \<open>
  EdDSA jobs are not monitored: their list of expected messages is empty, so whatever has
  or has not arrived the search reports nothing.
\<close>

theorem eddsa_never_monitored:
  assumes "gmap_ok pIDsMap" and "jobType \<in> {EdKeygen, EdSigning}"
    and "receive_all evs (NewMessageMonitor pname mypid jobType pIDsMap timeout) = Ret m"
    and "ranges pIDsMap it1" and "ranges pIDsMap it2" and "ranges pIDsMap it3"
  shows "findMissingMessages it1 it2 it3 m = Ret []"
proof -
  let ?m0 = "NewMessageMonitor pname mypid jobType pIDsMap timeout"
  have none: "mm_allMessages ?m0 = []" "mm_pIDsMap ?m0 = pIDsMap"
    using assms(2) by (auto simp: NewMessageMonitor_def)
  then have "mm_ok m" "mm_pIDsMap m = pIDsMap" "mm_allMessages m = []"
    using receive_all_rows [of ?m0 evs] NewMessageMonitor_ok [OF assms(1)] assms(3) by auto
  then show ?thesis using missing_empty_iff assms by auto
qed

subsection \<open>Concrete runs\<close>

definition some_party :: "string \<Rightarrow> int \<Rightarrow> party" where
  "some_party i k = \<lparr>p_Id = i, p_Moniker = '''', p_Key = k, p_Index = -1\<rparr>"

definition three_parties :: "(string, party) gmap" where
  "three_parties = [(''a'', some_party ''a'' 1), (''b'', some_party ''b'' 2), (''c'', some_party ''c'' 3)]"

definition sample_monitor :: DefaultMessageMonitor where
  "sample_monitor = NewMessageMonitor ref_pname (some_party ''a'' 1) EcKeygen three_parties 15"

lemma three_parties_ok: "gmap_ok three_parties"
  by (simp add: three_parties_def gmap_ok_def)

theorem findMissingMessages_exact_witness:
  "\<exists>r. findMissingMessages three_parties three_parties (rev three_parties) sample_monitor = Ret r \<and>
    (\<forall>pid. gget r pid = (if pid \<in> peers_of sample_monitor \<and> missing_upto sample_monitor (asked sample_monitor) pid \<noteq> []
                         then Some (missing_upto sample_monitor (asked sample_monitor) pid) else None))"
proof (rule findMissingMessages_exact)
  show "mm_ok sample_monitor" unfolding sample_monitor_def by (rule NewMessageMonitor_ok [OF three_parties_ok])
qed (simp_all add: sample_monitor_def NewMessageMonitor_def ranges_def)

theorem monitor_silent_iff_complete_witness:
  "\<exists>m. receive_all [(''b'', ref_pname EcKGRound1Message, 3)]
      (NewMessageMonitor ref_pname (some_party ''a'' 1) EcKeygen three_parties 15) = Ret m \<and>
    (findMissingMessages three_parties three_parties three_parties m = Ret [] \<longleftrightarrow>
      (\<forall>pid \<in> gkeys three_parties - {p_Id (some_party ''a'' 1)}.
        \<forall>ty \<in> set (GetMessagesByWorkType ref_pname EcKeygen).
        \<exists>now. (pid, ty, now) \<in> set [(''b'', ref_pname EcKGRound1Message, 3 :: int)]))"
  by (rule monitor_silent_iff_complete) (simp_all add: three_parties_ok ref_pname_inj)

theorem eddsa_never_monitored_witness:
  "findMissingMessages three_parties three_parties three_parties
     (NewMessageMonitor ref_pname (some_party ''a'' 1) EdSigning three_parties 15) = Ret []"
  by (rule eddsa_never_monitored [where evs = "[]" and pIDsMap = three_parties and jobType = EdSigning])
    (simp_all add: three_parties_ok)

text \<open>One message of round 1 from \<open>b\<close>: the same message is asked of \<open>c\<close>, nothing of \<open>b\<close>.\<close>

lemma monitor_run_example:
  "go_bind (receive_all [(''b'', ref_pname EcKGRound1Message, 3)] sample_monitor)
     (findMissingMessages three_parties three_parties three_parties) = Ret [(''c'', [ref_pname EcKGRound1Message])]"
  by (code_simp)

end
