(* ===== verification/Blame_Manager.thy ===== *)
theory Blame_Manager
  imports Work_Request
begin

section \<open>Blame: blame/manager.go\<close>

text \<open>
  The manager records who has sent a message in each round of each work and who was reported
  as a culprit. The sets of \<open>golang-set\<close> are HOL sets; the order in which \<open>ToSlice\<close> lists one is
  the parameter \<open>to_slice\<close>, which lists every element of a finite set once. Entries of the Go map
  \<open>sentNodes\<close> are sets too: the Go value \<open>struct\{\}\{\}\<close> carries nothing.
\<close>

record Manager =
  bm_sentNodes :: "(string, string set) gmap"
  bm_roundCulprits :: "(string, party list) gmap"
  bm_preExecutionCulprits :: "party list"

definition NewManager :: Manager where
  "NewManager = \<lparr>bm_sentNodes = [], bm_roundCulprits = [], bm_preExecutionCulprits = []\<rparr>"

definition createRoundKey :: "string \<Rightarrow> nat \<Rightarrow> string" where
  "createRoundKey workID round = workID @ '':'' @ dec_of_nat round"

definition AddSender :: "string \<Rightarrow> nat \<Rightarrow> string \<Rightarrow> Manager \<Rightarrow> Manager" where
  "AddSender workId round sender m =
     (let key = createRoundKey workId round;
          sentNodes = (case gget (bm_sentNodes m) key of
                         None \<Rightarrow> gput key {} (bm_sentNodes m) | Some _ \<Rightarrow> bm_sentNodes m);
          nodes = (case gget sentNodes key of None \<Rightarrow> {} | Some s \<Rightarrow> s)
      in m\<lparr>bm_sentNodes := gput key (insert sender nodes) sentNodes\<rparr>)"

definition AddPreExecutionCulprit :: "party list \<Rightarrow> Manager \<Rightarrow> Manager" where
  "AddPreExecutionCulprit culprits m =
     m\<lparr>bm_preExecutionCulprits := bm_preExecutionCulprits m @ culprits\<rparr>"

definition AddCulpritByRound :: "string \<Rightarrow> nat \<Rightarrow> party list \<Rightarrow> Manager \<Rightarrow> Manager" where
  "AddCulpritByRound workID round culprits m =
     (let key = createRoundKey workID round;
          old = (case gget (bm_roundCulprits m) key of None \<Rightarrow> [] | Some ps \<Rightarrow> ps)
      in m\<lparr>bm_roundCulprits := gput key (old @ culprits) (bm_roundCulprits m)\<rparr>)"

definition GetRoundCulprits ::
  "(string set \<Rightarrow> string list) \<Rightarrow> string \<Rightarrow> nat \<Rightarrow> (string, party) gmap \<Rightarrow> Manager \<Rightarrow> party list" where
  "GetRoundCulprits to_slice workId round allParties m =
     (let key = createRoundKey workId round;
          sentNodes = (case gget (bm_sentNodes m) key of None \<Rightarrow> {} | Some s \<Rightarrow> s);
          allPeers = set (map (\<lambda>(_, p). p_Id p) allParties);
          diff = allPeers - sentNodes;
          diff' = fold (\<lambda>pid d. insert (p_Id pid) d)
                    (case gget (bm_roundCulprits m) key of None \<Rightarrow> [] | Some ps \<Rightarrow> ps) diff
      in List.map_filter (gget allParties) (to_slice diff'))"

definition GetPreExecutionCulprits :: "Manager \<Rightarrow> party list" where
  "GetPreExecutionCulprits m = bm_preExecutionCulprits m"

subsection \<open>Round keys\<close>

lemma createRoundKey_inj: "createRoundKey w r = createRoundKey w' r' \<longleftrightarrow> w = w' \<and> r = r'"
  using last_separator [of w "CHR '':''" "dec_of_nat r" w' "dec_of_nat r'"] dec_of_nat_inj
  by (auto simp: createRoundKey_def dec_of_nat_notin)

subsection \<open>Runs of the manager\<close>

text \<open>The calls that write to the manager, and the abstract facts they establish.\<close>

datatype blame_op = Sender string nat string | Culprit string nat "party list" | PreExecution "party list"

fun blame_step :: "blame_op \<Rightarrow> Manager \<Rightarrow> Manager" where
  "blame_step (Sender w r s) m = AddSender w r s m"
| "blame_step (Culprit w r ps) m = AddCulpritByRound w r ps m"
| "blame_step (PreExecution ps) m = AddPreExecutionCulprit ps m"

definition senders :: "Manager \<Rightarrow> string \<Rightarrow> nat \<Rightarrow> string set" where
  "senders m w r = (case gget (bm_sentNodes m) (createRoundKey w r) of None \<Rightarrow> {} | Some s \<Rightarrow> s)"

definition reported :: "Manager \<Rightarrow> string \<Rightarrow> nat \<Rightarrow> party list" where
  "reported m w r = (case gget (bm_roundCulprits m) (createRoundKey w r) of None \<Rightarrow> [] | Some ps \<Rightarrow> ps)"

lemma senders_step:
  "senders (blame_step opr m) w r = senders m w r \<union> {s. opr = Sender w r s}"
  by (cases opr) (auto simp: senders_def AddSender_def AddCulpritByRound_def AddPreExecutionCulprit_def
    Let_def createRoundKey_inj split: option.splits)

lemma reported_step:
  "set (reported (blame_step opr m) w r) = set (reported m w r) \<union> {p. \<exists>ps. opr = Culprit w r ps \<and> p \<in> set ps}"
  by (cases opr) (auto simp: reported_def AddSender_def AddCulpritByRound_def AddPreExecutionCulprit_def
    Let_def createRoundKey_inj split: option.splits)

lemma blame_run:
  "senders (fold blame_step ops m) w r = senders m w r \<union> {s. Sender w r s \<in> set ops}"
  "set (reported (fold blame_step ops m) w r) =
     set (reported m w r) \<union> {p. \<exists>ps. Culprit w r ps \<in> set ops \<and> p \<in> set ps}"
  by (induction ops arbitrary: m) (auto simp: senders_step reported_step)

lemma culprits_set:
  assumes "gmap_ok allParties" and "\<forall>(k, p) \<in> set allParties. p_Id p = k"
    and "\<And>S. finite S \<Longrightarrow> set (to_slice S) = S"
  shows "set (GetRoundCulprits to_slice w r allParties m) =
    {p. \<exists>k. (k, p) \<in> set allParties \<and> (k \<notin> senders m w r \<or> k \<in> p_Id ` set (reported m w r))}"
proof -
  have ins: "fold (\<lambda>pid d. insert (p_Id pid) d) ps d = d \<union> p_Id ` set ps" for ps d
    by (induction ps arbitrary: d) auto
  have "set (map (\<lambda>(_, p). p_Id p) allParties) = gkeys allParties"
    using assms(2) by (force simp: gkeys_def image_iff)
  then have "GetRoundCulprits to_slice w r allParties m =
      List.map_filter (gget allParties) (to_slice (gkeys allParties - senders m w r \<union> p_Id ` set (reported m w r)))"
    by (simp add: GetRoundCulprits_def ins senders_def reported_def Let_def)
  moreover have "set (List.map_filter f xs) = {y. \<exists>x \<in> set xs. f x = Some y}" for f :: "string \<Rightarrow> party option" and xs
    by (force simp: List.map_filter_def)
  ultimately show ?thesis
    using assms(1,3) by (auto simp: gget_Some_iff gkeys_def intro: rev_image_eqI intro!: bexI)
qed

text \<open>
  C39. After any sequence of calls on a new manager, the culprits of a round of a work are exactly
  the parties that have not been recorded as senders of that round of that work, or that have been
  reported for it; other rounds and other works do not count, whatever characters a work id has.
\<close>

theorem GetRoundCulprits_exact:
  assumes "gmap_ok allParties" and "\<forall>(k, p) \<in> set allParties. p_Id p = k"
    and "\<And>S. finite S \<Longrightarrow> set (to_slice S) = S"
  shows "set (GetRoundCulprits to_slice w r allParties (fold blame_step ops NewManager)) =
    {p. \<exists>k. (k, p) \<in> set allParties \<and>
        (Sender w r k \<notin> set ops \<or> (\<exists>ps q. Culprit w r ps \<in> set ops \<and> q \<in> set ps \<and> p_Id q = k))}"
proof -
  have "senders NewManager w r = {}" and "reported NewManager w r = []"
    by (simp_all add: senders_def reported_def NewManager_def)
  then show ?thesis
    by (subst culprits_set) (use assms in \<open>auto simp: blame_run image_iff\<close>)
qed

definition two_parties :: "(string, party) gmap" where
  "two_parties = [(''a'', \<lparr>p_Id = ''a'', p_Moniker = '''', p_Key = 1, p_Index = 0\<rparr>),
                  (''b'', \<lparr>p_Id = ''b'', p_Moniker = '''', p_Key = 2, p_Index = 1\<rparr>)]"

theorem GetRoundCulprits_exact_witness:
  "set (GetRoundCulprits sorted_list_of_set ''w'' 4 two_parties (fold blame_step [Sender ''w'' 4 ''a''] NewManager)) =
    {p. \<exists>k. (k, p) \<in> set two_parties \<and>
        (Sender ''w'' 4 k \<notin> set [Sender ''w'' 4 ''a''] \<or>
         (\<exists>ps q. Culprit ''w'' 4 ps \<in> set [Sender ''w'' 4 ''a''] \<and> q \<in> set ps \<and> p_Id q = k))}"
  by (rule GetRoundCulprits_exact) (auto simp: two_parties_def gmap_ok_def)

end
