(* ===== verification/Presign_Manager.thy ===== *)
theory Presign_Manager
  imports Database
begin

section \<open>Available presigns: core/components/available\_presign\_manager.go\<close>

text \<open>
  Presign data that no signing has used yet, grouped by the parties that hold it. The database is
  the interface \<open>'d Database\<close> of theory \<open>Database\<close>. \<open>am_locked\<close> records that a call has returned
  while it held the write lock: from then on every critical section of the manager blocks, and a
  call of \<open>GetAvailablePresigns\<close> has the outcome \<open>Hang\<close>. \<open>AddPresign\<close> is a call that gets the lock
  (the step relation below lets it run only then).
\<close>

record AvailablePresign =
  ap_PresignId :: string
  ap_PidsString :: string
  ap_Pids :: "string list"

record 'd AvailablePresigns =
  am_db :: 'd
  am_available :: "(string, AvailablePresign list) gmap"
  am_locked :: bool

definition NewAvailPresignManager :: "'d \<Rightarrow> 'd AvailablePresigns" where
  "NewAvailPresignManager d = \<lparr>am_db = d, am_available = [], am_locked = False\<rparr>"

definition group_of :: "(string, AvailablePresign list) gmap \<Rightarrow> string \<Rightarrow> AvailablePresign list" where
  "group_of av k = (case gget av k of None \<Rightarrow> [] | Some aps \<Rightarrow> aps)"

fun load_loop ::
  "string list \<Rightarrow> nat \<Rightarrow> string list \<Rightarrow> (string, AvailablePresign list) gmap \<Rightarrow>
   (string, AvailablePresign list) gmap go" where
  "load_loop presignIds i [] av = Ret av"
| "load_loop presignIds i (pidString # pidStrings) av =
     go_bind (go_index presignIds i) (\<lambda>presignId.
       load_loop presignIds (Suc i) pidStrings
         (gput pidString (group_of av pidString @
            [\<lparr>ap_PresignId = presignId, ap_PidsString = pidString, ap_Pids = str_Split pidString '',''\<rparr>]) av))"

definition Load :: "'d Database \<Rightarrow> 'd AvailablePresigns \<Rightarrow> (string option \<times> 'd AvailablePresigns) go" where
  "Load db m =
     (case db_GetAvailablePresignShortForm db (am_db m) of
        Inl err \<Rightarrow> Ret (Some err, m)
      | Inr (presignIds, pidStrings) \<Rightarrow>
          go_bind (load_loop presignIds 0 pidStrings (am_available m))
            (\<lambda>av. Ret (None, m\<lparr>am_available := av\<rparr>)))"

definition new_presigns :: "string \<Rightarrow> party list \<Rightarrow> nat \<Rightarrow> AvailablePresign list" where
  "new_presigns workId partyIds n =
     map (\<lambda>i. \<lparr>ap_PresignId = presign_id workId i, ap_PidsString = GetPidString partyIds,
                ap_Pids = GetPidsArray partyIds\<rparr>) [0..<n]"

definition add_group ::
  "string \<Rightarrow> AvailablePresign list \<Rightarrow> (string, AvailablePresign list) gmap \<Rightarrow>
   (string, AvailablePresign list) gmap" where
  "add_group pidString arr av =
     (case gget av pidString of
        Some ap \<Rightarrow> gput pidString (ap @ arr) av
      | None \<Rightarrow> gput pidString arr av)"

definition AddPresign ::
  "'d Database \<Rightarrow> string \<Rightarrow> party list \<Rightarrow> opaque option list \<Rightarrow> 'd AvailablePresigns \<Rightarrow> 'd AvailablePresigns" where
  "AddPresign db workId partyIds presignOutputs m =
     (case db_SavePresignData db workId partyIds presignOutputs (am_db m) of
        (Some err, d) \<Rightarrow> m\<lparr>am_db := d\<rparr>
      | (None, d) \<Rightarrow>
          m\<lparr>am_db := d,
            am_available := add_group (GetPidString partyIds)
              (new_presigns workId partyIds (length presignOutputs)) (am_available m)\<rparr>)"

subsection \<open>Taking presigns\<close>

text \<open>
  \<open>GetAvailablePresigns\<close> has two critical sections. The first, under the read lock, only chooses a
  group: the first one in the order \<open>it\<close> of the map loop whose parties are all present and that is
  large enough. The empty string stands for no choice.
\<close>

definition group_fits :: "nat \<Rightarrow> (string, party) gmap \<Rightarrow> string \<times> AvailablePresign list \<Rightarrow> bool" where
  "group_fits batchSize allPids e \<longleftrightarrow>
     (\<forall>pid \<in> set (str_Split (fst e) '',''). gget allPids pid \<noteq> None) \<and> batchSize \<le> length (snd e)"

definition select_group ::
  "nat \<Rightarrow> (string, party) gmap \<Rightarrow> (string \<times> AvailablePresign list) list \<Rightarrow> string" where
  "select_group batchSize allPids it =
     (case find (group_fits batchSize allPids) it of None \<Rightarrow> '''' | Some e \<Rightarrow> fst e)"

text \<open>
  The second, under the write lock, takes the first presigns of the group. On its \<open>else\<close> branch,
  taken when another call has emptied the group in between, the function returns without unlocking.
\<close>

definition take_group ::
  "nat \<Rightarrow> string \<Rightarrow> 'd AvailablePresigns \<Rightarrow> AvailablePresign list option \<times> 'd AvailablePresigns" where
  "take_group batchSize pidString m =
     (let apArr = group_of (am_available m) pidString in
      if batchSize \<le> length apArr
      then (let av = gput pidString (drop batchSize apArr) (am_available m) in
            (Some (take batchSize apArr),
             m\<lparr>am_available := (if length (group_of av pidString) = 0 then gdel pidString av else av)\<rparr>))
      else (None, m\<lparr>am_locked := True\<rparr>))"

text \<open>The party objects of the group: \<open>nil\<close> for an id that no value of \<open>allPids\<close> has.\<close>

fun selected_pids :: "(nat \<Rightarrow> (string \<times> party) list) \<Rightarrow> nat \<Rightarrow> string list \<Rightarrow> party option list" where
  "selected_pids its i [] = []"
| "selected_pids its i (pidString # rest) =
     map_option snd (find (\<lambda>(_, p). p_Id p = pidString) (its i)) # selected_pids its (Suc i) rest"

definition finish_presigns ::
  "'d Database \<Rightarrow> (nat \<Rightarrow> (string \<times> party) list) \<Rightarrow> string \<Rightarrow> AvailablePresign list \<Rightarrow> 'd AvailablePresigns \<Rightarrow>
   (string list \<times> party option list) \<times> 'd AvailablePresigns" where
  "finish_presigns db its pidString selectedAps m =
     (let presignIds = map ap_PresignId selectedAps;
          selectedPids = selected_pids its 0 (str_Split pidString '','')
      in case db_UpdatePresignStatus db presignIds (am_db m) of
           (Some err, d) \<Rightarrow> (([], []), m\<lparr>am_db := d\<rparr>)
         | (None, d) \<Rightarrow> ((presignIds, selectedPids), m\<lparr>am_db := d\<rparr>))"

definition GetAvailablePresigns ::
  "'d Database \<Rightarrow> (string \<times> AvailablePresign list) list \<Rightarrow> (nat \<Rightarrow> (string \<times> party) list) \<Rightarrow>
   nat \<Rightarrow> int \<Rightarrow> (string, party) gmap \<Rightarrow> 'd AvailablePresigns \<Rightarrow>
   ((string list \<times> party option list) \<times> 'd AvailablePresigns) go" where
  "GetAvailablePresigns db it its batchSize n allPids m =
     (if am_locked m then Hang
      else
        (let selected = select_group batchSize allPids it in
         if selected = '''' then Ret (([], []), m)
         else case take_group batchSize selected m of
                (None, m') \<Rightarrow> Ret (([], []), m')
              | (Some selectedAps, m') \<Rightarrow> Ret (finish_presigns db its selected selectedAps m')))"

subsection \<open>The ids in stock\<close>

definition stock :: "(string, AvailablePresign list) gmap \<Rightarrow> string multiset" where
  "stock av = mset (map ap_PresignId (concat (map snd av)))"

definition am_ok :: "'d AvailablePresigns \<Rightarrow> bool" where
  "am_ok m \<longleftrightarrow> gmap_ok (am_available m)"

lemma stock_gput:
  assumes "gmap_ok av"
  shows "stock (gput k aps av) + mset (map ap_PresignId (group_of av k)) = stock av + mset (map ap_PresignId aps)"
  using assms
proof (induction av)
  case (Cons e av)
  then show ?case
    by (cases e) (auto simp: stock_def gput_def group_of_def gget_def gmap_ok_def split: option.splits
      dest: map_of_SomeD)
qed (simp add: stock_def gput_def group_of_def)

lemma stock_gdel:
  assumes "gmap_ok av"
  shows "stock (gdel k av) + mset (map ap_PresignId (group_of av k)) = stock av"
  using assms
proof (induction av)
  case (Cons e av)
  have "gdel k av = av" if "k \<notin> fst ` set av"
    using that by (simp add: gdel_def delete_idem)
  with Cons show ?case
    by (cases e) (auto simp: stock_def gdel_def group_of_def gget_def gmap_ok_def split: option.splits
      dest: map_of_SomeD)
qed (simp add: stock_def gdel_def group_of_def)

lemma stock_add_group:
  "gmap_ok av \<Longrightarrow> stock (add_group k arr av) = stock av + mset (map ap_PresignId arr)"
  using stock_gput [of av k "group_of av k @ arr"] stock_gput [of av k arr]
  by (auto simp: add_group_def group_of_def split: option.splits)

lemma stock_take_group:
  assumes "gmap_ok (am_available m)" and "take_group b k m = (Some aps, m')"
  shows "stock (am_available m') + mset (map ap_PresignId aps) = stock (am_available m)"
    and "gmap_ok (am_available m')" and "length aps = b" and "am_db m' = am_db m" and "am_locked m' = am_locked m"
    and "aps = take b (group_of (am_available m) k)"
proof -
  let ?av = "am_available m" and ?g = "group_of (am_available m) k"
  have b: "b \<le> length ?g" and aps: "aps = take b ?g"
    and m': "m' = m\<lparr>am_available := (if length ?g = b then gdel k (gput k (drop b ?g) ?av) else gput k (drop b ?g) ?av)\<rparr>"
    using assms(2) by (auto simp: take_group_def Let_def group_of_def split: if_splits option.splits)
  have "mset (map ap_PresignId ?g) = mset (map ap_PresignId aps) + mset (map ap_PresignId (drop b ?g))"
    unfolding aps by (metis append_take_drop_id map_append mset_append)
  moreover note stock_gput [OF assms(1), of k "drop b ?g"] stock_gdel [OF gmap_ok_gput [OF assms(1)], of k k "drop b ?g"]
  ultimately show "stock (am_available m') + mset (map ap_PresignId aps) = stock ?av"
    using b by (auto simp: m' group_of_def add.commute add.left_commute)
  show "gmap_ok (am_available m')" using assms(1) by (auto simp: m')
  show "length aps = b" "am_db m' = am_db m" "am_locked m' = am_locked m" "aps = take b ?g"
    using aps b by (simp_all add: m')
qed

subsection \<open>Concurrent calls\<close>

text \<open>
  Several workers call the manager at the same time; only the critical sections are atomic. A state
  holds the manager, the group each running call has chosen in its first section, and the history:
  the works added, all ids put in stock, all ids taken out of stock, and the ids returned to a
  caller. A critical section can start only while the lock is free. The update of the database that
  follows the second section commutes with the sections of other calls and is part of its step.
\<close>

record 'd psys =
  ps_m :: "'d AvailablePresigns"
  ps_selected :: "nat \<Rightarrow> (nat \<times> string) option"
  ps_works :: "string list"
  ps_added :: "string multiset"
  ps_taken :: "string multiset"
  ps_returned :: "string multiset"

definition presign_start :: "'d AvailablePresigns \<Rightarrow> 'd psys" where
  "presign_start m = \<lparr>ps_m = m, ps_selected = (\<lambda>_. None), ps_works = [],
     ps_added = stock (am_available m), ps_taken = {#}, ps_returned = {#}\<rparr>"

inductive presign_step :: "'d Database \<Rightarrow> 'd psys \<Rightarrow> 'd psys \<Rightarrow> bool" for db where
  Add: "\<lbrakk>\<not> am_locked (ps_m s); db_SavePresignData db workId pids outputs (am_db (ps_m s)) = (None, d)\<rbrakk> \<Longrightarrow>
    presign_step db s (s\<lparr>ps_m := AddPresign db workId pids outputs (ps_m s),
      ps_works := workId # ps_works s,
      ps_added := ps_added s + mset (map ap_PresignId (new_presigns workId pids (length outputs)))\<rparr>)"
| AddFails: "\<lbrakk>db_SavePresignData db workId pids outputs (am_db (ps_m s)) = (Some err, d)\<rbrakk> \<Longrightarrow>
    presign_step db s (s\<lparr>ps_m := AddPresign db workId pids outputs (ps_m s)\<rparr>)"
| Select: "\<lbrakk>\<not> am_locked (ps_m s); ranges (am_available (ps_m s)) it;
    select_group batchSize allPids it = k; k \<noteq> ''''\<rbrakk> \<Longrightarrow>
    presign_step db s (s\<lparr>ps_selected := (ps_selected s)(t := Some (batchSize, k))\<rparr>)"
| Take: "\<lbrakk>\<not> am_locked (ps_m s); ps_selected s t = Some (batchSize, k);
    take_group batchSize k (ps_m s) = (Some aps, m'); finish_presigns db its k aps m' = ((ids, sel), m'')\<rbrakk> \<Longrightarrow>
    presign_step db s (s\<lparr>ps_m := m'', ps_selected := (ps_selected s)(t := None),
      ps_taken := ps_taken s + mset (map ap_PresignId aps), ps_returned := ps_returned s + mset ids\<rparr>)"
| Raced: "\<lbrakk>\<not> am_locked (ps_m s); ps_selected s t = Some (batchSize, k);
    take_group batchSize k (ps_m s) = (None, m')\<rbrakk> \<Longrightarrow>
    presign_step db s (s\<lparr>ps_m := m', ps_selected := (ps_selected s)(t := None)\<rparr>)"

inductive_cases presign_stepE: "presign_step db s s'"

definition presign_reach :: "'d Database \<Rightarrow> 'd psys \<Rightarrow> 'd psys \<Rightarrow> bool" where
  "presign_reach db = (presign_step db)\<^sup>*\<^sup>*"

definition psys_inv :: "'d psys \<Rightarrow> bool" where
  "psys_inv s \<longleftrightarrow> gmap_ok (am_available (ps_m s)) \<and>
     stock (am_available (ps_m s)) + ps_taken s = ps_added s \<and> ps_returned s \<subseteq># ps_taken s"

lemma AddPresign_sel:
  "db_SavePresignData db w ps outs (am_db m) = (None, d) \<Longrightarrow>
     am_available (AddPresign db w ps outs m) =
       add_group (GetPidString ps) (new_presigns w ps (length outs)) (am_available m)"
  "db_SavePresignData db w ps outs (am_db m) = (Some err, d) \<Longrightarrow>
     am_available (AddPresign db w ps outs m) = am_available m"
  by (simp_all add: AddPresign_def)

lemma gmap_ok_add_group: "gmap_ok av \<Longrightarrow> gmap_ok (add_group k arr av)"
  by (auto simp: add_group_def split: option.splits)

lemma finish_presigns_sel:
  assumes "finish_presigns db its k aps m = ((ids, sel), m')"
  shows "am_available m' = am_available m" and "mset ids \<subseteq># mset (map ap_PresignId aps)"
    and "am_locked m' = am_locked m"
  using assms by (auto simp: finish_presigns_def Let_def split: prod.splits option.splits)

lemma psys_inv_step: "presign_step db s s' \<Longrightarrow> psys_inv s \<Longrightarrow> psys_inv s'"
proof (induction rule: presign_step.induct)
  case (Add s workId pids outputs d)
  then show ?case
    by (simp add: psys_inv_def AddPresign_sel gmap_ok_add_group stock_add_group
      add.commute add.left_commute)
next
  case (AddFails workId pids outputs s err d)
  then show ?case by (simp add: psys_inv_def AddPresign_sel)
next
  case (Take s t batchSize k aps m' its ids sel m'')
  then have inv: "gmap_ok (am_available (ps_m s))" "ps_returned s \<subseteq># ps_taken s"
    "stock (am_available (ps_m s)) + ps_taken s = ps_added s"
    by (auto simp: psys_inv_def)
  note taken = stock_take_group(1,2) [OF inv(1) Take.hyps(3)] and fin = finish_presigns_sel(1,2) [OF Take.hyps(4)]
  have "stock (am_available m'') + (ps_taken s + mset (map ap_PresignId aps)) = ps_added s"
    unfolding inv(3) [symmetric] taken(1) [symmetric] fin(1) by (simp only: ac_simps)
  moreover have "ps_returned s + mset ids \<subseteq># ps_taken s + mset (map ap_PresignId aps)"
    using inv(2) fin(2) by (rule subset_mset.add_mono)
  ultimately show ?case using taken(2) fin(1) by (simp add: psys_inv_def)
next
  case (Raced s t batchSize k m')
  then show ?case by (auto simp: psys_inv_def take_group_def Let_def split: if_splits)
qed (simp add: psys_inv_def)

lemma psys_inv_reach:
  assumes "presign_reach db (presign_start m) s" and "am_ok m"
  shows "psys_inv s"
proof -
  have "psys_inv (presign_start m)" using assms(2) by (simp add: psys_inv_def presign_start_def am_ok_def)
  with assms(1)[unfolded presign_reach_def] show ?thesis
    by (induction rule: rtranclp_induct) (auto intro: psys_inv_step)
qed

text \<open>The ids put in stock: those the manager had, and those of the works added.\<close>

lemma added_ids:
  assumes "presign_reach db (presign_start m) s"
  shows "\<exists>n. ps_added s = stock (am_available m) +
    mset (concat (map2 (\<lambda>w k. map (presign_id w) [0..<k]) (ps_works s) n)) \<and> length n = length (ps_works s)"
  using assms unfolding presign_reach_def
proof (induction rule: rtranclp_induct)
  case base
  then show ?case by (simp add: presign_start_def)
next
  case (step s s')
  then obtain n where n: "ps_added s = stock (am_available m) +
      mset (concat (map2 (\<lambda>w k. map (presign_id w) [0..<k]) (ps_works s) n))" "length n = length (ps_works s)"
    by blast
  from step(2) show ?case
  proof cases
    case (Add workId pids outputs d)
    with n show ?thesis
      by (intro exI [of _ "length outputs # n"]) (simp add: new_presigns_def comp_def)
  qed (use n in auto)
qed

lemma work_ids_distinct:
  assumes "distinct ws"
  shows "distinct (concat (map2 (\<lambda>w k. map (presign_id w) [0..<k]) ws n))"
  using assms
proof (induction ws arbitrary: n)
  case (Cons w ws)
  show ?case
  proof (cases n)
    case (Cons k n')
    have "presign_id w i \<noteq> presign_id v j" if "(v, l) \<in> set (zip ws n')" for v l i j
      using that Cons.prems set_zip_leftD presign_id_inj by fastforce
    then show ?thesis using Cons Cons.IH [of n'] Cons.prems
      by (auto simp: distinct_map inj_on_def presign_id_inj)
  qed simp
qed simp

text \<open>
  C1. However the calls of the workers interleave, no presign is used twice: when the manager
  starts from a stock without repetitions and every work is added once, under an id whose
  presigns are not in that stock, all ids ever returned are pairwise different and none of them
  is still available.
\<close>

theorem presigns_never_reused:
  assumes "presign_reach db (presign_start m) s" and "am_ok m"
    and "\<forall>x. count (stock (am_available m)) x \<le> 1"
    and "distinct (ps_works s)" and "\<forall>w \<in> set (ps_works s). \<forall>i. presign_id w i \<notin># stock (am_available m)"
  shows "(\<forall>x. count (ps_returned s) x \<le> 1) \<and> ps_returned s \<inter># stock (am_available (ps_m s)) = {#}"
proof -
  obtain n where added: "ps_added s = stock (am_available m) +
      mset (concat (map2 (\<lambda>w k. map (presign_id w) [0..<k]) (ps_works s) n))"
    using added_ids [OF assms(1)] by blast
  let ?new = "concat (map2 (\<lambda>w k. map (presign_id w) [0..<k]) (ps_works s) n)"
  have new: "count (mset ?new) x \<le> 1" for x
    using work_ids_distinct [OF assms(4)] by (simp add: distinct_count_atmost_1)
  have "x \<notin># stock (am_available m)" if "x \<in> set ?new" for x
    using that assms(5) by (auto dest: set_zip_leftD)
  then have one: "count (ps_added s) x \<le> 1" for x
    using new [of x] assms(3) [rule_format, of x] unfolding added
    by (cases "x \<in> set ?new") (auto simp: not_in_iff count_mset_0_iff [THEN iffD2] simp del: set_concat mset_concat)
  have inv: "stock (am_available (ps_m s)) + ps_taken s = ps_added s" "ps_returned s \<subseteq># ps_taken s"
    using psys_inv_reach [OF assms(1,2)] by (simp_all add: psys_inv_def)
  have le: "count (ps_returned s) x + count (stock (am_available (ps_m s))) x \<le> 1" for x
    using one [of x] mset_subset_eq_count [OF inv(2), of x]
    unfolding inv(1) [symmetric] by simp
  have "count (ps_returned s \<inter># stock (am_available (ps_m s))) x = 0" for x
    using le [of x] by (simp add: min_def)
  then show ?thesis using le by (metis add_leD1 count_empty multiset_eqI)
qed

subsection \<open>Single calls\<close>

text \<open>Parties are filed under their own id.\<close>

definition by_id :: "(string, party) gmap \<Rightarrow> bool" where
  "by_id ps \<longleftrightarrow> gmap_ok ps \<and> (\<forall>(k, p) \<in> set ps. p_Id p = k)"

lemma find_by_id:
  assumes "by_id ps" and "ranges ps it" and "gget ps k = Some p"
  shows "map_option snd (find (\<lambda>(_, q). p_Id q = k) it) = Some p"
proof -
  have mem: "(k, p) \<in> set it" using assms by (simp add: ranges_set gget_in_set)
  then obtain q where q: "find (\<lambda>(_, q). p_Id q = k) it = Some q"
    using find_exists [OF mem, of "\<lambda>(_, q). p_Id q = k"] assms(1) gget_in_set [OF assms(3)]
    unfolding by_id_def by blast
  then have "q \<in> set ps" "p_Id (snd q) = k"
    using ranges_set [OF assms(2)] by (auto dest: find_SomeD)
  then have "(k, snd q) \<in> set ps" using assms(1) by (cases q) (auto simp: by_id_def)
  then have "gget ps k = Some (snd q)" using assms(1) by (simp add: by_id_def gget_Some_iff)
  with assms(3) q show ?thesis by simp
qed

lemma selected_pids_found:
  assumes "by_id ps" and "\<And>i. ranges ps (its i)" and "\<forall>k \<in> set ks. gget ps k \<noteq> None"
  shows "selected_pids its i ks = map (gget ps) ks"
  using assms(3)
proof (induction ks arbitrary: i)
  case (Cons k ks)
  then show ?case using find_by_id [OF assms(1) assms(2)] by (auto simp del: map_option_eq_Some)
qed simp

lemma call_result:
  assumes "am_ok m" and "by_id allPids" and "ranges (am_available m) it" and "\<And>i. ranges allPids (its i)"
    and "GetAvailablePresigns db it its batchSize n allPids m = Ret ((ids, pids), m')" and "ids \<noteq> []"
  shows "\<exists>k. k \<in> gkeys (am_available m) \<and> ids = take batchSize (map ap_PresignId (group_of (am_available m) k)) \<and> length ids = batchSize \<and>
    pids = map (gget allPids) (str_Split k '','') \<and> None \<notin> set pids \<and>
    stock (am_available m') + mset ids = stock (am_available m) \<and> am_locked m' = am_locked m"
proof -
  let ?k = "select_group batchSize allPids it"
  obtain aps m1 where k: "?k \<noteq> ''''" and tk: "take_group batchSize ?k m = (Some aps, m1)"
    and fin: "finish_presigns db its ?k aps m1 = ((ids, pids), m')"
    using assms(5,6) by (auto simp: GetAvailablePresigns_def Let_def split: if_splits prod.splits option.splits)
  obtain e where e: "find (group_fits batchSize allPids) it = Some e" "?k = fst e"
    using k by (auto simp: select_group_def split: option.splits)
  then have "group_fits batchSize allPids e" by (auto simp: find_Some_iff)
  then have found: "\<forall>pid \<in> set (str_Split ?k '',''). gget allPids pid \<noteq> None"
    using e(2) by (simp add: group_fits_def)
  have key: "?k \<in> gkeys (am_available m)"
    using find_SomeD [OF e(1)] e(2) ranges_set [OF assms(3)] by (auto simp: gkeys_def)
  have ok: "gmap_ok (am_available m)" using assms(1) by (simp add: am_ok_def)
  have ids: "ids = map ap_PresignId aps" and pids: "pids = map (gget allPids) (str_Split ?k '','')"
    and av: "am_available m' = am_available m1" and lk: "am_locked m' = am_locked m1"
    using fin assms(6) selected_pids_found [OF assms(2,4) found]
    by (auto simp: finish_presigns_def Let_def split: prod.splits option.splits)
  have "None \<notin> set pids" using found unfolding pids by force
  then show ?thesis
    using stock_take_group [OF ok tk] ids pids av lk key by (auto simp: take_map)
qed

text \<open>
  What one call of \<open>GetAvailablePresigns\<close> returns: nothing, or exactly \<open>batchSize\<close> ids, the
  oldest ones of one group, with that group's parties, each of which is among the parties passed in;
  and these ids, no others, leave the stock.
\<close>

theorem GetAvailablePresigns_result:
  assumes "am_ok m" and "by_id allPids" and "ranges (am_available m) it" and "\<And>i. ranges allPids (its i)"
    and "GetAvailablePresigns db it its batchSize n allPids m = Ret ((ids, pids), m')" and "ids \<noteq> []"
  shows "\<exists>k. ids = take batchSize (map ap_PresignId (group_of (am_available m) k)) \<and> length ids = batchSize \<and>
    pids = map (gget allPids) (str_Split k '','') \<and> None \<notin> set pids \<and>
    stock (am_available m') + mset ids = stock (am_available m) \<and> am_locked m' = am_locked m"
  using call_result [OF assms] by blast

text \<open>
  A call that nothing else interleaves with finds presigns whenever there are some: if the lock is
  free, a group with a non-empty key fits, no group is filed under the empty key and the database
  accepts the update, then \<open>batchSize\<close> ids are returned.
\<close>

theorem GetAvailablePresigns_finds:
  assumes "am_ok m" and "ranges (am_available m) it" and "0 < batchSize"
    and "gget (am_available m) '''' = None" and "e \<in> set (am_available m)" and "group_fits batchSize allPids e"
    and "\<And>ids d. fst (db_UpdatePresignStatus db ids d) = None" and "\<not> am_locked m"
  shows "\<exists>r m'. GetAvailablePresigns db it its batchSize n allPids m = Ret (r, m') \<and> length (fst r) = batchSize"
proof -
  obtain e' where e': "find (group_fits batchSize allPids) it = Some e'"
    using assms(5,6) ranges_set [OF assms(2)] find_exists [of e it "group_fits batchSize allPids"] by auto
  then have mem: "e' \<in> set (am_available m)" and fits: "group_fits batchSize allPids e'"
    using ranges_set [OF assms(2)] by (auto dest: find_SomeD)
  then have "fst e' \<noteq> ''''" using assms(4) by (metis gget_None_iff gkeys_def imageI)
  moreover have grp: "group_of (am_available m) (fst e') = snd e'"
    using mem assms(1) gget_Some_iff [of "am_available m" "fst e'" "snd e'"] by (simp add: group_of_def am_ok_def)
  then obtain aps m1 where "take_group batchSize (fst e') m = (Some aps, m1)" "length aps = batchSize"
    using fits by (auto simp: take_group_def Let_def group_fits_def)
  moreover have "length (fst (fst (finish_presigns db its (fst e') aps m1))) = length aps"
    using assms(7) [of "map ap_PresignId aps" "am_db m1"]
    by (auto simp: finish_presigns_def Let_def split: prod.splits option.splits)
  ultimately show ?thesis using e' assms(8) by (simp add: GetAvailablePresigns_def Let_def select_group_def)
    (metis prod.collapse)
qed

subsection \<open>Concrete runs\<close>

definition sample_db :: "nat Database" where
  "sample_db = SqlDatabase \<lparr>KEY_TYPE_ECDSA = ''ecdsa'', KEY_TYPE_EDDSA = ''eddsa''\<rparr> idle_driver unary_json"

definition sample_presigners :: "party list" where
  "sample_presigners = [\<lparr>p_Id = ''b'', p_Moniker = '''', p_Key = 2, p_Index = 0\<rparr>,
                        \<lparr>p_Id = ''a'', p_Moniker = '''', p_Key = 1, p_Index = 1\<rparr>]"

definition sample_pids :: "(string, party) gmap" where
  "sample_pids = map (\<lambda>p. (p_Id p, p)) sample_presigners"

definition stocked :: "nat AvailablePresigns" where
  "stocked = AddPresign sample_db ''w'' sample_presigners [Some 7, Some 9, Some 11] (NewAvailPresignManager 0)"

lemma stocked_eq:
  "am_available stocked = [(''a,b'', new_presigns ''w'' sample_presigners 3)]"
  by code_simp

lemma sample_updates: "fst (db_UpdatePresignStatus sample_db ids d) = None"
  by (simp add: sample_db_def SqlDatabase_def UpdatePresignStatus_def idle_driver_def)

lemma sample_pids_ok: "by_id sample_pids"
  by (simp add: by_id_def gmap_ok_def sample_pids_def sample_presigners_def)

lemma sample_fits: "group_fits 2 sample_pids (''a,b'', new_presigns ''w'' sample_presigners 3)"
  by code_simp

lemma stocked_free: "\<not> am_locked stocked"
  by code_simp

theorem GetAvailablePresigns_finds_witness:
  "\<exists>r m'. GetAvailablePresigns sample_db (am_available stocked) (\<lambda>_. sample_pids) 2 2 sample_pids stocked = Ret (r, m') \<and>
     length (fst r) = 2"
  using sample_fits
  by (intro GetAvailablePresigns_finds)
    (simp_all add: stocked_eq am_ok_def gmap_ok_def gget_def sample_updates stocked_free)

text \<open>The manager after one call of two presigns.\<close>

definition restocked :: "nat AvailablePresigns" where
  "restocked = (case GetAvailablePresigns sample_db (am_available stocked) (\<lambda>_. sample_pids) 2 2 sample_pids stocked of
     Ret (r, m) \<Rightarrow> m | _ \<Rightarrow> stocked)"

theorem GetAvailablePresigns_result_witness:
  "\<exists>k. [''w-0'', ''w-1''] = take 2 (map ap_PresignId (group_of (am_available stocked) k)) \<and>
    length [''w-0'', ''w-1''] = 2 \<and>
    map (gget sample_pids) [''a'', ''b''] = map (gget sample_pids) (str_Split k '','') \<and>
    None \<notin> set (map (gget sample_pids) [''a'', ''b'']) \<and>
    stock (am_available restocked) + mset [''w-0'', ''w-1''] = stock (am_available stocked) \<and>
    am_locked restocked = am_locked stocked"
proof (rule GetAvailablePresigns_result)
  show "GetAvailablePresigns sample_db (am_available stocked) (\<lambda>_. sample_pids) 2 2 sample_pids stocked =
    Ret (([''w-0'', ''w-1''], map (gget sample_pids) [''a'', ''b'']), restocked)"
    by code_simp
qed (simp_all add: stocked_eq am_ok_def gmap_ok_def sample_pids_ok)

lemma locked_stuck:
  assumes "presign_step db s s'" and "am_locked (ps_m s)"
  shows "am_locked (ps_m s') \<and> am_available (ps_m s') = am_available (ps_m s) \<and> ps_selected s' = ps_selected s
    \<and> ps_returned s' = ps_returned s"
  using assms by (cases rule: presign_step.cases) (simp_all add: AddPresign_sel AddPresign_def)

text \<open>Two calls choose the only group; the first empties it.\<close>

definition raced0 :: "nat psys" where
  "raced0 = presign_start stocked"

definition raced1 :: "nat psys" where
  "raced1 = raced0\<lparr>ps_selected := (ps_selected raced0)(0 := Some (2, ''a,b''))\<rparr>"

definition raced2 :: "nat psys" where
  "raced2 = raced1\<lparr>ps_selected := (ps_selected raced1)(1 := Some (2, ''a,b''))\<rparr>"

definition first_taken :: "nat AvailablePresigns" where
  "first_taken = snd (finish_presigns sample_db (\<lambda>_. sample_pids) ''a,b''
     (take 2 (new_presigns ''w'' sample_presigners 3)) (snd (take_group 2 ''a,b'' stocked)))"

definition raced3 :: "nat psys" where
  "raced3 = raced2\<lparr>ps_m := first_taken, ps_selected := (ps_selected raced2)(0 := None),
     ps_taken := ps_taken raced2 + mset (map ap_PresignId (take 2 (new_presigns ''w'' sample_presigners 3))),
     ps_returned := ps_returned raced2 + mset [''w-0'', ''w-1'']\<rparr>"

lemma raced_select:
  assumes "ps_m s = stocked"
  shows "presign_step sample_db s (s\<lparr>ps_selected := (ps_selected s)(t := Some (2, ''a,b''))\<rparr>)"
proof (rule presign_step.Select)
  show "select_group 2 sample_pids (am_available stocked) = ''a,b''" by code_simp
  show "\<not> am_locked (ps_m s)" unfolding assms by code_simp
qed (simp_all add: assms)

lemma raced_take: "presign_step sample_db raced2 raced3"
proof -
  have m: "ps_m raced2 = stocked" by (simp add: raced2_def raced1_def raced0_def presign_start_def)
  show ?thesis unfolding raced3_def
  proof (rule presign_step.Take)
    show "\<not> am_locked (ps_m raced2)" unfolding m by code_simp
    show "ps_selected raced2 0 = Some (2, ''a,b'')" by (simp add: raced2_def raced1_def)
    show "take_group 2 ''a,b'' (ps_m raced2) =
      (Some (take 2 (new_presigns ''w'' sample_presigners 3)), snd (take_group 2 ''a,b'' stocked))"
      unfolding m by code_simp
    show "finish_presigns sample_db (\<lambda>_. sample_pids) ''a,b'' (take 2 (new_presigns ''w'' sample_presigners 3))
        (snd (take_group 2 ''a,b'' stocked)) = (([''w-0'', ''w-1''], map (gget sample_pids) [''a'', ''b'']), first_taken)"
      by code_simp
  qed
qed

lemma raced_reach: "presign_reach sample_db (presign_start stocked) raced3"
proof -
  have "presign_step sample_db raced0 raced1"
    unfolding raced1_def by (rule raced_select) (simp add: raced0_def presign_start_def)
  moreover have "presign_step sample_db raced1 raced2"
    unfolding raced2_def by (rule raced_select) (simp add: raced1_def raced0_def presign_start_def)
  ultimately show ?thesis
    unfolding presign_reach_def raced0_def [symmetric] using raced_take
    by (meson rtranclp.rtrancl_into_rtrancl rtranclp.rtrancl_refl)
qed

theorem presigns_never_reused_witness:
  "(\<forall>x. count (ps_returned raced3) x \<le> 1) \<and> ps_returned raced3 \<inter># stock (am_available (ps_m raced3)) = {#}"
proof (rule presigns_never_reused [OF raced_reach])
  have "stock (am_available stocked) = mset [''w-0'', ''w-1'', ''w-2'']" by code_simp
  then show "\<forall>x. count (stock (am_available stocked)) x \<le> 1"
    by auto
  show "distinct (ps_works raced3)" and "\<forall>w \<in> set (ps_works raced3). \<forall>i. presign_id w i \<notin># stock (am_available stocked)"
    by (simp_all add: raced3_def raced2_def raced1_def raced0_def presign_start_def)
qed (simp add: am_ok_def gmap_ok_def stocked_eq)

lemma locked_forever:
  assumes "presign_reach db s s'" and "am_locked (ps_m s)"
  shows "am_locked (ps_m s') \<and> am_available (ps_m s') = am_available (ps_m s) \<and> ps_selected s' = ps_selected s
    \<and> ps_returned s' = ps_returned s"
  using assms(1) unfolding presign_reach_def
proof (induction rule: rtranclp_induct)
  case (step t u)
  then show ?case using locked_stuck by metis
qed (simp add: assms(2))

text \<open>
  A lost race loses the lock for good: a call that has chosen a group of which another call
  has meanwhile left fewer than \<open>b\<close> presigns can only return with the write lock held. In every state
  that can follow, the lock is still held: nothing is added, nothing is taken, no id is returned.
\<close>

theorem presign_lock_leak:
  assumes "\<not> am_locked (ps_m s)" and "ps_selected s c = Some (b, k)"
    and "length (group_of (am_available (ps_m s)) k) < b"
  shows "\<exists>s'. presign_step db s s' \<and> ps_selected s' c = None \<and>
    (\<forall>s''. presign_reach db s' s'' \<longrightarrow> am_locked (ps_m s'') \<and>
      am_available (ps_m s'') = am_available (ps_m s) \<and> ps_returned s'' = ps_returned s)"
proof (intro exI conjI allI impI)
  let ?s = "s\<lparr>ps_m := (ps_m s)\<lparr>am_locked := True\<rparr>, ps_selected := (ps_selected s)(c := None)\<rparr>"
  show "presign_step db s ?s"
    using assms by (intro presign_step.Raced) (auto simp: take_group_def Let_def)
  show "ps_selected ?s c = None" by simp
  fix s'' assume "presign_reach db ?s s''"
  from locked_forever [OF this]
  show "am_locked (ps_m s'')" and "am_available (ps_m s'') = am_available (ps_m s)"
    and "ps_returned s'' = ps_returned s"
    by simp_all
qed

theorem presign_lock_leak_witness:
  "presign_reach sample_db (presign_start stocked) raced3 \<and>
   (\<exists>s'. presign_step sample_db raced3 s' \<and> ps_selected s' 1 = None \<and>
    (\<forall>s''. presign_reach sample_db s' s'' \<longrightarrow> am_locked (ps_m s'') \<and>
      am_available (ps_m s'') = am_available (ps_m raced3) \<and> ps_returned s'' = ps_returned raced3))"
proof (rule conjI [OF raced_reach], rule presign_lock_leak)
  have m: "ps_m raced3 = first_taken" by (simp add: raced3_def)
  show "\<not> am_locked (ps_m raced3)" unfolding m by code_simp
  show "ps_selected raced3 1 = Some (2, ''a,b'')" by (simp add: raced3_def raced2_def)
  show "length (group_of (am_available (ps_m raced3)) ''a,b'') < 2" unfolding m by code_simp
qed

subsection \<open>The contract the participant selection relies on\<close>

text \<open>
  A source of presigns: \<open>inv\<close> is an invariant of its state, \<open>q\<close> a lower bound on the number of
  parties that hold a presign. A call in a state with the invariant returns and keeps the invariant.
  A non-empty answer has the size asked for and names pairwise different parties among those passed
  in.
\<close>

locale presign_source =
  fixes gp :: "nat \<Rightarrow> int \<Rightarrow> (string, party) gmap \<Rightarrow> 'm \<Rightarrow> ((string list \<times> party option list) \<times> 'm) go"
    and inv :: "'m \<Rightarrow> bool"
    and q :: nat
  assumes gp_returns: "inv m \<Longrightarrow> by_id allPids \<Longrightarrow> \<exists>ids pids m'. gp b n allPids m = Ret ((ids, pids), m') \<and> inv m'"
    and gp_count: "inv m \<Longrightarrow> by_id allPids \<Longrightarrow> gp b n allPids m = Ret ((ids, pids), m') \<Longrightarrow> ids \<noteq> [] \<Longrightarrow>
      length ids = b"
    and gp_pids: "inv m \<Longrightarrow> by_id allPids \<Longrightarrow> gp b n allPids m = Ret ((ids, pids), m') \<Longrightarrow> ids \<noteq> [] \<Longrightarrow>
      \<exists>ks. distinct ks \<and> q \<le> length ks \<and> (\<forall>k \<in> set ks. gget allPids k \<noteq> None) \<and> pids = map (gget allPids) ks"
begin

lemma gp_parties:
  assumes "inv m" and "by_id allPids" and "gp b n allPids m = Ret ((ids, pids), m')" and "ids \<noteq> []"
  shows "\<exists>ps. pids = map Some ps \<and> distinct (map p_Id ps) \<and> q \<le> length ps \<and> set ps \<subseteq> snd ` set allPids"
proof -
  obtain ks where ks: "distinct ks" "q \<le> length ks" "\<forall>k \<in> set ks. gget allPids k \<noteq> None"
    "pids = map (gget allPids) ks"
    using gp_pids [OF assms] by blast
  let ?ps = "map (\<lambda>k. the (gget allPids k)) ks"
  have "map (gget allPids) ks = map Some ?ps" using ks(3) by auto
  moreover have "p_Id (the (gget allPids k)) = k" if mem: "k \<in> set ks" for k
  proof -
    obtain p where "gget allPids k = Some p" using ks(3) mem by auto
    then show ?thesis using assms(2) gget_in_set [of allPids k p] by (auto simp: by_id_def)
  qed
  then have "map p_Id ?ps = ks" by (simp add: map_idI)
  moreover have "set ?ps \<subseteq> snd ` set allPids"
  proof
    fix p assume "p \<in> set ?ps"
    then obtain k where "gget allPids k = Some p" using ks(3) by auto
    then show "p \<in> snd ` set allPids" by (auto dest: gget_in_set intro: rev_image_eqI)
  qed
  ultimately show ?thesis using ks by (metis length_map)
qed

end

text \<open>Every group of the manager names at least \<open>q\<close> parties, each once.\<close>

definition pm_inv :: "nat \<Rightarrow> 'd AvailablePresigns \<Rightarrow> bool" where
  "pm_inv q m \<longleftrightarrow> am_ok m \<and>
     (\<forall>k \<in> gkeys (am_available m). distinct (str_Split k '','') \<and> q \<le> length (str_Split k '',''))"

lemma pm_inv_take:
  assumes "pm_inv q m" and "k \<in> gkeys (am_available m)"
  shows "pm_inv q (snd (take_group b k m))"
  using assms by (auto simp: pm_inv_def am_ok_def take_group_def Let_def)

lemma pm_inv_finish: "pm_inv q m \<Longrightarrow> pm_inv q (snd (finish_presigns db its k aps m))"
  by (auto simp: pm_inv_def am_ok_def finish_presigns_def Let_def split: prod.splits option.splits)

lemma select_group_key:
  "ranges av it \<Longrightarrow> select_group b allPids it \<noteq> '''' \<Longrightarrow> select_group b allPids it \<in> gkeys av"
  by (auto simp: select_group_def gkeys_def ranges_set split: option.splits dest!: find_SomeD intro: rev_image_eqI)

text \<open>The group chosen is still large enough when no other call comes in between: the lock is not lost.\<close>

lemma select_group_size:
  assumes "gmap_ok av" and "ranges av it" and "select_group b allPids it \<noteq> ''''"
  shows "b \<le> length (group_of av (select_group b allPids it))"
proof -
  obtain e where e: "find (group_fits b allPids) it = Some e" "select_group b allPids it = fst e"
    using assms(3) by (auto simp: select_group_def split: option.splits)
  then have "e \<in> set av" and "group_fits b allPids e"
    using ranges_set [OF assms(2)] by (auto dest: find_SomeD)
  then show ?thesis
    using e(2) assms(1) gget_Some_iff [of av "fst e" "snd e"] by (simp add: group_of_def group_fits_def)
qed

lemma GetAvailablePresigns_returns:
  assumes "pm_inv q m" and "\<not> am_locked m" and "ranges (am_available m) it"
  shows "\<exists>ids pids m'. GetAvailablePresigns db it its b n allPids m = Ret ((ids, pids), m') \<and>
    pm_inv q m' \<and> \<not> am_locked m'"
proof (cases "select_group b allPids it = ''''")
  case False
  let ?k = "select_group b allPids it"
  have ok: "gmap_ok (am_available m)" using assms(1) by (simp add: pm_inv_def am_ok_def)
  have inv: "pm_inv q (snd (take_group b ?k m))"
    using pm_inv_take [OF assms(1) select_group_key [OF assms(3) False]] .
  obtain aps m1 where tk: "take_group b ?k m = (Some aps, m1)"
    using select_group_size [OF ok assms(3) False] by (simp add: take_group_def Let_def)
  obtain ids pids m' where fin: "finish_presigns db its ?k aps m1 = ((ids, pids), m')" by (metis surj_pair)
  have "\<not> am_locked m'"
    using finish_presigns_sel(3) [OF fin] stock_take_group(5) [OF ok tk] assms(2) by simp
  moreover have "pm_inv q m'" using inv pm_inv_finish [of q m1 db its ?k aps] by (simp add: tk fin)
  ultimately show ?thesis
    using False assms(2) by (simp add: GetAvailablePresigns_def Let_def tk fin)
qed (use assms in \<open>simp add: GetAvailablePresigns_def\<close>)

text \<open>A call on a manager whose lock was lost never returns.\<close>

lemma GetAvailablePresigns_locked: "am_locked m \<Longrightarrow> GetAvailablePresigns db it its b n allPids m = Hang"
  by (simp add: GetAvailablePresigns_def)

lemma GetAvailablePresigns_source:
  assumes "\<And>m. ranges (am_available m) (ord m)" and "\<And>allPids i. ranges allPids (its allPids i)"
  shows "presign_source (\<lambda>b n allPids m. GetAvailablePresigns db (ord m) (its allPids) b n allPids m)
    (\<lambda>m. pm_inv q m \<and> \<not> am_locked m) q"
proof (unfold_locales, goal_cases)
  case (1 m allPids b n)
  then show ?case using assms(1) by (intro GetAvailablePresigns_returns) auto
next
  case (2 m allPids b n ids pids m')
  then show ?case
    using call_result [OF _ 2(2) assms(1) assms(2) 2(3,4)] by (auto simp: pm_inv_def)
next
  case (3 m allPids b n ids pids m')
  then obtain k where "k \<in> gkeys (am_available m)" "pids = map (gget allPids) (str_Split k '','')" "None \<notin> set pids"
    using call_result [OF _ 3(2) assms(1) assms(2) 3(3,4)] by (auto simp: pm_inv_def)
  then show ?case
    using 3(1) by (intro exI [of _ "str_Split k '',''"]) (auto simp: pm_inv_def image_iff eq_commute [of None])
qed

interpretation stockroom: presign_source
  "\<lambda>b n allPids m. GetAvailablePresigns db (am_available m) (\<lambda>_. allPids) b n allPids m"
  "\<lambda>m. pm_inv q m \<and> \<not> am_locked m" q
  by (rule GetAvailablePresigns_source) simp_all

lemma pm_inv_New: "pm_inv q (NewAvailPresignManager d)" "\<not> am_locked (NewAvailPresignManager d)"
  by (simp_all add: pm_inv_def am_ok_def NewAvailPresignManager_def)

lemma pm_inv_AddPresign:
  assumes "pm_inv q m" and "distinct (map p_Id partyIds)" and "\<forall>p \<in> set partyIds. separable '','' (p_Id p)"
    and "partyIds \<noteq> []" and "q \<le> length partyIds"
  shows "pm_inv q (AddPresign db workId partyIds outputs m)"
proof -
  have "sort (map p_Id partyIds) \<noteq> []" using assms(4) by (metis length_0_conv length_map length_sort)
  then have "str_Split (GetPidString partyIds) '','' = sort (map p_Id partyIds)"
    using assms(3) unfolding GetPidString_def by (intro str_Split_Join) auto
  then show ?thesis
    using assms(1,2,5)
    by (auto simp: pm_inv_def am_ok_def AddPresign_def gmap_ok_add_group add_group_def split: prod.splits option.splits)
qed

end
