(* ===== verification/Available_Parties.thy ===== *)
theory Available_Parties
  imports Work_Request
begin

section \<open>Parties that answered: worker/available\_parties.go\<close>

text \<open>
  The set of parties that are available for a work, each with the number of jobs it can run.
  Operations that range over the map take the order of that loop as \<open>it\<close>.
\<close>

record partyInfo =
  pi_partyId :: party
  pi_maxJob :: int

type_synonym AvailableParties = "(string, partyInfo) gmap"

definition NewAvailableParties :: AvailableParties where
  "NewAvailableParties = []"

definition ap_add :: "party \<Rightarrow> int \<Rightarrow> AvailableParties \<Rightarrow> AvailableParties" where
  "ap_add p computingPower ap = gput (p_Id p) \<lparr>pi_partyId = p, pi_maxJob = computingPower\<rparr> ap"

definition ap_Length :: "AvailableParties \<Rightarrow> nat" where
  "ap_Length ap = length ap"

definition getParty :: "string \<Rightarrow> AvailableParties \<Rightarrow> party option" where
  "getParty pid ap = (case gget ap pid of None \<Rightarrow> None | Some info \<Rightarrow> Some (pi_partyId info))"

definition hasPartyId :: "string \<Rightarrow> AvailableParties \<Rightarrow> bool" where
  "hasPartyId pid ap \<longleftrightarrow> gget ap pid \<noteq> None"

text \<open>
  The loop appends until the slice has length \<open>n\<close>; the test comes after the append, so it never
  holds for \<open>n = 0\<close>. A negative capacity makes \<open>make\<close> panic.
\<close>

fun party_list :: "int \<Rightarrow> party \<Rightarrow> (string \<times> partyInfo) list \<Rightarrow> party list \<Rightarrow> party list" where
  "party_list n excludeParty [] arr = arr"
| "party_list n excludeParty ((_, info) # it) arr =
     (if p_Id (pi_partyId info) = p_Id excludeParty then party_list n excludeParty it arr
      else let arr' = arr @ [pi_partyId info] in
           if int (length arr') = n then arr' else party_list n excludeParty it arr')"

definition getPartyList :: "(string \<times> partyInfo) list \<Rightarrow> int \<Rightarrow> party \<Rightarrow> party list go" where
  "getPartyList it n excludeParty =
     (if n < 0 then Panic BadCapacity else Ret (party_list n excludeParty it []))"

definition getAllPartiesMap :: "AvailableParties \<Rightarrow> (string, party) gmap" where
  "getAllPartiesMap ap = map (\<lambda>(pid, info). (pid, pi_partyId info)) ap"

text \<open>\<open>sort.SliceStable\<close> by descending \<open>maxJob\<close>; \<open>arr[len(parties)-1]\<close> panics when nothing was picked.\<close>

definition getTopParties :: "(string \<times> partyInfo) list \<Rightarrow> int \<Rightarrow> (party list \<times> int) go" where
  "getTopParties it cnt =
     (let arr = sort_key (\<lambda>info. - pi_maxJob info) (map snd it);
          picked = take (nat cnt) arr
      in if picked = [] then Panic IndexOutOfRange
         else Ret (map pi_partyId picked, pi_maxJob (arr ! (length picked - 1))))"

subsection \<open>Laws\<close>

text \<open>Every party is filed under its own id.\<close>

definition ap_ok :: "AvailableParties \<Rightarrow> bool" where
  "ap_ok ap \<longleftrightarrow> gmap_ok ap \<and> (\<forall>(k, info) \<in> set ap. p_Id (pi_partyId info) = k)"

definition ap_parties :: "AvailableParties \<Rightarrow> party set" where
  "ap_parties ap = (\<lambda>e. pi_partyId (snd e)) ` set ap"

lemma ap_ok_New [simp]: "ap_ok NewAvailableParties"
  by (simp add: ap_ok_def NewAvailableParties_def)

lemma ap_ok_add [intro]: "ap_ok ap \<Longrightarrow> ap_ok (ap_add p c ap)"
  by (auto simp: ap_ok_def ap_add_def dest!: in_set_gput)

lemma ap_parties_ids: "ap_ok ap \<Longrightarrow> p_Id ` ap_parties ap = gkeys ap"
  unfolding ap_parties_def gkeys_def image_image by (rule image_cong) (auto simp: ap_ok_def)

lemma ap_parties_add: "ap_parties (ap_add p c ap) \<subseteq> insert p (ap_parties ap)"
  by (auto simp: ap_parties_def ap_add_def dest!: in_set_gput intro: rev_image_eqI)

lemma ap_Length_card: "ap_ok ap \<Longrightarrow> ap_Length ap = card (gkeys ap)"
  by (simp add: ap_ok_def ap_Length_def length_gmap)

lemma ap_parties_eq:
  assumes "ap_ok ap" and "ap_parties ap \<subseteq> P" and "inj_on p_Id P" and "p \<in> P" and "p_Id p \<in> gkeys ap"
  shows "p \<in> ap_parties ap"
proof -
  from assms(5) obtain q where "q \<in> ap_parties ap" "p_Id q = p_Id p"
    unfolding ap_parties_ids [OF assms(1), symmetric] by auto
  then show ?thesis using assms(2,3,4) by (metis inj_onD subsetD)
qed

lemma party_list_eq:
  assumes "int (length arr) < n"
  shows "party_list n x it arr =
    arr @ take (nat n - length arr) (filter (\<lambda>p. p_Id p \<noteq> p_Id x) (map (\<lambda>e. pi_partyId (snd e)) it))"
  using assms
proof (induction n x it arr rule: party_list.induct)
  case (2 n x k info it arr)
  show ?case
  proof (cases "p_Id (pi_partyId info) = p_Id x")
    case False
    have "nat n - length arr = Suc (nat n - length (arr @ [pi_partyId info]))" using "2.prems" by simp
    then show ?thesis
      using 2 False by (cases "int (length (arr @ [pi_partyId info])) = n") (auto simp: Let_def)
  qed (use 2 in simp)
qed simp

lemma party_list_zero:
  "int (length arr) \<ge> n \<Longrightarrow> party_list n x it arr =
     arr @ filter (\<lambda>p. p_Id p \<noteq> p_Id x) (map (\<lambda>e. pi_partyId (snd e)) it)"
  by (induction n x it arr rule: party_list.induct) (auto simp: Let_def)

text \<open>The parties other than \<open>x\<close>, in the order of the loop.\<close>

definition others :: "party \<Rightarrow> (string \<times> partyInfo) list \<Rightarrow> party list" where
  "others x it = filter (\<lambda>p. p_Id p \<noteq> p_Id x) (map (\<lambda>e. pi_partyId (snd e)) it)"

lemma getPartyList_eq:
  "0 \<le> n \<Longrightarrow> getPartyList it n x = Ret (if n = 0 then others x it else take (nat n) (others x it))"
  by (simp add: getPartyList_def others_def party_list_eq party_list_zero)

lemma others_props:
  assumes "ap_ok ap" and "ranges ap it"
  shows "distinct (map p_Id (others x it))"
    and "set (others x it) \<subseteq> ap_parties ap"
    and "length (others x it) = ap_Length ap - (if p_Id x \<in> gkeys ap then 1 else 0)"
proof -
  have ids: "map p_Id (map (\<lambda>e. pi_partyId (snd e)) it) = map fst it"
    using assms ranges_set [OF assms(2)] by (auto simp: ap_ok_def)
  have eq: "map p_Id (others x it) = filter (\<lambda>i. i \<noteq> p_Id x) (map fst it)"
    unfolding others_def ids [symmetric] by (simp add: filter_map comp_def)
  have dist: "distinct (map fst it)"
    using ranges_ok [OF assms(2)] assms(1) by (simp add: ap_ok_def gmap_ok_def)
  then show dist': "distinct (map p_Id (others x it))" unfolding eq by simp
  show "set (others x it) \<subseteq> ap_parties ap"
    using ranges_set [OF assms(2)] by (auto simp: others_def ap_parties_def)
  have "length (others x it) = card (set (filter (\<lambda>i. i \<noteq> p_Id x) (map fst it)))"
    using dist' unfolding eq by (metis distinct_card eq length_map)
  also have "set (filter (\<lambda>i. i \<noteq> p_Id x) (map fst it)) = gkeys ap - {p_Id x}"
    using ranges_keys [OF assms(2)] by (auto simp: gkeys_def)
  finally show "length (others x it) = ap_Length ap - (if p_Id x \<in> gkeys ap then 1 else 0)"
    using ap_Length_card [OF assms(1)] by (simp add: card_Diff_singleton_if)
qed

text \<open>
  With itself among the available parties and at least \<open>n > 0\<close> others, \<open>getPartyList\<close>
  returns exactly \<open>n\<close> pairwise different parties, all available, none of them the excluded one,
  whatever the order of the map loop.
\<close>

theorem getPartyList_exact:
  assumes "ap_ok ap" and "ranges ap it" and "p_Id me \<in> gkeys ap" and "0 < n" and "n + 1 \<le> int (ap_Length ap)"
  shows "\<exists>ps. getPartyList it n me = Ret ps \<and> int (length ps) = n \<and> distinct (map p_Id ps) \<and>
    set ps \<subseteq> ap_parties ap \<and> p_Id me \<notin> p_Id ` set ps"
proof -
  note o = others_props [OF assms(1,2), of me]
  have run: "getPartyList it n me = Ret (take (nat n) (others me it))"
    using assms(4) by (simp add: getPartyList_eq)
  have "int (length (take (nat n) (others me it))) = n"
    using o(3) assms(3,4,5) by simp
  moreover have "distinct (map p_Id (take (nat n) (others me it)))"
    using o(1) by (simp add: take_map [symmetric])
  moreover have "p_Id me \<notin> p_Id ` set (take (nat n) (others me it))"
    by (auto simp: others_def dest: in_set_takeD)
  ultimately show ?thesis using run o(2) set_take_subset by fastforce
qed

text \<open>The limit 0 is no limit: every other party is returned.\<close>

lemma getPartyList_zero: "getPartyList it 0 me = Ret (others me it)"
  by (simp add: getPartyList_eq)

lemma getTopParties_exact:
  assumes "ranges ap it" and "ap \<noteq> []" and "0 < cnt"
  shows "\<exists>ps j. getTopParties it cnt = Ret (ps, j) \<and> length ps = min (nat cnt) (ap_Length ap) \<and>
    (\<exists>top rest. mset (map snd ap) = mset (top @ rest) \<and> ps = map pi_partyId top \<and>
      (\<forall>i \<in> set top. j \<le> pi_maxJob i) \<and> (\<forall>i \<in> set rest. pi_maxJob i \<le> j))"
proof -
  let ?arr = "sort_key (\<lambda>info. - pi_maxJob info) (map snd it)"
  let ?n = "nat cnt" and ?top = "take (nat cnt) ?arr"
  let ?j = "pi_maxJob (?arr ! (length ?top - 1))"
  have len: "length ?arr = length ap" "?arr \<noteq> []"
    using ranges_length [OF assms(1)] assms(2) by (auto dest: arg_cong [where f = length])
  then have ne: "?top \<noteq> []" using assms(3) by simp
  have srt: "pi_maxJob (?arr ! l) \<le> pi_maxJob (?arr ! k)" if "k \<le> l" "l < length ?arr" for k l
    using sorted_nth_mono [OF sorted_sort_key [of "\<lambda>info. - pi_maxJob info" "map snd it"] that(1)] that by simp
  have "?j \<le> pi_maxJob i" if mem: "i \<in> set ?top" for i
  proof -
    obtain k where "k < length ?top" "i = ?arr ! k"
      using mem unfolding in_set_conv_nth by auto
    then show ?thesis using srt [of k "length ?top - 1"] by auto
  qed
  moreover have "pi_maxJob i \<le> ?j" if mem: "i \<in> set (drop ?n ?arr)" for i
  proof -
    obtain k where "k < length ?arr - ?n" "i = ?arr ! (?n + k)"
      using mem unfolding in_set_conv_nth by auto
    then show ?thesis using srt [of "length ?top - 1" "?n + k"] by auto
  qed
  moreover have "mset (map snd ap) = mset (?top @ drop ?n ?arr)"
    using assms(1) by (simp add: ranges_def)
  moreover have "getTopParties it cnt = Ret (map pi_partyId ?top, ?j)"
    using ne unfolding getTopParties_def Let_def by simp
  moreover have "length (map pi_partyId ?top) = min ?n (ap_Length ap)"
    using len(1) by (simp add: ap_Length_def min.commute)
  ultimately show ?thesis by blast
qed

subsection \<open>Concrete runs\<close>

definition four_available :: AvailableParties where
  "four_available = fold (\<lambda>(i, k) ap. ap_add \<lparr>p_Id = i, p_Moniker = '''', p_Key = k, p_Index = -1\<rparr> k ap)
     [(''a'', 1), (''b'', 2), (''c'', 3), (''d'', 4)] NewAvailableParties"

lemma four_available_ok: "ap_ok four_available"
  by (simp add: four_available_def ap_ok_add)

theorem getPartyList_exact_witness:
  "\<exists>ps. getPartyList (rev four_available) 2 \<lparr>p_Id = ''b'', p_Moniker = '''', p_Key = 2, p_Index = -1\<rparr> = Ret ps \<and>
    int (length ps) = 2 \<and> distinct (map p_Id ps) \<and> set ps \<subseteq> ap_parties four_available \<and>
    p_Id \<lparr>p_Id = ''b'', p_Moniker = '''', p_Key = 2, p_Index = -1\<rparr> \<notin> p_Id ` set ps"
proof (rule getPartyList_exact [OF four_available_ok])
  show "p_Id \<lparr>p_Id = ''b'', p_Moniker = '''', p_Key = 2, p_Index = -1\<rparr> \<in> gkeys four_available"
    by (simp add: four_available_def ap_add_def)
  show "2 + 1 \<le> int (ap_Length four_available)" by code_simp
qed (simp_all add: ranges_def)

end
