(* ===== verification/Prework_Selection.thy ===== *)
theory Prework_Selection
  imports Tss_Message Available_Parties Presign_Manager
begin

section \<open>Choosing the participants of a work: worker/prework\_selection.go\<close>

text \<open>
  Before a work runs, its leader collects the parties that are available and announces the
  participants; the members wait for the announcement. One function models one Go function.
  Messages sent and results reported are a list of actions; what a channel or a timer delivers is a
  list of events. The parameter \<open>hash\<close> is the hexadecimal SHA-256 digest of a string.
  \<open>GetAvailablePresigns\<close> is called through an interface: it is the parameter \<open>gp\<close> on a state of
  the presign manager, and the locale \<open>presign_source\<close> is its contract. A call of it that waits
  forever for the manager's lock keeps the leader waiting: the outcome \<open>Hang\<close>. The timeouts are in
  nanoseconds, as in core/config/timeout.go.
\<close>

record TimeoutConfig =
  tc_PresignJobTimeout :: int
  tc_KeygenJobTimeout :: int
  tc_SigningJobTimeout :: int
  tc_MonitorMessageTimeout :: int
  tc_SelectionLeaderTimeout :: int
  tc_SelectionMemberTimeout :: int

definition time_Second :: int where
  "time_Second = 1000000000"

definition NewDefaultTimeoutConfig :: TimeoutConfig where
  "NewDefaultTimeoutConfig =
     (let selectionLeaderTimeout = time_Second * 15;
          defaultJobTimeout = 3 * 60 * time_Second
      in \<lparr>tc_PresignJobTimeout = defaultJobTimeout, tc_KeygenJobTimeout = defaultJobTimeout,
          tc_SigningJobTimeout = defaultJobTimeout, tc_MonitorMessageTimeout = time_Second * 15,
          tc_SelectionLeaderTimeout = selectionLeaderTimeout + time_Second * 15,
          tc_SelectionMemberTimeout = selectionLeaderTimeout\<rparr>)"

text \<open>A party pointer in a result may be nil: the presign manager can leave holes.\<close>

record SelectionResult =
  sr_Success :: bool
  sr_IsNodeExcluded :: bool
  sr_PresignIds :: "string list"
  sr_SelectedPids :: "party option list"

definition failed_result :: SelectionResult where
  "failed_result = \<lparr>sr_Success = False, sr_IsNodeExcluded = False, sr_PresignIds = [], sr_SelectedPids = []\<rparr>"

datatype sel_action =
    Unicast party TssMessage
  | Broadcast "party list" TssMessage
  | Finished SelectionResult

record 'm PreworkSelection =
  pw_request :: WorkRequest
  pw_allParties :: "party list"
  pw_myPid :: party
  pw_leader :: party
  pw_presigns :: 'm
  pw_available :: AvailableParties
  pw_stopped :: bool
  pw_preExecMsgCh :: "PreExecOutputMessage option list"
  pw_memberResponseCh :: "TssMessage list"
  pw_cfg :: TimeoutConfig

definition ChooseLeader :: "(string \<Rightarrow> string) \<Rightarrow> string \<Rightarrow> party list \<Rightarrow> party go" where
  "ChooseLeader hash workId parties =
     (let hashes = map (\<lambda>p. hash (p_Id p @ workId)) parties;
          keyStore = fold (\<lambda>(i, h) m. gput h i m) (enumerate 0 hashes) []
      in go_bind (go_index (sort hashes) 0)
           (\<lambda>h. go_index parties (case gget keyStore h of None \<Rightarrow> 0 | Some i \<Rightarrow> i)))"

definition NewPreworkSelection ::
  "(string \<Rightarrow> string) \<Rightarrow> WorkRequest \<Rightarrow> party list \<Rightarrow> party \<Rightarrow> 'm \<Rightarrow> TimeoutConfig \<Rightarrow> 'm PreworkSelection go" where
  "NewPreworkSelection hash request allParties myPid presignsManager cfg =
     go_bind (ChooseLeader hash (wr_WorkId request) (wr_AllParties request)) (\<lambda>leader.
       Ret \<lparr>pw_request = request, pw_allParties = allParties, pw_myPid = myPid, pw_leader = leader,
            pw_presigns = presignsManager, pw_available = NewAvailableParties, pw_stopped = False,
            pw_preExecMsgCh = [], pw_memberResponseCh = [], pw_cfg = cfg\<rparr>)"

definition selection_Init :: "'m PreworkSelection \<Rightarrow> 'm PreworkSelection" where
  "selection_Init s = s\<lparr>pw_available := ap_add (pw_myPid s) 1 (pw_available s)\<rparr>"

definition selection_Stop :: "'m PreworkSelection \<Rightarrow> 'm PreworkSelection" where
  "selection_Stop s = s\<lparr>pw_stopped := True\<rparr>"

definition broadcastResult :: "SelectionResult \<Rightarrow> 'm PreworkSelection \<Rightarrow> sel_action list \<times> 'm PreworkSelection" where
  "broadcastResult result s = ([Finished result], s\<lparr>pw_stopped := True\<rparr>)"

subsection \<open>The leader\<close>

type_synonym order = "AvailableParties \<Rightarrow> (string \<times> partyInfo) list"
type_synonym 'm get_presigns =
  "nat \<Rightarrow> int \<Rightarrow> (string, party) gmap \<Rightarrow> 'm \<Rightarrow> ((string list \<times> party option list) \<times> 'm) go"

definition checkEnoughParticipants ::
  "'m get_presigns \<Rightarrow> order \<Rightarrow> 'm PreworkSelection \<Rightarrow>
   ((bool \<times> string list \<times> party option list) \<times> 'm PreworkSelection) go" where
  "checkEnoughParticipants gp ord s =
     (let request = pw_request s; available = pw_available s; it = ord available;
          with_me = (\<lambda>ps. map Some (ps @ [pw_myPid s]))
      in if int (ap_Length available) < GetMinPartyCount request then Ret ((False, [], []), s)
         else if IsEddsa request then
           go_bind (getPartyList it (GetMinPartyCount request - 1) (pw_myPid s))
             (\<lambda>parties. Ret ((True, [], with_me parties), s))
         else if IsSigning request \<and> wr_Messages request \<noteq> None then
           (let batchSize = go_len (wr_Messages request) in
            go_bind (gp batchSize (wr_N request) (getAllPartiesMap available) (pw_presigns s))
              (\<lambda>((presignIds, selectedPids), m').
                 let s' = s\<lparr>pw_presigns := m'\<rparr> in
                 if length presignIds = batchSize then Ret ((True, presignIds, selectedPids), s')
                 else if ap_Length available = length (pw_allParties s) then
                   go_bind (getPartyList it (wr_Threshold request) (pw_myPid s))
                     (\<lambda>selected. Ret ((True, [], with_me selected), s'))
                 else Ret ((False, [], []), s')))
         else
           go_bind (getPartyList it (GetMinPartyCount request - 1) (pw_myPid s))
             (\<lambda>parties. Ret ((True, [], with_me parties), s)))"

text \<open>\<open>NewPreExecOutputMessage\<close> reads the id of every selected party.\<close>

fun deref_all :: "'a option list \<Rightarrow> 'a list go" where
  "deref_all [] = Ret []"
| "deref_all (p # ps) = go_bind (go_deref p) (\<lambda>x. go_bind (deref_all ps) (\<lambda>xs. Ret (x # xs)))"

definition leaderFinalized ::
  "bool \<Rightarrow> string list \<Rightarrow> party option list \<Rightarrow> 'm PreworkSelection \<Rightarrow>
   (sel_action list \<times> 'm PreworkSelection) go" where
  "leaderFinalized success presignIds selectedPids s =
     (let workId = wr_WorkId (pw_request s); me = p_Id (pw_myPid s) in
      if \<not> success then
        (let msg = NewPreExecOutputMessage me '''' workId False [] [];
             (acts, s') = broadcastResult failed_result s
         in Ret (Broadcast (pw_allParties s) msg # acts, s'))
      else
        go_bind (deref_all selectedPids) (\<lambda>pids.
          let msg = NewPreExecOutputMessage me '''' workId True presignIds pids;
              (acts, s') = broadcastResult \<lparr>sr_Success = True, sr_IsNodeExcluded = False,
                             sr_PresignIds = presignIds, sr_SelectedPids = selectedPids\<rparr> s
          in Ret (Broadcast (pw_allParties s) msg # acts, s')))"

text \<open>
  What can wake the leader up: a response, the timer, or, at the head of the loop, the clock being
  past the deadline. Each event carries the orders of the map loops it may run.
\<close>

datatype leader_event = MemberResponse order TssMessage | TimerFires order | DeadlinePassed

definition known_party :: "string \<Rightarrow> 'm PreworkSelection \<Rightarrow> party option" where
  "known_party pid s = find (\<lambda>p. p_Id p = pid) (pw_allParties s)"

text \<open>\<open>None\<close>: the events given do not end the wait.\<close>

fun waitForMemberResponse ::
  "'m get_presigns \<Rightarrow> leader_event list \<Rightarrow> 'm PreworkSelection \<Rightarrow>
   ((string list \<times> party option list) result option \<times> 'm PreworkSelection) go" where
  "waitForMemberResponse gp [] s = Ret (None, s)"
| "waitForMemberResponse gp (DeadlinePassed # evs) s =
     Ret (Some (Inl ''cannot find enough members for this work''), s)"
| "waitForMemberResponse gp (TimerFires ord # evs) s =
     (if IsSigning (pw_request s) \<and> int (ap_Length (pw_available s)) \<ge> wr_Threshold (pw_request s) + 1
      then go_bind (getPartyList (ord (pw_available s)) (wr_Threshold (pw_request s)) (pw_myPid s))
             (\<lambda>selectedPids. Ret (Some (Inr ([], map Some (selectedPids @ [pw_myPid s]))), s))
      else Ret (Some (Inl ''timeout: cannot find enough members for this work''), s))"
| "waitForMemberResponse gp (MemberResponse ord tssMsg # evs) s =
     (case known_party (tm_From tssMsg) s of
        None \<Rightarrow> waitForMemberResponse gp evs s
      | Some party \<Rightarrow>
          go_bind (go_deref (tm_AvailabilityResponse tssMsg)) (\<lambda>response.
            if ar_Answer response = YES then
              go_bind (checkEnoughParticipants gp ord (s\<lparr>pw_available := ap_add party 1 (pw_available s)\<rparr>))
                (\<lambda>((ok, presignIds, selectedPids), s').
                   if ok then go_bind (deref_all selectedPids)
                                (\<lambda>_. Ret (Some (Inr (presignIds, selectedPids)), s'))
                   else waitForMemberResponse gp evs s')
            else waitForMemberResponse gp evs s))"

fun read_cache :: "TssMessage list \<Rightarrow> 'm PreworkSelection \<Rightarrow> 'm PreworkSelection go" where
  "read_cache [] s = Ret s"
| "read_cache (tssMsg # msgs) s =
     (if tm_Type tssMsg = AVAILABILITY_RESPONSE then
        go_bind (go_deref (tm_AvailabilityResponse tssMsg)) (\<lambda>response.
          read_cache msgs
            (if ar_Answer response = YES
             then (case known_party (tm_From tssMsg) s of
                     None \<Rightarrow> s
                   | Some p \<Rightarrow> s\<lparr>pw_available := ap_add p 1 (pw_available s)\<rparr>)
             else s))
      else read_cache msgs s)"

definition availability_queries :: "'m PreworkSelection \<Rightarrow> sel_action list" where
  "availability_queries s =
     map (\<lambda>p. Unicast p (NewAvailabilityRequestMessage (p_Id (pw_myPid s)) (p_Id p) (wr_WorkId (pw_request s))))
       (filter (\<lambda>p. p_Id p \<noteq> p_Id (pw_myPid s) \<and> getParty (p_Id p) (pw_available s) = None) (pw_allParties s))"

definition doPreExecutionAsLeader ::
  "'m get_presigns \<Rightarrow> order \<Rightarrow> leader_event list \<Rightarrow> TssMessage list \<Rightarrow> 'm PreworkSelection \<Rightarrow>
   (sel_action list \<times> 'm PreworkSelection) go" where
  "doPreExecutionAsLeader gp ord evs cachedMsgs s =
     go_bind (read_cache cachedMsgs s) (\<lambda>s0.
     go_bind (checkEnoughParticipants gp ord s0) (\<lambda>((success, presignIds, selectedPids), s1).
       if success then leaderFinalized True presignIds selectedPids s1
       else go_bind (waitForMemberResponse gp evs s1) (\<lambda>(r, s2).
         case r of
           None \<Rightarrow> Ret (availability_queries s1, s2)
         | Some (Inl err) \<Rightarrow>
             go_bind (leaderFinalized False [] [] s2) (\<lambda>(acts, s3). Ret (availability_queries s1 @ acts, s3))
         | Some (Inr (ids, pids)) \<Rightarrow>
             go_bind (leaderFinalized True ids pids s2) (\<lambda>(acts, s3). Ret (availability_queries s1 @ acts, s3)))))"

subsection \<open>The members\<close>

definition validateLeaderSelection :: "PreExecOutputMessage \<Rightarrow> 'm PreworkSelection \<Rightarrow> bool" where
  "validateLeaderSelection msg s =
     (if IsKeygen (pw_request s) \<and> length (pe_Pids msg) \<noteq> length (pw_allParties s) then False
      else if (IsKeygen (pw_request s) \<or> IsSigning (pw_request s)) \<and>
              int (length (pe_Pids msg)) < wr_Threshold (pw_request s) + 1 then False
      else \<forall>pid \<in> set (pe_Pids msg). GetPidFromString pid (pw_allParties s) \<noteq> None)"

definition memberFinalized ::
  "(string list \<Rightarrow> opaque list result) \<Rightarrow> PreExecOutputMessage option \<Rightarrow> 'm PreworkSelection \<Rightarrow>
   (sel_action list \<times> 'm PreworkSelection) go" where
  "memberFinalized loadPresign msg s =
     go_bind (go_deref msg) (\<lambda>msg.
       if pe_Success msg then
         if \<not> validateLeaderSelection msg s then Ret (broadcastResult failed_result s)
         else
           (let join = (\<exists>participant \<in> set (pe_Pids msg). p_Id (pw_myPid s) = participant);
                pIDs = map (\<lambda>participant. GetPidFromString participant (pw_allParties s)) (pe_Pids msg);
                result = \<lparr>sr_Success = True, sr_IsNodeExcluded = False, sr_PresignIds = [], sr_SelectedPids = pIDs\<rparr>
            in if join then
                 if IsKeygen (pw_request s) \<or> (IsSigning (pw_request s) \<and> length (pe_PresignIds msg) = 0)
                 then Ret (broadcastResult result s)
                 else if IsSigning (pw_request s) \<and> length (pe_PresignIds msg) > 0 then
                   (case loadPresign (pe_PresignIds msg) of
                      Inl err \<Rightarrow> Ret (broadcastResult failed_result s)
                    | Inr signingInput \<Rightarrow>
                        if length signingInput = 0 then Ret (broadcastResult failed_result s)
                        else Ret (broadcastResult (result\<lparr>sr_PresignIds := pe_PresignIds msg\<rparr>) s))
                 else Ret ([], s)
               else Ret (broadcastResult (result\<lparr>sr_IsNodeExcluded := True\<rparr>) s))
       else Ret (broadcastResult failed_result s))"

text \<open>What ends the member's wait: the timer, or a message from its channel.\<close>

datatype member_event = MemberTimeout | LeaderOutput "PreExecOutputMessage option"

definition doPreExecutionAsMember ::
  "(string list \<Rightarrow> opaque list result) \<Rightarrow> party \<Rightarrow> TssMessage list \<Rightarrow> member_event \<Rightarrow> 'm PreworkSelection \<Rightarrow>
   (sel_action list \<times> 'm PreworkSelection) go" where
  "doPreExecutionAsMember loadPresign leader cachedMsgs ev s =
     (case find (\<lambda>msg. tm_Type msg = PRE_EXEC_OUTPUT) cachedMsgs of
        Some msg \<Rightarrow> memberFinalized loadPresign (tm_PreExecOutput msg) s
      | None \<Rightarrow>
          (let tssMsg = NewAvailabilityResponseMessage (p_Id (pw_myPid s)) (p_Id leader) (wr_WorkId (pw_request s)) YES 1
           in case ev of
                MemberTimeout \<Rightarrow>
                  (let (acts, s') = broadcastResult failed_result s in Ret (Unicast leader tssMsg # acts, s'))
              | LeaderOutput msg \<Rightarrow>
                  go_bind (memberFinalized loadPresign msg s)
                    (\<lambda>(acts, s'). Ret (Unicast leader tssMsg # acts, s'))))"

definition selection_Run ::
  "'m get_presigns \<Rightarrow> (string list \<Rightarrow> opaque list result) \<Rightarrow> order \<Rightarrow> leader_event list \<Rightarrow> member_event \<Rightarrow>
   TssMessage list \<Rightarrow> 'm PreworkSelection \<Rightarrow> (sel_action list \<times> 'm PreworkSelection) go" where
  "selection_Run gp loadPresign ord evs ev cachedMsgs s =
     (if p_Id (pw_myPid s) = p_Id (pw_leader s) then doPreExecutionAsLeader gp ord evs cachedMsgs s
      else doPreExecutionAsMember loadPresign (pw_leader s) cachedMsgs ev s)"

subsection \<open>Messages during the selection\<close>

text \<open>
  A send on a full channel blocks the caller: the outcome \<open>Blocked\<close>. \<open>preExecMsgCh\<close> has room for
  one message, \<open>memberResponseCh\<close> for one per party.
\<close>

datatype 'a sending = Sent 'a | Blocked

definition onPreExecutionRequest :: "TssMessage \<Rightarrow> 'm PreworkSelection \<Rightarrow> sel_action list result" where
  "onPreExecutionRequest tssMsg s =
     (case GetPartyIdFromString (tm_From tssMsg) (pw_allParties s) of
        Some sender \<Rightarrow>
          Inr [Unicast sender (NewAvailabilityResponseMessage (p_Id (pw_myPid s)) (tm_From tssMsg)
                 (wr_WorkId (pw_request s)) YES 1)]
      | None \<Rightarrow> Inl (''cannot find party with id '' @ tm_From tssMsg))"

definition onPreExecutionResponse :: "TssMessage \<Rightarrow> 'm PreworkSelection \<Rightarrow> 'm PreworkSelection sending" where
  "onPreExecutionResponse tssMsg s =
     (if length (pw_memberResponseCh s) < length (pw_allParties s)
      then Sent (s\<lparr>pw_memberResponseCh := pw_memberResponseCh s @ [tssMsg]\<rparr>) else Blocked)"

definition selection_ProcessNewMessage ::
  "TssMessage \<Rightarrow> 'm PreworkSelection \<Rightarrow> (string option \<times> sel_action list \<times> 'm PreworkSelection) sending" where
  "selection_ProcessNewMessage tssMsg s =
     (case tm_Type tssMsg of
        AVAILABILITY_REQUEST \<Rightarrow>
          (case onPreExecutionRequest tssMsg s of
             Inl err \<Rightarrow> Sent (Some (''error when processing execution request '' @ err), [], s)
           | Inr acts \<Rightarrow> Sent (None, acts, s))
      | AVAILABILITY_RESPONSE \<Rightarrow>
          (case onPreExecutionResponse tssMsg s of
             Blocked \<Rightarrow> Blocked
           | Sent s' \<Rightarrow> Sent (None, [], s'))
      | PRE_EXEC_OUTPUT \<Rightarrow>
          if length (pw_preExecMsgCh s) < 1
          then Sent (None, [], s\<lparr>pw_preExecMsgCh := pw_preExecMsgCh s @ [tm_PreExecOutput tssMsg]\<rparr>)
          else Blocked
      | _ \<Rightarrow> Sent (Some (''defaultPreworkSelection: invalid message '' @ TssMessage_Type_String (tm_Type tssMsg)), [], s))"

subsection \<open>The leader is the same on every node\<close>

lemma keyStore_lookup:
  assumes "h \<in> set hashes"
  shows "\<exists>i < length hashes. gget (fold (\<lambda>(i, h) m. gput h i m) (enumerate 0 hashes) []) h = Some i \<and> hashes ! i = h"
  using assms
proof (induction hashes rule: rev_induct)
  case (snoc x hs)
  show ?case
  proof (cases "h = x")
    case True
    then show ?thesis by (simp add: enumerate_append_eq)
  next
    case False
    then obtain i where "i < length hs" "gget (fold (\<lambda>(i, h) m. gput h i m) (enumerate 0 hs) []) h = Some i" "hs ! i = h"
      using snoc by auto
    then show ?thesis using False by (intro exI [of _ i]) (simp add: enumerate_append_eq nth_append)
  qed
qed simp

lemma sort_hd_min:
  assumes "xs \<noteq> []"
  shows "sort xs ! 0 \<in> set xs" and "x \<in> set xs \<Longrightarrow> sort xs ! 0 \<le> (x :: 'a :: linorder)"
proof -
  have ne: "sort xs \<noteq> []" using assms by (metis set_empty set_sort)
  then show "sort xs ! 0 \<in> set xs" by (metis length_greater_0_conv nth_mem set_sort)
  assume "x \<in> set xs"
  then obtain i where "i < length (sort xs)" "x = sort xs ! i" by (metis in_set_conv_nth set_sort)
  then show "sort xs ! 0 \<le> x" using sorted_nth_mono [OF sorted_sort, of 0 i xs] by simp
qed

lemma ChooseLeader_min:
  assumes "parties \<noteq> []"
  shows "\<exists>p \<in> set parties. ChooseLeader hash w parties = Ret p \<and>
    (\<forall>p' \<in> set parties. hash (p_Id p @ w) \<le> hash (p_Id p' @ w))"
proof -
  let ?hs = "map (\<lambda>p. hash (p_Id p @ w)) parties"
  have ne: "?hs \<noteq> []" using assms by simp
  obtain i where i: "i < length ?hs" "?hs ! i = sort ?hs ! 0"
    "gget (fold (\<lambda>(i, h) m. gput h i m) (enumerate 0 ?hs) []) (sort ?hs ! 0) = Some i"
    using keyStore_lookup [OF sort_hd_min(1) [OF ne]] by blast
  have "ChooseLeader hash w parties = Ret (parties ! i)"
    using i assms by (simp add: ChooseLeader_def Let_def go_simps)
  moreover have "hash (p_Id (parties ! i) @ w) \<le> hash (p_Id p' @ w)" if "p' \<in> set parties" for p'
    using sort_hd_min(2) [OF ne, of "hash (p_Id p' @ w)"] i(1,2) that by simp
  ultimately show ?thesis using i(1) by (intro bexI [of _ "parties ! i"]) auto
qed

lemma leader_agreement:
  assumes "parties \<noteq> []" and "p_Id ` set parties = p_Id ` set parties'"
    and "inj_on (\<lambda>i. hash (i @ workId)) (p_Id ` set parties)"
  shows "\<exists>p p'. ChooseLeader hash workId parties = Ret p \<and> ChooseLeader hash workId parties' = Ret p' \<and>
    p \<in> set parties \<and> p' \<in> set parties' \<and> p_Id p = p_Id p'"
proof -
  have "parties' \<noteq> []" using assms(1,2) by auto
  then obtain p p' where p: "p \<in> set parties" "ChooseLeader hash workId parties = Ret p"
      "\<forall>r \<in> set parties. hash (p_Id p @ workId) \<le> hash (p_Id r @ workId)"
    and p': "p' \<in> set parties'" "ChooseLeader hash workId parties' = Ret p'"
      "\<forall>r \<in> set parties'. hash (p_Id p' @ workId) \<le> hash (p_Id r @ workId)"
    using ChooseLeader_min [OF assms(1), of hash workId] ChooseLeader_min [of parties' hash workId] by blast
  have "p_Id p' \<in> p_Id ` set parties" "p_Id p \<in> p_Id ` set parties'" using p(1) p'(1) assms(2) by auto
  then have "hash (p_Id p @ workId) = hash (p_Id p' @ workId)"
    using p(3) p'(3) by (metis (no_types, lifting) antisym imageE)
  then have "p_Id p = p_Id p'"
    using assms(3) p(1) \<open>p_Id p' \<in> p_Id ` set parties\<close> by (auto dest: inj_onD)
  then show ?thesis using p p' by blast
qed

text \<open>
  C4. All nodes choose the same leader for a work: for every non-empty list of parties, in any
  order and with repetitions, the leader is a party of the list, and two nodes that know the same
  ids choose the same id, if no two of these ids have the same digest for the work.
\<close>

theorem ChooseLeader_agreement:
  assumes "parties \<noteq> []" and "p_Id ` set parties = p_Id ` set parties'"
    and "inj_on (\<lambda>i. hash (i @ workId)) (p_Id ` set parties)"
  shows "\<exists>p p'. ChooseLeader hash workId parties = Ret p \<and> ChooseLeader hash workId parties' = Ret p' \<and>
    p \<in> set parties \<and> p' \<in> set parties' \<and> p_Id p = p_Id p'"
  using assms by (rule leader_agreement)

theorem ChooseLeader_agreement_witness:
  "\<exists>p p'. ChooseLeader rev ''w'' (map snd sample_pids) = Ret p \<and>
    ChooseLeader rev ''w'' (rev (map snd sample_pids)) = Ret p' \<and>
    p \<in> set (map snd sample_pids) \<and> p' \<in> set (rev (map snd sample_pids)) \<and> p_Id p = p_Id p'"
  by (rule ChooseLeader_agreement) (auto simp: sample_pids_def sample_presigners_def inj_on_def)

subsection \<open>Invariant of a selection\<close>

text \<open>
  The parties have different ids, this node is one of them, the available parties are among them
  and include this node once \<open>Init\<close> has run.
\<close>

definition sel_ok :: "'m PreworkSelection \<Rightarrow> bool" where
  "sel_ok s \<longleftrightarrow> distinct (map p_Id (pw_allParties s)) \<and> pw_myPid s \<in> set (pw_allParties s) \<and>
     ap_ok (pw_available s) \<and> ap_parties (pw_available s) \<subseteq> set (pw_allParties s) \<and>
     p_Id (pw_myPid s) \<in> gkeys (pw_available s)"



lemma sel_ok_presigns [simp]: "sel_ok (s\<lparr>pw_presigns := m\<rparr>) = sel_ok s"
  by (simp add: sel_ok_def)





subsection \<open>Decisions of the leader\<close>


definition same_work :: "'m PreworkSelection \<Rightarrow> 'k PreworkSelection \<Rightarrow> bool" where
  "same_work s s' \<longleftrightarrow> pw_request s' = pw_request s \<and> pw_allParties s' = pw_allParties s \<and> pw_myPid s' = pw_myPid s"

lemma same_work_simps [simp]: "same_work s s" "same_work s (s'\<lparr>pw_available := a\<rparr>) = same_work s s'"
  "same_work s (s'\<lparr>pw_presigns := m\<rparr>) = same_work s s'" "same_work s (s'\<lparr>pw_stopped := b\<rparr>) = same_work s s'"
  by (simp_all add: same_work_def)







lemma deref_all_Some [simp]: "deref_all (map Some ps) = Ret ps"
  by (induction ps) (auto simp: go_simps)
















subsection \<open>Members follow the leader\<close>

lemma GetPidFromString_distinct:
  assumes "distinct (map p_Id ps)" and "p \<in> set ps"
  shows "GetPidFromString (p_Id p) ps = Some p"
proof -
  obtain p' where p': "GetPidFromString (p_Id p) ps = Some p'"
    using find_party_None [of "p_Id p" ps] assms(2) by fastforce
  then have "p' \<in> set ps" "p_Id p' = p_Id p" using find_party_Some by blast+
  then have "p' = p" using assms by (metis distinct_map inj_onD)
  with p' show ?thesis by simp
qed




subsection \<open>Selections with the presign manager\<close>

text \<open>The call the selection makes on the manager, for given orders of the manager's map loops.\<close>

definition manager_presigns ::
  "'d Database \<Rightarrow> ('d AvailablePresigns \<Rightarrow> (string \<times> AvailablePresign list) list) \<Rightarrow>
   ((string, party) gmap \<Rightarrow> nat \<Rightarrow> (string \<times> party) list) \<Rightarrow> 'd AvailablePresigns get_presigns" where
  "manager_presigns db mord its = (\<lambda>b n allPids m. GetAvailablePresigns db (mord m) (its allPids) b n allPids m)"


text \<open>
  Without the lock there is no decision: for an ECDSA signing with messages, once enough parties are
  available the leader asks a manager whose lock was lost, and waits forever.
\<close>

lemma leader_waits_for_lost_lock:
  assumes "am_locked (pw_presigns s)" and "\<not> IsEddsa (pw_request s)" and "IsSigning (pw_request s)"
    and "wr_Messages (pw_request s) \<noteq> None" and "GetMinPartyCount (pw_request s) \<le> int (ap_Length (pw_available s))"
  shows "doPreExecutionAsLeader (manager_presigns db mord its) ord evs [] s = Hang"
  using assms
  by (simp add: doPreExecutionAsLeader_def checkEnoughParticipants_def manager_presigns_def
    GetAvailablePresigns_locked Let_def)



text \<open>
  A message without its body stops the node: an availability response of a known party without
  its nested message panics the waiting leader, and a pre-execution output without its nested
  message panics the member that takes it.
\<close>

theorem bodyless_message_panics:
  assumes "known_party (tm_From msg) s = Some p" and "tm_AvailabilityResponse msg = None"
  shows "waitForMemberResponse gp (MemberResponse ord msg # evs) s = Panic NilDereference \<and>
    memberFinalized loadPresign None t = Panic NilDereference"
  using assms by (simp add: memberFinalized_def go_simps)

text \<open>
  A member does not notice repeated participants: for a signing work, a selection that
  names this node \<open>n\<close> times and nobody else is accepted and reported as a success for every \<open>n\<close>
  above the threshold.
\<close>

theorem repeated_participants_accepted:
  assumes "IsSigning (pw_request s)" and "pw_myPid s \<in> set (pw_allParties s)"
    and "distinct (map p_Id (pw_allParties s))" and "0 < n" and "wr_Threshold (pw_request s) + 1 \<le> int n"
  shows "memberFinalized loadPresign
      (Some \<lparr>pe_Success = True, pe_Pids = replicate n (p_Id (pw_myPid s)), pe_PresignIds = []\<rparr>) s =
    Ret ([Finished \<lparr>sr_Success = True, sr_IsNodeExcluded = False, sr_PresignIds = [],
                    sr_SelectedPids = replicate n (Some (pw_myPid s))\<rparr>], s\<lparr>pw_stopped := True\<rparr>)"
  using assms kinds_exclusive(1) [of "pw_request s"] GetPidFromString_distinct [OF assms(3,2)]
  by (simp add: memberFinalized_def go_simps validateLeaderSelection_def broadcastResult_def Let_def)

text \<open>A member gives up 15 seconds before the leader's own wait ends.\<close>

lemma member_timeout_before_leader:
  "tc_SelectionLeaderTimeout NewDefaultTimeoutConfig = tc_SelectionMemberTimeout NewDefaultTimeoutConfig + 15 * time_Second"
  by (simp add: NewDefaultTimeoutConfig_def Let_def time_Second_def)

text \<open>A second announcement fills no channel: the send blocks until the first is read.\<close>

lemma second_output_blocks:
  "tm_Type msg = PRE_EXEC_OUTPUT \<Longrightarrow> pw_preExecMsgCh s \<noteq> [] \<Longrightarrow> selection_ProcessNewMessage msg s = Blocked"
  by (simp add: selection_ProcessNewMessage_def)

subsection \<open>Concrete runs\<close>

definition abc :: "party list" where
  "abc = map (\<lambda>(i, k). \<lparr>p_Id = i, p_Moniker = '''', p_Key = k, p_Index = k\<rparr>) [(''a'', 0), (''b'', 1), (''c'', 2)]"

definition selection_of :: "WorkRequest \<Rightarrow> nat \<Rightarrow> nat AvailablePresigns PreworkSelection" where
  "selection_of r i = selection_Init \<lparr>pw_request = r, pw_allParties = abc, pw_myPid = abc ! i, pw_leader = abc ! 0,
     pw_presigns = NewAvailPresignManager 0, pw_available = NewAvailableParties, pw_stopped = False,
     pw_preExecMsgCh = [], pw_memberResponseCh = [], pw_cfg = NewDefaultTimeoutConfig\<rparr>"

definition abc_keygen :: WorkRequest where
  "abc_keygen = NewEcKeygenRequest ref_lib ''ecdsa'' ''w'' abc (GetThreshold 3) None"

definition abc_signing :: WorkRequest where
  "abc_signing = NewEcSigningRequest ref_lib ''w'' abc (GetThreshold 3) (Some [Some [1]]) (Some [''eth'']) (Some 5)"

definition yes_from :: "string \<Rightarrow> TssMessage" where
  "yes_from i = NewAvailabilityResponseMessage i ''a'' ''w'' YES 1"

definition two_answers :: "leader_event list" where
  "two_answers = [MemberResponse id (yes_from ''b''), MemberResponse rev (yes_from ''c''), TimerFires id]"


lemma abc_selection_sel [simp]: "pw_request (selection_of r i) = r" "pw_allParties (selection_of r i) = abc"
  "pw_presigns (selection_of r i) = NewAvailPresignManager 0" "pw_myPid (selection_of r i) = abc ! i"
  by (simp_all add: selection_of_def selection_Init_def)






theorem bodyless_message_panics_witness:
  "waitForMemberResponse (manager_presigns sample_db am_available (\<lambda>ps i. ps))
      (MemberResponse id (baseMessage AVAILABILITY_RESPONSE ''b'' ''a'' ''w'') # [TimerFires id])
      (selection_of abc_keygen 0) = Panic NilDereference \<and>
    memberFinalized (\<lambda>_. Inr []) None (selection_of abc_keygen 1) = Panic NilDereference"
proof (rule bodyless_message_panics)
  show "known_party (tm_From (baseMessage AVAILABILITY_RESPONSE ''b'' ''a'' ''w'')) (selection_of abc_keygen 0) = Some (abc ! 1)"
    by code_simp
qed (simp add: baseMessage_def)

theorem repeated_participants_accepted_witness:
  "memberFinalized (\<lambda>_. Inr [])
      (Some \<lparr>pe_Success = True, pe_Pids = replicate 2 (p_Id (pw_myPid (selection_of abc_signing 1))), pe_PresignIds = []\<rparr>)
      (selection_of abc_signing 1) =
    Ret ([Finished \<lparr>sr_Success = True, sr_IsNodeExcluded = False, sr_PresignIds = [],
                    sr_SelectedPids = replicate 2 (Some (pw_myPid (selection_of abc_signing 1)))\<rparr>],
         (selection_of abc_signing 1)\<lparr>pw_stopped := True\<rparr>)"
proof (rule repeated_participants_accepted)
  show "IsSigning (pw_request (selection_of abc_signing 1))" by code_simp
  show "wr_Threshold (pw_request (selection_of abc_signing 1)) + 1 \<le> int 2" by code_simp
qed (simp_all add: abc_def)

text \<open>A presign that \<open>b\<close> and \<open>c\<close> hold without the leader \<open>a\<close>.\<close>

definition bc_selection :: "nat AvailablePresigns PreworkSelection" where
  "bc_selection = (selection_of abc_signing 0)
     \<lparr>pw_presigns := AddPresign sample_db ''p'' [abc ! 1, abc ! 2] [Some 7] (NewAvailPresignManager 0)\<rparr>"

lemma bc_selection_run:
  "case doPreExecutionAsLeader (manager_presigns sample_db am_available (\<lambda>ps i. ps)) id two_answers [] bc_selection of
     Ret (acts, s') \<Rightarrow> last acts = Finished \<lparr>sr_Success = True, sr_IsNodeExcluded = False, sr_PresignIds = [''p-0''],
                                       sr_SelectedPids = [Some (abc ! 1), Some (abc ! 2)]\<rparr> \<and> acts \<noteq> []
   | _ \<Rightarrow> False"
  by code_simp

text \<open>
  A leader can select a presign group it does not belong to: it then reports a success that
  does not mark it as excluded, although it is not among the selected parties, so its worker goes on
  to run the protocol.
\<close>

theorem leader_selects_without_itself:
  "\<exists>acts s' r. doPreExecutionAsLeader (manager_presigns sample_db am_available (\<lambda>ps i. ps)) id two_answers [] bc_selection =
      Ret (acts, s') \<and> Finished r \<in> set acts \<and> sr_Success r \<and> \<not> sr_IsNodeExcluded r \<and>
    p_Id (pw_myPid bc_selection) \<notin> (\<lambda>p. p_Id (the p)) ` set (sr_SelectedPids r)"
proof -
  let ?r = "\<lparr>sr_Success = True, sr_IsNodeExcluded = False, sr_PresignIds = [''p-0''],
             sr_SelectedPids = [Some (abc ! 1), Some (abc ! 2)]\<rparr>"
  obtain acts s' where "doPreExecutionAsLeader (manager_presigns sample_db am_available (\<lambda>ps i. ps)) id two_answers []
      bc_selection = Ret (acts, s')" "Finished ?r \<in> set acts"
    using bc_selection_run last_in_set by (fastforce split: go.split_asm)
  moreover have "p_Id (pw_myPid bc_selection) \<notin> (\<lambda>p. p_Id (the p)) ` set (sr_SelectedPids ?r)"
    by (simp add: bc_selection_def abc_def)
  ultimately show ?thesis by (intro exI [of _ acts] exI [of _ s'] exI [of _ ?r]) simp
qed

end
