(* ===== verification/Job.thy ===== *)
theory Job
  imports Message_Rounds Tss_Message
begin

section \<open>Jobs: worker/job.go, worker/helper/tss\_updater.go, worker/helper.go\<close>

text \<open>
  A job runs one instance of a TSS protocol: it owns a party of the TSS library, forwards the
  messages the party emits and reports its result. The library's parties are a type \<open>'p\<close> with the
  operations in \<open>tss_party\<close>; save data, presign data and signatures are opaque.
\<close>

record 'p tss_party =
  py_PartyID :: "'p \<Rightarrow> party"
  py_Start :: "'p \<Rightarrow> string option \<times> 'p"
  py_Parse :: "bytes \<Rightarrow> party \<Rightarrow> bool \<Rightarrow> (tss_msg \<times> MessageContent) result"
  py_Update :: "tss_msg \<times> MessageContent \<Rightarrow> 'p \<Rightarrow> string option \<times> 'p"

text \<open>There is one kind of failure; as the zero value it also stands in every successful result.\<close>

datatype JobFailure = JobFailureTimeout

record JobResult =
  jr_Success :: bool
  jr_Failure :: JobFailure
  jr_EcKeygen :: "opaque option"
  jr_EcPresign :: "opaque option"
  jr_EcSigning :: "opaque option"
  jr_EdKeygen :: "opaque option"
  jr_EdSigning :: "opaque option"

definition no_result :: "bool \<Rightarrow> JobResult" where
  "no_result b = \<lparr>jr_Success = b, jr_Failure = JobFailureTimeout, jr_EcKeygen = None, jr_EcPresign = None,
                  jr_EcSigning = None, jr_EdKeygen = None, jr_EdSigning = None\<rparr>"

text \<open>The end channel a job has: which one depends on the constructor, the others are nil and never ready.\<close>

datatype end_channel = EcEndKeygen | EcEndSigning | EdEndKeygen | EdEndSigning

record 'p Job =
  job_workId :: string
  job_jobType :: WorkType
  job_index :: nat
  job_party :: 'p
  job_timeOut :: int
  job_chain :: string
  job_hasPresignData :: bool
  job_endCh :: end_channel
  job_finishedMsgs :: "(string, bool) gmap"
  job_doneOutCh :: bool
  job_doneEndCh :: bool

definition baseJob :: "string \<Rightarrow> nat \<Rightarrow> 'p \<Rightarrow> WorkType \<Rightarrow> int \<Rightarrow> end_channel \<Rightarrow> 'p Job" where
  "baseJob workId index party jobType timeOut endCh =
     \<lparr>job_workId = workId, job_jobType = jobType, job_index = index, job_party = party, job_timeOut = timeOut,
      job_chain = '''', job_hasPresignData = False, job_endCh = endCh, job_finishedMsgs = [], job_doneOutCh = False,
      job_doneEndCh = False\<rparr>"

text \<open>The constructors of the library's local parties.\<close>

record 'p new_party =
  np_EcKeygen :: "opaque \<Rightarrow> 'p"
  np_EcSigning :: "nat option \<Rightarrow> opaque \<Rightarrow> opaque option \<Rightarrow> 'p"
  np_EdKeygen :: 'p
  np_EdSigning :: "nat \<Rightarrow> opaque \<Rightarrow> 'p"

text \<open>\<open>big.Int.SetBytes\<close> reads the bytes big-endian.\<close>

definition SetBytes :: "bytes \<Rightarrow> nat" where
  "SetBytes bs = foldl (\<lambda>n b. n * 256 + unat b) 0 bs"

text \<open>\<open>orderBits\<close> is the bit length of the order of the curve.\<close>

definition hashToInt :: "nat \<Rightarrow> bytes \<Rightarrow> nat" where
  "hashToInt orderBits hash =
     (let orderBytes = (orderBits + 7) div 8;
          hash' = (if length hash > orderBytes then take orderBytes hash else hash);
          ret = SetBytes hash';
          excess = int (length hash' * 8) - int orderBits
      in if excess > 0 then drop_bit (nat excess) ret else ret)"

definition NewEcKeygenJob ::
  "'p new_party \<Rightarrow> string \<Rightarrow> nat \<Rightarrow> opaque option \<Rightarrow> int \<Rightarrow> 'p Job go" where
  "NewEcKeygenJob np workId index localPreparams timeOut =
     go_bind (go_deref localPreparams) (\<lambda>pre.
       Ret (baseJob workId index (np_EcKeygen np pre) EcKeygen timeOut EcEndKeygen))"

text \<open>The chain is accepted and never stored.\<close>

definition NewEcSigningJob ::
  "'p new_party \<Rightarrow> nat \<Rightarrow> string \<Rightarrow> nat \<Rightarrow> bytes option \<Rightarrow> opaque \<Rightarrow> opaque option \<Rightarrow> int \<Rightarrow> string \<Rightarrow> 'p Job" where
  "NewEcSigningJob np orderBits workId index msg keygenData signingInput timeOut chain =
     (let msgInt = map_option (hashToInt orderBits) msg
      in (baseJob workId index (np_EcSigning np msgInt keygenData signingInput) EcSigning timeOut EcEndSigning)
           \<lparr>job_hasPresignData := (signingInput \<noteq> None)\<rparr>)"

definition NewEdKeygenJob :: "'p new_party \<Rightarrow> string \<Rightarrow> nat \<Rightarrow> int \<Rightarrow> 'p Job" where
  "NewEdKeygenJob np workId index timeOut =
     baseJob workId index (np_EdKeygen np) EdKeygen timeOut EdEndKeygen"

text \<open>The job type passed on is \<open>EdKeygen\<close>, as in the source.\<close>

definition NewEdSigningJob :: "'p new_party \<Rightarrow> string \<Rightarrow> nat \<Rightarrow> bytes option \<Rightarrow> opaque \<Rightarrow> int \<Rightarrow> 'p Job" where
  "NewEdSigningJob np workId index msg signingInput timeOut =
     baseJob workId index (np_EdSigning np (SetBytes (case msg of None \<Rightarrow> [] | Some bs \<Rightarrow> bs)) signingInput)
       EdKeygen timeOut EdEndSigning"

definition isDone :: "'p Job \<Rightarrow> bool" where
  "isDone job \<longleftrightarrow> job_doneEndCh job \<and> job_doneOutCh job"

definition addOutMessage :: "tss_msg \<Rightarrow> 'p Job \<Rightarrow> 'p Job" where
  "addOutMessage msg job =
     (let finished = gput (msg_Type msg) True (job_finishedMsgs job)
      in job\<lparr>job_finishedMsgs := finished,
             job_doneOutCh := (if length finished = GetMessageCountByWorkType (job_jobType job) (job_hasPresignData job)
                               then True else job_doneOutCh job)\<rparr>)"

fun end_result :: "end_channel \<Rightarrow> opaque \<Rightarrow> JobResult" where
  "end_result EcEndKeygen d = (no_result True)\<lparr>jr_EcKeygen := Some d\<rparr>"
| "end_result EcEndSigning d = (no_result True)\<lparr>jr_EcSigning := Some d\<rparr>"
| "end_result EdEndKeygen d = (no_result True)\<lparr>jr_EdKeygen := Some d\<rparr>"
| "end_result EdEndSigning d = (no_result True)\<lparr>jr_EdSigning := Some d\<rparr>"

subsection \<open>The listening loop\<close>

text \<open>
  One pass of the \<open>select\<close> handles one of: the timer, a message of the party, its final data. The
  callbacks made are actions. The loop over a list of such events says whether it has returned
  and which events it left unread.
\<close>

datatype job_event = JobTimer | OutMessage tss_msg | EndData opaque

datatype job_action = CallMessage tss_msg | CallResult JobResult

fun listen_step :: "job_event \<Rightarrow> 'p Job \<Rightarrow> job_action list \<times> bool \<times> 'p Job" where
  "listen_step JobTimer job = ((if \<not> isDone job then [CallResult (no_result False)] else []), True, job)"
| "listen_step (OutMessage msg) job =
     (let job' = addOutMessage msg job in ([CallMessage msg], isDone job', job'))"
| "listen_step (EndData d) job =
     (let job' = job\<lparr>job_doneEndCh := True\<rparr> in ([CallResult (end_result (job_endCh job) d)], isDone job', job'))"

fun startListening :: "job_event list \<Rightarrow> 'p Job \<Rightarrow> job_action list \<times> bool \<times> job_event list \<times> 'p Job" where
  "startListening [] job = ([], False, [], job)"
| "startListening (e # es) job =
     (case listen_step e job of (acts, returned, job') \<Rightarrow>
        if returned then (acts, True, es, job')
        else case startListening es job' of (acts', returned', rest, job'') \<Rightarrow> (acts @ acts', returned', rest, job''))"

definition job_Start :: "'p tss_party \<Rightarrow> 'p Job \<Rightarrow> string option \<times> 'p Job" where
  "job_Start py job =
     (case py_Start py (job_party job) of
        (Some err, p) \<Rightarrow> (Some (''error when starting party '' @ err), job\<lparr>job_party := p\<rparr>)
      | (None, p) \<Rightarrow> (None, job\<lparr>job_party := p\<rparr>))"

text \<open>
  \<open>SharedPartyUpdater\<close> compares the two party pointers; the party of a received message is
  another object than the local party's own id, so the test is the parameter \<open>same\<close>.
\<close>

definition SharedPartyUpdater ::
  "'p tss_party \<Rightarrow> bool \<Rightarrow> tss_msg \<Rightarrow> 'p \<Rightarrow> string option \<times> 'p" where
  "SharedPartyUpdater py same msg p =
     (if same then (None, p)
      else case msg_WireBytes msg of
        Inl err \<Rightarrow> (Some err, p)
      | Inr (bz, _) \<Rightarrow>
          (case py_Parse py bz (msg_From msg) (msg_IsBroadcast msg) of
             Inl err \<Rightarrow> (Some err, p)
           | Inr pMsg \<Rightarrow> py_Update py pMsg p))"

definition processMessage :: "'p tss_party \<Rightarrow> bool \<Rightarrow> tss_msg \<Rightarrow> 'p Job \<Rightarrow> string option \<times> 'p Job" where
  "processMessage py same msg job =
     (case SharedPartyUpdater py same msg (job_party job) of (err, p) \<Rightarrow> (err, job\<lparr>job_party := p\<rparr>))"

subsection \<open>Collecting the outputs of a batch\<close>

definition GetEcKeygenOutputs :: "JobResult list \<Rightarrow> opaque option list" where
  "GetEcKeygenOutputs results = map jr_EcKeygen results"

definition GetEcPresignOutputs :: "JobResult list \<Rightarrow> opaque option list" where
  "GetEcPresignOutputs results = map jr_EcPresign results"

text \<open>\<open>signature\<close> reads the field of the library's struct.\<close>

fun GetEcSigningOutputs :: "(opaque \<Rightarrow> opaque option) \<Rightarrow> JobResult list \<Rightarrow> opaque option list go" where
  "GetEcSigningOutputs signature [] = Ret []"
| "GetEcSigningOutputs signature (r # rs) =
     go_bind (go_deref (jr_EcSigning r)) (\<lambda>d.
       go_bind (GetEcSigningOutputs signature rs) (\<lambda>os. Ret (signature d # os)))"

definition GetEdKeygenOutputs :: "JobResult list \<Rightarrow> opaque option list" where
  "GetEdKeygenOutputs results = map jr_EdKeygen results"

definition GetEdSigningOutputs :: "JobResult list \<Rightarrow> opaque option list" where
  "GetEdSigningOutputs results = map jr_EdSigning results"

subsection \<open>Hashes as integers\<close>

lemma SetBytes_append: "SetBytes (xs @ ys) = SetBytes xs * 2 ^ (8 * length ys) + SetBytes ys"
proof (induction ys rule: rev_induct)
  case (snoc y ys)
  have "SetBytes (xs @ ys @ [y]) = SetBytes (xs @ ys) * 256 + unat y" for xs ys
    by (simp add: SetBytes_def)
  from this [of xs ys] this [of "[]" ys] snoc show ?case by (simp add: power_add algebra_simps)
qed (simp add: SetBytes_def)

lemma SetBytes_bound: "SetBytes bs < 2 ^ (8 * length bs)"
proof (induction bs rule: rev_induct)
  case (snoc b bs)
  have "unat b < 256" using unsigned_less [of b] by simp
  then have "SetBytes bs * 256 + unat b < (SetBytes bs + 1) * 256" by simp
  also have "\<dots> \<le> 2 ^ (8 * length bs) * 256" using snoc by (intro mult_right_mono) auto
  finally show ?case by (simp add: SetBytes_append SetBytes_def [of "[b]"] power_add mult.commute)
qed (simp add: SetBytes_def)

lemma SetBytes_take: "k \<le> length bs \<Longrightarrow> SetBytes (take k bs) = SetBytes bs div 2 ^ (8 * (length bs - k))"
  using SetBytes_append [of "take k bs" "drop k bs"] SetBytes_bound [of "drop k bs"] by simp

text \<open>
  The integer a digest is turned into is its leftmost \<open>orderBits\<close> bits, the whole of a
  shorter digest, so it never exceeds the bit length of the order of the curve; this holds for
  digests of every length and orders that are no multiple of eight bits.
\<close>

theorem hashToInt_leftmost:
  "hashToInt orderBits hash = SetBytes hash div 2 ^ (8 * length hash - orderBits) \<and>
   hashToInt orderBits hash < 2 ^ orderBits"
proof -
  let ?k = "(orderBits + 7) div 8"
  have drop: "(if int (l * 8) - int b > 0 then drop_bit (nat (int (l * 8) - int b)) n else n) = n div 2 ^ (8 * l - b)"
    for l b n :: nat
  proof -
    have "nat (int (l * 8) - int b) = 8 * l - b" by linarith
    then show ?thesis by (simp only: drop_bit_eq_div) simp
  qed
  define bs where "bs = (if length hash > ?k then take ?k hash else hash)"
  have run: "hashToInt orderBits hash = SetBytes bs div 2 ^ (8 * length bs - orderBits)"
    unfolding hashToInt_def Let_def bs_def [symmetric] by (rule drop)
  have eq: "hashToInt orderBits hash = SetBytes hash div 2 ^ (8 * length hash - orderBits)"
  proof (cases "length hash > ?k")
    case True
    have "8 * (length hash - ?k) + (8 * ?k - orderBits) = 8 * length hash - orderBits"
      using True by linarith
    moreover have "bs = take ?k hash" "length bs = ?k" using True by (simp_all add: bs_def)
    ultimately show ?thesis
      using run SetBytes_take [of ?k hash] True by (metis div_mult2_eq less_imp_le power_add)
  qed (use run in \<open>simp add: bs_def\<close>)
  have "SetBytes hash < 2 ^ orderBits * 2 ^ (8 * length hash - orderBits)"
    using SetBytes_bound [of hash] by (rule less_le_trans) (simp flip: power_add)
  with eq show ?thesis by (simp add: less_mult_imp_div_less)
qed

subsection \<open>What the loop delivers\<close>

text \<open>
  The party emits \<open>outs\<close> in this order and then its final data \<open>d\<close>. The two channels are read
  in an order the \<open>select\<close> chooses: the loop sees \<open>xs\<close>, the data, and the rest \<open>ys\<close>, for some
  splitting of \<open>outs\<close>.
\<close>

definition schedule :: "tss_msg list \<Rightarrow> opaque \<Rightarrow> tss_msg list \<Rightarrow> job_event list" where
  "schedule xs d ys = map OutMessage xs @ [EndData d] @ map OutMessage ys"

definition types_of :: "tss_msg list \<Rightarrow> string set" where
  "types_of outs = msg_Type ` set outs"

definition expected :: "'p Job \<Rightarrow> nat" where
  "expected job = GetMessageCountByWorkType (job_jobType job) (job_hasPresignData job)"

text \<open>A new job of the constructors: nothing finished yet.\<close>

definition fresh_job :: "'p Job \<Rightarrow> bool" where
  "fresh_job job \<longleftrightarrow> job_finishedMsgs job = [] \<and> \<not> job_doneOutCh job \<and> \<not> job_doneEndCh job"

definition after_outs :: "tss_msg list \<Rightarrow> 'p Job \<Rightarrow> 'p Job" where
  "after_outs outs job = fold addOutMessage outs job"

lemma addOutMessage_sel [simp]:
  "job_doneEndCh (addOutMessage m job) = job_doneEndCh job" "job_endCh (addOutMessage m job) = job_endCh job"
  "expected (addOutMessage m job) = expected job"
  "job_finishedMsgs (addOutMessage m job) = gput (msg_Type m) True (job_finishedMsgs job)"
  by (simp_all add: addOutMessage_def expected_def Let_def)

lemma after_outs_sel [simp]:
  "job_doneEndCh (after_outs outs job) = job_doneEndCh job" "job_endCh (after_outs outs job) = job_endCh job"
  "expected (after_outs outs job) = expected job"
  by (induction outs arbitrary: job) (auto simp: after_outs_def)

lemma after_outs_finished:
  assumes "gmap_ok (job_finishedMsgs job)"
  shows "gmap_ok (job_finishedMsgs (after_outs outs job)) \<and>
    gkeys (job_finishedMsgs (after_outs outs job)) = gkeys (job_finishedMsgs job) \<union> types_of outs"
  using assms
proof (induction outs arbitrary: job)
  case (Cons m outs)
  have "gmap_ok (job_finishedMsgs (addOutMessage m job))" using Cons.prems by auto
  from Cons.IH [OF this] show ?case by (simp add: after_outs_def types_of_def)
qed (simp add: after_outs_def types_of_def)

lemma after_outs_done:
  assumes "fresh_job job"
  shows "job_doneOutCh (after_outs outs job) \<longleftrightarrow>
    (\<exists>k \<le> length outs. 0 < k \<and> card (types_of (take k outs)) = expected job)"
proof (induction outs rule: rev_induct)
  case Nil
  then show ?case using assms by (simp add: after_outs_def fresh_job_def)
next
  case (snoc m outs)
  let ?j = "after_outs outs job"
  have ok: "gmap_ok (job_finishedMsgs job)" and empty: "job_finishedMsgs job = []"
    using assms by (simp_all add: fresh_job_def)
  have fin: "gmap_ok (job_finishedMsgs ?j)" "gkeys (job_finishedMsgs ?j) = types_of outs"
    using after_outs_finished [OF ok, of outs] empty by auto
  have "length (gput (msg_Type m) True (job_finishedMsgs ?j)) = card (types_of (outs @ [m]))"
    using fin by (simp add: length_gmap gmap_ok_gput types_of_def)
  then have step: "job_doneOutCh (after_outs (outs @ [m]) job) \<longleftrightarrow>
      card (types_of (outs @ [m])) = expected job \<or> job_doneOutCh ?j"
    using after_outs_sel(3) [of outs job]
    by (simp add: after_outs_def addOutMessage_def Let_def expected_def)
  show ?case unfolding step snoc
    by (auto simp: le_Suc_eq intro: exI [of _ "Suc (length outs)"])
qed

lemma listen_outs:
  assumes "\<not> job_doneEndCh job"
  shows "startListening (map OutMessage xs @ es) job =
    (let (acts, ret, rest, job') = startListening es (after_outs xs job)
     in (map CallMessage xs @ acts, ret, rest, job'))"
  using assms
proof (induction xs arbitrary: job)
  case (Cons x xs)
  have "\<not> isDone (addOutMessage x job)" using Cons.prems by (simp add: isDone_def)
  then show ?case
    using Cons.IH [of "addOutMessage x job"] Cons.prems
    by (simp add: after_outs_def Let_def split: prod.splits)
qed (simp add: after_outs_def split: prod.splits)

lemma listen_tail:
  assumes "job_doneEndCh job" and "ys \<noteq> []" and "job_doneOutCh (after_outs ys job)"
    and "\<forall>k < length ys. \<not> job_doneOutCh (after_outs (take k ys) job)"
  shows "\<exists>job'. startListening (map OutMessage ys) job = (map CallMessage ys, True, [], job')"
  using assms
proof (induction ys arbitrary: job)
  case (Cons y ys)
  let ?j = "addOutMessage y job"
  have end': "job_doneEndCh ?j" using Cons.prems(1) by simp
  show ?case
  proof (cases ys)
    case Nil
    then have "isDone ?j" using Cons.prems by (simp add: isDone_def after_outs_def)
    then show ?thesis using Nil by (simp add: Let_def)
  next
    case (Cons z zs)
    have open': "\<not> job_doneOutCh (after_outs (take k ys) ?j)" if "k < length ys" for k
      using Cons.prems(4) [rule_format, of "Suc k"] that by (simp add: after_outs_def)
    from open' [of 0] have "\<not> isDone ?j" using Cons by (simp add: isDone_def after_outs_def)
    then show ?thesis
      using Cons.IH [OF end'] Cons open' Cons.prems(3) by (auto simp: after_outs_def Let_def)
  qed
qed simp

lemma listen_end:
  "startListening (EndData d # es) job =
     (let job' = job\<lparr>job_doneEndCh := True\<rparr>; (acts, ret, rest, job'') = startListening es job'
      in if job_doneOutCh job then ([CallResult (end_result (job_endCh job) d)], True, es, job')
         else (CallResult (end_result (job_endCh job) d) # acts, ret, rest, job''))"
  by (auto simp: isDone_def Let_def split: prod.splits)

lemma after_outs_doneEnd:
  "after_outs outs (job\<lparr>job_doneEndCh := b\<rparr>) = (after_outs outs job)\<lparr>job_doneEndCh := b\<rparr>"
proof (induction outs arbitrary: job)
  case (Cons m outs)
  have "addOutMessage m (job\<lparr>job_doneEndCh := b\<rparr>) = (addOutMessage m job)\<lparr>job_doneEndCh := b\<rparr>"
    by (simp add: addOutMessage_def Let_def)
  then show ?case using Cons by (simp add: after_outs_def)
qed (simp add: after_outs_def)

lemma done_with_last_type:
  assumes "fresh_job job" and "zs \<noteq> []" and "card (types_of zs) = expected job"
    and "\<forall>k. 0 < k \<and> k < length zs \<longrightarrow> card (types_of (take k zs)) \<noteq> expected job" and le: "k \<le> length zs"
  shows "job_doneOutCh (after_outs (take k zs) job) \<longleftrightarrow> k = length zs"
proof -
  have "job_doneOutCh (after_outs (take k zs) job) \<longleftrightarrow> (\<exists>j \<le> k. 0 < j \<and> card (types_of (take j zs)) = expected job)"
    using after_outs_done [OF assms(1), of "take k zs"] le by (auto simp: min_absorb1)
  moreover have "(\<exists>j \<le> k. 0 < j \<and> card (types_of (take j zs)) = expected job) \<longleftrightarrow> k = length zs"
  proof (cases "k = length zs")
    case True
    then show ?thesis using assms(2,3) by (auto intro!: exI [of _ k])
  next
    case False
    then have "k < length zs" using le by simp
    then show ?thesis using assms(4) False by auto
  qed
  ultimately show ?thesis by blast
qed

text \<open>
  C30. In whatever order the \<open>select\<close> reads the two channels, a job forwards every message its party
  emits, reports exactly one result, the party's, and then ends, provided that the expected number
  of message types is the number of types the party emits and is reached with its last message.
\<close>

theorem job_delivers_everything:
  assumes "fresh_job job" and "xs @ ys \<noteq> []" and "card (types_of (xs @ ys)) = expected job"
    and "\<forall>k. 0 < k \<and> k < length (xs @ ys) \<longrightarrow> card (types_of (take k (xs @ ys))) \<noteq> expected job"
  shows "\<exists>job'. startListening (schedule xs d ys) job =
    (map CallMessage xs @ [CallResult (end_result (job_endCh job) d)] @ map CallMessage ys, True, [], job')"
proof -
  note done_iff = done_with_last_type [OF assms]
  let ?j = "(after_outs xs job)\<lparr>job_doneEndCh := True\<rparr>"
  have sched: "startListening (schedule xs d ys) job =
      (let (acts, ret, rest, job') = startListening (EndData d # map OutMessage ys) (after_outs xs job)
       in (map CallMessage xs @ acts, ret, rest, job'))"
    using assms(1) unfolding schedule_def by (subst listen_outs) (simp_all add: fresh_job_def)
  show ?thesis
  proof (cases "ys = []")
    case True
    then have "job_doneOutCh (after_outs xs job)" using done_iff [of "length xs"] by simp
    then show ?thesis unfolding sched listen_end using True by (simp add: Let_def)
  next
    case False
    then have "\<not> job_doneOutCh (after_outs xs job)" using done_iff [of "length xs"] by simp
    moreover have "\<exists>job'. startListening (map OutMessage ys) ?j = (map CallMessage ys, True, [], job')"
    proof (rule listen_tail [OF _ False])
      have split: "after_outs (take (length xs + k) (xs @ ys)) job = after_outs (take k ys) (after_outs xs job)" for k
        by (simp add: after_outs_def)
      show "job_doneOutCh (after_outs ys ?j)"
        using done_iff [of "length (xs @ ys)"] split [of "length ys"] by (simp add: after_outs_doneEnd)
      show "\<forall>k < length ys. \<not> job_doneOutCh (after_outs (take k ys) ?j)"
      proof (intro allI impI)
        fix k assume "k < length ys"
        then show "\<not> job_doneOutCh (after_outs (take k ys) ?j)"
          using done_iff [of "length xs + k"] split [of k] by (simp add: after_outs_doneEnd)
      qed
    qed simp
    ultimately show ?thesis unfolding sched listen_end by (auto simp: Let_def)
  qed
qed

text \<open>When the count is reached early, reading the final data next ends the loop with messages unread.\<close>

lemma job_drops:
  assumes "fresh_job job" and "xs \<noteq> []" and "card (types_of xs) = expected job"
  shows "\<exists>job'. startListening (schedule xs d ys) job =
    (map CallMessage xs @ [CallResult (end_result (job_endCh job) d)], True, map OutMessage ys, job')"
proof -
  have "job_doneOutCh (after_outs xs job)"
    using after_outs_done [OF assms(1), of xs] assms(2,3) by (auto intro!: exI [of _ "length xs"])
  then show ?thesis
    using assms(1) unfolding schedule_def
    by (subst listen_outs) (simp_all add: fresh_job_def listen_end Let_def del: startListening.simps)
qed

text \<open>
  A full ECDSA signing job can end without sending its last message. Such a job emits eight
  types of messages but is expected to emit seven, so when its first seven messages have been
  forwarded and the final data is read before the eighth, the loop returns with that message unsent.
\<close>

theorem ec_signing_drops_last_message:
  assumes "inj pname" and "map msg_Type outs = GetMessagesByWorkType pname EcSigning"
  shows "\<exists>job'. startListening (schedule (take 7 outs) d (drop 7 outs))
      (NewEcSigningJob np orderBits workId i msg keygenData None timeOut chain) =
    (map CallMessage (take 7 outs) @ [CallResult ((no_result True)\<lparr>jr_EcSigning := Some d\<rparr>)], True,
     [OutMessage (outs ! 7)], job')"
proof -
  let ?job = "NewEcSigningJob np orderBits workId i msg keygenData None timeOut chain"
  have len: "length outs = 8" using arg_cong [OF assms(2), of length] by simp
  have "distinct (map msg_Type outs)" unfolding assms(2) by (rule messages_distinct [OF assms(1)])
  then have "distinct (take 7 (map msg_Type outs))" by simp
  moreover have "types_of (take 7 outs) = set (take 7 (map msg_Type outs))"
    by (simp add: types_of_def take_map)
  ultimately have "card (types_of (take 7 outs)) = 7"
    using len distinct_card [of "take 7 (map msg_Type outs)"] by simp
  moreover have "drop 7 outs = [outs ! 7]"
    using len by (simp add: list_eq_iff_nth_eq)
  moreover have job: "fresh_job ?job" "expected ?job = 7" "job_endCh ?job = EcEndSigning"
    by (simp_all add: fresh_job_def NewEcSigningJob_def baseJob_def expected_def)
  ultimately show ?thesis
    using job_drops [OF job(1), of "take 7 outs" d "drop 7 outs"] len by force
qed

subsection \<open>Concrete runs\<close>

definition out_msg :: "string \<Rightarrow> tss_msg" where
  "out_msg ty = \<lparr>msg_Type = ty, msg_IsBroadcast = True, msg_To = None,
     msg_From = \<lparr>p_Id = ''a'', p_Moniker = '''', p_Key = 1, p_Index = 0\<rparr>, msg_WireBytes = Inl ''none''\<rparr>"

definition unit_parties :: "unit new_party" where
  "unit_parties = \<lparr>np_EcKeygen = (\<lambda>_. ()), np_EcSigning = (\<lambda>_ _ _. ()), np_EdKeygen = (), np_EdSigning = (\<lambda>_ _. ())\<rparr>"

definition ed_job :: "unit Job" where
  "ed_job = NewEdKeygenJob unit_parties ''w'' 0 180"

theorem job_delivers_everything_witness:
  "\<exists>job'. startListening (schedule [out_msg ''r1'', out_msg ''r2''] 5 [out_msg ''r3'']) ed_job =
    (map CallMessage [out_msg ''r1'', out_msg ''r2''] @ [CallResult (end_result (job_endCh ed_job) 5)] @
     map CallMessage [out_msg ''r3''], True, [], job')"
proof (rule job_delivers_everything)
  have exp: "expected ed_job = 3" by code_simp
  show "fresh_job ed_job" by code_simp
  show "card (types_of ([out_msg ''r1'', out_msg ''r2''] @ [out_msg ''r3''])) = expected ed_job"
    by (simp add: exp types_of_def out_msg_def)
  show "\<forall>k. 0 < k \<and> k < length ([out_msg ''r1'', out_msg ''r2''] @ [out_msg ''r3'']) \<longrightarrow>
      card (types_of (take k ([out_msg ''r1'', out_msg ''r2''] @ [out_msg ''r3'']))) \<noteq> expected ed_job"
    by (auto simp: exp types_of_def out_msg_def less_Suc_eq)
qed simp

theorem ec_signing_drops_last_message_witness:
  "\<exists>job'. startListening (schedule (take 7 (map out_msg (GetMessagesByWorkType ref_pname EcSigning))) 5
        (drop 7 (map out_msg (GetMessagesByWorkType ref_pname EcSigning))))
      (NewEcSigningJob unit_parties 256 ''w'' 0 (Some [1]) 9 None 180 ''eth'') =
    (map CallMessage (take 7 (map out_msg (GetMessagesByWorkType ref_pname EcSigning))) @
       [CallResult ((no_result True)\<lparr>jr_EcSigning := Some 5\<rparr>)], True,
     [OutMessage (map out_msg (GetMessagesByWorkType ref_pname EcSigning) ! 7)], job')"
  by (rule ec_signing_drops_last_message [OF ref_pname_inj]) (simp add: out_msg_def)

end
