(* ===== verification/Worker_Executor.thy ===== *)
theory Worker_Executor
  imports Job Message_Monitor Prework_Selection
begin

section \<open>The executor of a work: worker/worker\_executor.go\<close>

text \<open>
  The executor runs the jobs of a batch: it gathers the messages of all jobs for a round into one
  wire message, feeds received wire messages to the jobs and reports the outcome of the batch.
  Messages sent and results reported are actions. The library is represented by \<open>py\<close> and \<open>np\<close>
  (theory \<open>Job\<close>), \<open>marshal\<close> and \<open>unmarshal\<close> (the routing header in JSON), \<open>pname\<close> and \<open>lib\<close>. The
  goroutines that update the jobs with a received message touch one job each; they are run in
  the order of the jobs.
\<close>

record ExecutionResult =
  er_Success :: bool
  er_JobResults :: "JobResult option list"

definition failed_execution :: ExecutionResult where
  "failed_execution = \<lparr>er_Success = False, er_JobResults = []\<rparr>"

datatype exec_action =
    ExBroadcast "party list" TssMessage
  | ExUnicast "party option" TssMessage
  | ExResult ExecutionResult
  | StartMonitor
  | StopMonitor

record 'p WorkerExecutor =
  we_request :: WorkRequest
  we_workType :: WorkType
  we_myPid :: party
  we_pIDs :: "party list"
  we_pIDsMap :: "(string, party) gmap"
  we_cfg :: TimeoutConfig
  we_ecKeygenInput :: "opaque option"
  we_ecPresignOutput :: "opaque option list"
  we_jobOutput :: "(string, tss_msg option list) gmap"
  we_jobResults :: "JobResult option list"
  we_isStopped :: bool
  we_jobs :: "'p Job list"
  we_messageMonitor :: "DefaultMessageMonitor option"

definition NewWorkerExecutor ::
  "tss_lib \<Rightarrow> WorkRequest \<Rightarrow> WorkType \<Rightarrow> party \<Rightarrow> party list \<Rightarrow> opaque option list option \<Rightarrow> TimeoutConfig \<Rightarrow>
   'p WorkerExecutor" where
  "NewWorkerExecutor lib request workType myPid pids ecPresignOutput cfg =
     (let copy = fold (\<lambda>p c. if p_Id myPid = p_Id p then c\<lparr>p_Index := p_Index p\<rparr> else c) pids
                   (NewPartyID lib (p_Id myPid) (p_Moniker myPid) (p_Key myPid))
      in \<lparr>we_request = request, we_workType = workType, we_myPid = copy, we_pIDs = pids,
          we_pIDsMap = fold (\<lambda>pid m. gput (p_Id pid) pid m) pids [], we_cfg = cfg, we_ecKeygenInput = None,
          we_ecPresignOutput = (case ecPresignOutput of None \<Rightarrow> replicate (wr_BatchSize request) None | Some os \<Rightarrow> os),
          we_jobOutput = [], we_jobResults = replicate (wr_BatchSize request) None, we_isStopped = False,
          we_jobs = [], we_messageMonitor = None\<rparr>)"

definition executor_broadcastResult ::
  "ExecutionResult \<Rightarrow> 'p WorkerExecutor \<Rightarrow> exec_action list \<times> 'p WorkerExecutor" where
  "executor_broadcastResult result w =
     (if \<not> we_isStopped w
      then (ExResult result # (if we_messageMonitor w \<noteq> None then [StopMonitor] else []), w\<lparr>we_isStopped := True\<rparr>)
      else ([], w))"

definition executor_Stop :: "'p WorkerExecutor \<Rightarrow> 'p WorkerExecutor" where
  "executor_Stop w = w\<lparr>we_isStopped := True\<rparr>"

definition OnJobTimeout :: "'p WorkerExecutor \<Rightarrow> exec_action list \<times> 'p WorkerExecutor" where
  "OnJobTimeout w = executor_broadcastResult failed_execution w"

definition loadPreparams :: "opaque result \<Rightarrow> 'p WorkerExecutor \<Rightarrow> string option \<times> 'p WorkerExecutor" where
  "loadPreparams loaded w =
     (case loaded of Inr preparams \<Rightarrow> (None, w\<lparr>we_ecKeygenInput := Some preparams\<rparr>) | Inl err \<Rightarrow> (Some err, w))"

text \<open>The job with index \<open>i\<close>; \<open>None\<close> for an unknown work type.\<close>

definition make_job :: "'p new_party \<Rightarrow> nat \<Rightarrow> 'p WorkerExecutor \<Rightarrow> nat \<Rightarrow> 'p Job option go" where
  "make_job np orderBits w i =
     (let request = we_request w; workId = wr_WorkId request; cfg = we_cfg w;
          messages = (case wr_Messages request of None \<Rightarrow> [] | Some ms \<Rightarrow> ms);
          chains = (case wr_Chains request of None \<Rightarrow> [] | Some cs \<Rightarrow> cs)
      in case we_workType w of
           EcKeygen \<Rightarrow> go_bind (NewEcKeygenJob np workId i (we_ecKeygenInput w) (tc_KeygenJobTimeout cfg)) (\<lambda>j. Ret (Some j))
         | EcSigning \<Rightarrow>
             go_bind (go_index (we_ecPresignOutput w) i) (\<lambda>presignOutput.
             go_bind (go_index messages i) (\<lambda>msg.
             go_bind (go_deref (wr_EcSigningInput request)) (\<lambda>input.
             go_bind (go_index chains 0) (\<lambda>chain.
               Ret (Some (NewEcSigningJob np orderBits workId i msg input presignOutput (tc_SigningJobTimeout cfg) chain))))))
         | EdKeygen \<Rightarrow> Ret (Some (NewEdKeygenJob np workId i (tc_KeygenJobTimeout cfg)))
         | EdSigning \<Rightarrow>
             go_bind (go_index messages i) (\<lambda>msg.
             go_bind (go_deref (wr_EdSigningInput request)) (\<lambda>input.
               Ret (Some (NewEdSigningJob np workId i msg input (tc_SigningJobTimeout cfg)))))
         | OtherWork \<Rightarrow> Ret None)"

fun make_jobs :: "'p new_party \<Rightarrow> nat \<Rightarrow> 'p WorkerExecutor \<Rightarrow> nat list \<Rightarrow> 'p Job list option go" where
  "make_jobs np orderBits w [] = Ret (Some [])"
| "make_jobs np orderBits w (i # is) =
     go_bind (make_job np orderBits w i) (\<lambda>j.
       case j of None \<Rightarrow> Ret None
       | Some job \<Rightarrow> go_bind (make_jobs np orderBits w is) (\<lambda>js. Ret (map_option ((#) job) js)))"

text \<open>Jobs are started in order; the first that cannot start fails the work and ends the loop.\<close>

fun start_jobs :: "'p tss_party \<Rightarrow> 'p Job list \<Rightarrow> 'p Job list \<times> bool" where
  "start_jobs py [] = ([], True)"
| "start_jobs py (job # jobs) =
     (case job_Start py job of
        (Some err, job') \<Rightarrow> (job' # jobs, False)
      | (None, job') \<Rightarrow> (case start_jobs py jobs of (jobs', ok) \<Rightarrow> (job' # jobs', ok)))"

definition executor_Init ::
  "'p tss_party \<Rightarrow> 'p new_party \<Rightarrow> nat \<Rightarrow> (MessageContent \<Rightarrow> string) \<Rightarrow> opaque result \<Rightarrow> 'p WorkerExecutor \<Rightarrow>
   (string option \<times> exec_action list \<times> 'p WorkerExecutor) go" where
  "executor_Init py np orderBits pname preparams w =
     (let (err, w1) =
            (if we_workType w = EcKeygen then
               (case wr_EcKeygenInput (we_request w) of
                  None \<Rightarrow> loadPreparams preparams w
                | Some input \<Rightarrow> (None, w\<lparr>we_ecKeygenInput := Some input\<rparr>))
             else (None, w));
          w2 = w1\<lparr>we_messageMonitor := Some (NewMessageMonitor pname (we_myPid w1) (we_workType w1) (we_pIDsMap w1)
                     (tc_MonitorMessageTimeout (we_cfg w1)))\<rparr>
      in go_bind (make_jobs np orderBits w2 [0..<wr_BatchSize (we_request w2)]) (\<lambda>jobs.
           case jobs of
             None \<Rightarrow>
               (let (acts, w3) = executor_broadcastResult failed_execution w2
                in Ret (err, StartMonitor # acts, w3))
           | Some js \<Rightarrow>
               (let (js', ok) = start_jobs py js;
                    w3 = w2\<lparr>we_jobs := js'\<rparr>;
                    (acts, w4) = (if ok then ([], w3) else executor_broadcastResult failed_execution w3)
                in Ret (None, StartMonitor # acts, w4))))"

subsection \<open>Callbacks of the jobs\<close>

definition getCompletedJobCount :: "tss_msg option list \<Rightarrow> nat" where
  "getCompletedJobCount list = length (filter (\<lambda>item. item \<noteq> None) list)"

definition message_key :: "tss_msg \<Rightarrow> string go" where
  "message_key msg =
     (if \<not> msg_IsBroadcast msg
      then go_bind (go_index (case msg_To msg of None \<Rightarrow> [] | Some ps \<Rightarrow> ps) 0) (\<lambda>p. Ret (msg_Type msg @ ''-'' @ p_Id p))
      else Ret (msg_Type msg))"

text \<open>All jobs have finished the round: the list goes to the dispatcher, or the error to the log.\<close>

definition send_round ::
  "(opaque \<Rightarrow> bytes result) \<Rightarrow> tss_msg option list \<Rightarrow> tss_msg \<Rightarrow> 'p WorkerExecutor \<Rightarrow> exec_action list go" where
  "send_round marshal list msg w =
     go_bind (case msg_To msg of None \<Rightarrow> Ret None | Some dest \<Rightarrow> go_bind (go_index dest 0) (\<lambda>p. Ret (Some p)))
       (\<lambda>dest.
     go_bind (NewTssMessage marshal (p_Id (we_myPid w)) (case dest of None \<Rightarrow> '''' | Some p \<Rightarrow> p_Id p)
                (wr_WorkId (we_request w)) list (msg_Type msg)) (\<lambda>r.
       case r of
         Inl err \<Rightarrow> Ret []
       | Inr tssMsg \<Rightarrow>
           Ret [case dest of None \<Rightarrow> ExBroadcast (we_pIDs w) tssMsg | Some p \<Rightarrow> ExUnicast (Some p) tssMsg]))"

definition OnJobMessage ::
  "(opaque \<Rightarrow> bytes result) \<Rightarrow> nat \<Rightarrow> tss_msg \<Rightarrow> 'p WorkerExecutor \<Rightarrow> (exec_action list \<times> 'p WorkerExecutor) go" where
  "OnJobMessage marshal index msg w =
     go_bind (message_key msg) (\<lambda>msgKey.
       let batchSize = wr_BatchSize (we_request w);
           list = (case gget (we_jobOutput w) msgKey of None \<Rightarrow> replicate batchSize None | Some l \<Rightarrow> l)
       in if index < length list then
            (let list' = list[index := Some msg];
                 w' = w\<lparr>we_jobOutput := gput msgKey list' (we_jobOutput w)\<rparr>
             in if getCompletedJobCount list' = batchSize
                then go_bind (send_round marshal list' msg w) (\<lambda>acts. Ret (acts, w'))
                else Ret ([], w'))
          else Panic IndexOutOfRange)"

definition OnJobResult :: "nat \<Rightarrow> JobResult \<Rightarrow> 'p WorkerExecutor \<Rightarrow> (exec_action list \<times> 'p WorkerExecutor) go" where
  "OnJobResult index result w =
     (if we_isStopped w then Ret ([], w)
      else if index < length (we_jobResults w) then
        (let results = (we_jobResults w)[index := Some result];
             w' = w\<lparr>we_jobResults := results\<rparr>;
             cnt = length (filter (\<lambda>r. r \<noteq> None) results);
             hasFailure = (\<exists>r \<in> set results. case r of None \<Rightarrow> False | Some r \<Rightarrow> \<not> jr_Success r)
         in if cnt = wr_BatchSize (we_request w)
            then Ret (executor_broadcastResult
                   (if hasFailure then failed_execution else \<lparr>er_Success = True, er_JobResults = results\<rparr>) w')
            else Ret ([], w'))
      else Panic IndexOutOfRange)"

subsection \<open>Asking for missing messages\<close>

definition ask_for :: "(MessageContent \<Rightarrow> string) \<Rightarrow> 'p WorkerExecutor \<Rightarrow> string \<Rightarrow> string \<Rightarrow> exec_action" where
  "ask_for pname w pid msgType =
     (let workId = wr_WorkId (we_request w); me = p_Id (we_myPid w) in
      if IsBroadcastMessage pname msgType
      then ExBroadcast (we_pIDs w) (NewRequestMessage me '''' workId (GetMessageKey workId pid '''' msgType))
      else ExUnicast (gget (we_pIDsMap w) pid) (NewRequestMessage me pid workId (GetMessageKey workId pid me msgType)))"

definition OnMissingMesssageDetected ::
  "(MessageContent \<Rightarrow> string) \<Rightarrow> (string \<times> string list) list \<Rightarrow> 'p WorkerExecutor \<Rightarrow> exec_action list" where
  "OnMissingMesssageDetected pname it w =
     (if we_isStopped w then []
      else concat (map (\<lambda>(pid, msgTypes). map (ask_for pname w pid) msgTypes) it))"

subsection \<open>Received messages\<close>

fun parse_updates ::
  "'p tss_party \<Rightarrow> (bytes \<Rightarrow> string option) \<Rightarrow> party \<Rightarrow> bool \<Rightarrow> UpdateMessage list \<Rightarrow> nat \<Rightarrow>
   (tss_msg \<times> MessageContent) list result go" where
  "parse_updates py unmarshal from isBroadcast ums 0 = Ret (Inr [])"
| "parse_updates py unmarshal from isBroadcast [] (Suc n) = Panic IndexOutOfRange"
| "parse_updates py unmarshal from isBroadcast (um # ums) (Suc n) =
     (case py_Parse py (um_Data um) from isBroadcast of
        Inl err \<Rightarrow> Ret (Inl (''error when parsing wire message '' @ err))
      | Inr msg \<Rightarrow>
          (case unmarshal (um_SerializedMessageRouting um) of
             Some err \<Rightarrow> Ret (Inl (''error when unmarshal message routing '' @ err))
           | None \<Rightarrow> go_bind (parse_updates py unmarshal from isBroadcast ums n)
                      (\<lambda>rest. Ret (map_sum id ((#) msg) rest))))"

fun update_jobs ::
  "'p tss_party \<Rightarrow> (tss_msg \<times> MessageContent) list \<Rightarrow> 'p Job list \<Rightarrow> 'p Job list \<times> bool" where
  "update_jobs py (msg # msgs) (job # jobs) =
     (let (job', failed) =
            (case GetMsgRound (snd msg) of
               Inl err \<Rightarrow> (job, False)
             | Inr round \<Rightarrow> (case processMessage py False (fst msg) job of (err, job') \<Rightarrow> (job', err \<noteq> None)))
      in case update_jobs py msgs jobs of (jobs', failed') \<Rightarrow> (job' # jobs', failed \<or> failed'))"
| "update_jobs py _ jobs = (jobs, False)"

text \<open>The part after parsing: tell the monitor, then update every job with its message.\<close>

definition apply_updates ::
  "'p tss_party \<Rightarrow> int \<Rightarrow> (tss_msg \<times> MessageContent) list \<Rightarrow> 'p WorkerExecutor \<Rightarrow>
   (exec_action list \<times> 'p WorkerExecutor) go" where
  "apply_updates py now msgs w =
     (if wr_BatchSize (we_request w) = 0 then Panic IndexOutOfRange
      else if msgs = [] then Panic NilDereference
      else
        go_bind (go_deref (we_messageMonitor w)) (\<lambda>monitor.
        go_bind (NewMessageReceived (p_Id (msg_From (fst (hd msgs)))) (msg_Type (fst (hd msgs))) now monitor) (\<lambda>monitor'.
          let (jobs', failed) = update_jobs py msgs (we_jobs w);
              w' = w\<lparr>we_messageMonitor := Some monitor', we_jobs := jobs'\<rparr>
          in Ret (if failed then executor_broadcastResult failed_execution w' else ([], w')))))"

definition ProcessUpdateMessage ::
  "'p tss_party \<Rightarrow> (bytes \<Rightarrow> string option) \<Rightarrow> int \<Rightarrow> TssMessage \<Rightarrow> 'p WorkerExecutor \<Rightarrow>
   (string option \<times> exec_action list \<times> 'p WorkerExecutor) go" where
  "ProcessUpdateMessage py unmarshal now tssMsg w =
     (if we_isStopped w then Ret (None, [], w)
      else case GetPidFromString (tm_From tssMsg) (we_pIDs w) of
        None \<Rightarrow> Ret (Some ''sender is nil'', [], w)
      | Some from \<Rightarrow>
          go_bind (parse_updates py unmarshal from (IsBroadcast tssMsg) (tm_UpdateMessages tssMsg) (length (we_jobs w)))
            (\<lambda>parsed. case parsed of
               Inl err \<Rightarrow> Ret (Some err, [], w)
             | Inr msgs \<Rightarrow> go_bind (apply_updates py now msgs w) (\<lambda>(acts, w'). Ret (None, acts, w'))))"

text \<open>\<open>Run\<close> replays the cached update messages; an error is logged and the next message follows.\<close>

fun executor_Run ::
  "'p tss_party \<Rightarrow> (bytes \<Rightarrow> string option) \<Rightarrow> int \<Rightarrow> TssMessage list \<Rightarrow> 'p WorkerExecutor \<Rightarrow>
   (exec_action list \<times> 'p WorkerExecutor) go" where
  "executor_Run py unmarshal now [] w = Ret ([], w)"
| "executor_Run py unmarshal now (msg # msgs) w =
     (if we_isStopped w then Ret ([], w)
      else if tm_Type msg = UPDATE_MESSAGES then
        go_bind (ProcessUpdateMessage py unmarshal now msg w) (\<lambda>(err, acts, w').
        go_bind (executor_Run py unmarshal now msgs w') (\<lambda>(acts', w''). Ret (acts @ acts', w'')))
      else executor_Run py unmarshal now msgs w)"

subsection \<open>One wire message per round and batch\<close>

fun job_messages ::
  "(opaque \<Rightarrow> bytes result) \<Rightarrow> (nat \<times> tss_msg) list \<Rightarrow> 'p WorkerExecutor \<Rightarrow> (exec_action list \<times> 'p WorkerExecutor) go" where
  "job_messages marshal [] w = Ret ([], w)"
| "job_messages marshal ((i, msg) # evs) w =
     go_bind (OnJobMessage marshal i msg w) (\<lambda>(acts, w').
     go_bind (job_messages marshal evs w') (\<lambda>(acts', w''). Ret (acts @ acts', w'')))"

text \<open>
  The messages \<open>ms i\<close> that the jobs of a batch emit for one round: the same type and
  addressees, each with wire bytes and a routing header that can be encoded.
\<close>

definition round_messages ::
  "(opaque \<Rightarrow> bytes result) \<Rightarrow> nat \<Rightarrow> string \<Rightarrow> party list option \<Rightarrow> (nat \<Rightarrow> tss_msg) \<Rightarrow> (nat \<Rightarrow> bytes) \<Rightarrow> (nat \<Rightarrow> bytes) \<Rightarrow> bool" where
  "round_messages marshal B ty dest ms data hdr \<longleftrightarrow>
     (dest \<noteq> Some []) \<and>
     (\<forall>i < B. msg_Type (ms i) = ty \<and> msg_To (ms i) = dest \<and> msg_IsBroadcast (ms i) = (dest = None) \<and>
       (\<exists>routing. msg_WireBytes (ms i) = Inr (data i, routing) \<and> marshal routing = Inr (hdr i)))"

definition round_list :: "nat \<Rightarrow> nat set \<Rightarrow> (nat \<Rightarrow> tss_msg) \<Rightarrow> tss_msg option list" where
  "round_list B S ms = map (\<lambda>i. if i \<in> S then Some (ms i) else None) [0..<B]"

lemma round_list_count: "getCompletedJobCount (round_list B S ms) = card (S \<inter> {..<B})"
proof -
  have "getCompletedJobCount (round_list B S ms) = length (filter (\<lambda>i. i \<in> S) [0..<B])"
    by (simp add: getCompletedJobCount_def round_list_def filter_map comp_def if_distrib cong: if_cong)
  also have "\<dots> = card (set (filter (\<lambda>i. i \<in> S) [0..<B]))"
    by (simp add: distinct_card [symmetric] del: set_filter)
  also have "set (filter (\<lambda>i. i \<in> S) [0..<B]) = S \<inter> {..<B}" by auto
  finally show ?thesis .
qed

lemma round_list_update: "i < B \<Longrightarrow> (round_list B S ms)[i := Some (ms i)] = round_list B (insert i S) ms"
  by (rule nth_equalityI) (auto simp: round_list_def nth_list_update)

lemma serialize_round:
  assumes "\<forall>i \<in> set is. \<exists>routing. msg_WireBytes (ms i) = Inr (data i, routing) \<and> marshal routing = Inr (hdr i)"
  shows "serialize_msgs marshal ty (map (\<lambda>i. Some (ms i)) is) =
    Ret (Inr (map (\<lambda>i. \<lparr>um_Data = data i, um_SerializedMessageRouting = hdr i, um_Round = ty\<rparr>) is))"
  using assms by (induction "is") (auto simp: go_simps)

definition round_key :: "string \<Rightarrow> party list option \<Rightarrow> string" where
  "round_key ty dest = (case dest of None \<Rightarrow> ty | Some ps \<Rightarrow> ty @ ''-'' @ p_Id (hd ps))"

lemma message_key_round:
  "round_messages marshal B ty dest ms data hdr \<Longrightarrow> i < B \<Longrightarrow> message_key (ms i) = Ret (round_key ty dest)"
  by (cases dest) (auto simp: round_messages_def message_key_def round_key_def go_index_def hd_conv_nth)

text \<open>The wire message of the whole batch, and how it leaves.\<close>

definition round_wire ::
  "'p WorkerExecutor \<Rightarrow> string \<Rightarrow> party list option \<Rightarrow> (nat \<Rightarrow> bytes) \<Rightarrow> (nat \<Rightarrow> bytes) \<Rightarrow> exec_action" where
  "round_wire w ty dest data hdr =
     (let msg = (\<lambda>to. (baseMessage UPDATE_MESSAGES (p_Id (we_myPid w)) to (wr_WorkId (we_request w)))
            \<lparr>tm_UpdateMessages := map (\<lambda>i. \<lparr>um_Data = data i, um_SerializedMessageRouting = hdr i, um_Round = ty\<rparr>)
                                   [0..<wr_BatchSize (we_request w)]\<rparr>)
      in case dest of None \<Rightarrow> ExBroadcast (we_pIDs w) (msg '''')
         | Some ps \<Rightarrow> ExUnicast (Some (hd ps)) (msg (p_Id (hd ps))))"

definition with_round :: "'p WorkerExecutor \<Rightarrow> string \<Rightarrow> party list option \<Rightarrow> nat set \<Rightarrow> (nat \<Rightarrow> tss_msg) \<Rightarrow> 'p WorkerExecutor" where
  "with_round w ty dest S ms = w\<lparr>we_jobOutput :=
     gput (round_key ty dest) (round_list (wr_BatchSize (we_request w)) S ms) (we_jobOutput w)\<rparr>"

lemma gput_gput [simp]: "gput k v (gput k v' m) = gput k v m"
  unfolding gput_def by (induction m) auto

lemma OnJobMessage_round:
  assumes "round_messages marshal (wr_BatchSize (we_request w)) ty dest ms data hdr"
    and "i < wr_BatchSize (we_request w)" and "S \<subseteq> {..<wr_BatchSize (we_request w)}"
    and "w1 = with_round w ty dest S ms \<or> (w1 = w \<and> S = {} \<and> gget (we_jobOutput w) (round_key ty dest) = None)"
  shows "OnJobMessage marshal i (ms i) w1 =
    Ret (if insert i S = {..<wr_BatchSize (we_request w)} then [round_wire w ty dest data hdr] else [],
         with_round w ty dest (insert i S) ms)"
proof -
  let ?B = "wr_BatchSize (we_request w)" and ?k = "round_key ty dest"
  let ?l = "round_list ?B S ms" and ?l' = "round_list ?B (insert i S) ms"
  have empty: "round_list ?B {} ms = replicate ?B None"
    by (rule nth_equalityI) (simp_all add: round_list_def)
  have w1: "we_request w1 = we_request w" "we_pIDs w1 = we_pIDs w" "we_myPid w1 = we_myPid w"
    "w1\<lparr>we_jobOutput := gput ?k ?l' (we_jobOutput w1)\<rparr> = with_round w ty dest (insert i S) ms"
    "(case gget (we_jobOutput w1) ?k of None \<Rightarrow> replicate ?B None | Some l \<Rightarrow> l) = ?l"
    using assms(4) empty by (auto simp: with_round_def)
  have len: "i < length ?l" using assms(2) by (simp add: round_list_def)
  have sub: "insert i S \<subseteq> {..<?B}" using assms(2,3) by auto
  have cnt: "getCompletedJobCount ?l' = ?B \<longleftrightarrow> insert i S = {..<?B}"
    unfolding round_list_count using sub card_subset_eq [of "{..<?B}" "insert i S"] by (auto simp: Int_absorb2)
  have key: "message_key (ms i) = Ret ?k" using message_key_round [OF assms(1,2)] .
  have full: "?l' = map (\<lambda>i. Some (ms i)) [0..<?B]" if "insert i S = {..<?B}"
    using that by (auto simp: round_list_def)
  have ser: "serialize_msgs marshal ty (map (\<lambda>i. Some (ms i)) [0..<?B]) =
    Ret (Inr (map (\<lambda>i. \<lparr>um_Data = data i, um_SerializedMessageRouting = hdr i, um_Round = ty\<rparr>) [0..<?B]))"
    using assms(1) by (intro serialize_round) (auto simp: round_messages_def)
  have ms: "msg_To (ms i) = dest" "msg_Type (ms i) = ty" "dest \<noteq> Some []"
    using assms(1,2) by (auto simp: round_messages_def)
  show ?thesis
  proof (cases "insert i S = {..<?B}")
    case True
    have tss: "NewTssMessage marshal (p_Id (we_myPid w)) to (wr_WorkId (we_request w)) ?l' ty =
        Ret (Inr ((baseMessage UPDATE_MESSAGES (p_Id (we_myPid w)) to (wr_WorkId (we_request w)))
          \<lparr>tm_UpdateMessages := map (\<lambda>i. \<lparr>um_Data = data i, um_SerializedMessageRouting = hdr i, um_Round = ty\<rparr>) [0..<?B]\<rparr>))" for to
      by (simp add: NewTssMessage_def full [OF True] ser)
    have "send_round marshal ?l' (ms i) w1 = Ret [round_wire w ty dest data hdr]"
      unfolding send_round_def w1 ms(1,2)
      using ms(3) by (cases dest) (simp_all add: tss round_wire_def go_index_def hd_conv_nth Let_def)
    then show ?thesis
      unfolding OnJobMessage_def key go_bind.simps Let_def w1 round_list_update [OF assms(2)] if_P [OF True]
        if_P [OF len] if_P [OF iffD2 [OF cnt True]] by simp
  next
    case False
    then show ?thesis
      unfolding OnJobMessage_def key go_bind.simps Let_def w1 round_list_update [OF assms(2)]
      using len cnt by simp
  qed
qed

lemma job_messages_round:
  assumes "round_messages marshal (wr_BatchSize (we_request w)) ty dest ms data hdr"
    and "distinct xs" and "set xs \<inter> S = {}" and "set xs \<union> S = {..<wr_BatchSize (we_request w)}" and "xs \<noteq> []"
    and "w1 = with_round w ty dest S ms \<or> (w1 = w \<and> S = {} \<and> gget (we_jobOutput w) (round_key ty dest) = None)"
  shows "job_messages marshal (map (\<lambda>i. (i, ms i)) xs) w1 =
    Ret ([round_wire w ty dest data hdr], with_round w ty dest {..<wr_BatchSize (we_request w)} ms)"
  using assms(2-)
proof (induction xs arbitrary: S w1)
  case (Cons x xs)
  let ?B = "wr_BatchSize (we_request w)"
  have x: "x < ?B" "S \<subseteq> {..<?B}" using Cons.prems(3) by auto
  note step = OnJobMessage_round [OF assms(1) x Cons.prems(5)]
  show ?case
  proof (cases xs)
    case Nil
    then have "insert x S = {..<?B}" using Cons.prems(3) by auto
    then show ?thesis using Nil step by simp
  next
    case (Cons y ys)
    then have "y \<notin> insert x S" "y \<in> {..<?B}" using Cons.prems(1-3) by auto
    then have ne: "insert x S \<noteq> {..<?B}" by blast
    have "job_messages marshal (map (\<lambda>i. (i, ms i)) xs) (with_round w ty dest (insert x S) ms) =
      Ret ([round_wire w ty dest data hdr], with_round w ty dest {..<?B} ms)"
    proof (rule Cons.IH)
      show "distinct xs" "set xs \<inter> insert x S = {}" using Cons.prems(1,2) by auto
      show "set xs \<union> insert x S = {..<?B}" unfolding Cons.prems(3) [symmetric] by auto
      show "xs \<noteq> []" using Cons by simp
    qed simp
    then show ?thesis using step ne by simp
  qed
qed simp

text \<open>
  C27. One wire message per round: in whatever order the jobs of a batch finish a round, the
  executor sends exactly one message for it, when the last job has finished, and its parts
  are the jobs' messages in the order of the jobs.
\<close>

theorem batch_round_sent_once:
  assumes "round_messages marshal (wr_BatchSize (we_request w)) ty dest ms data hdr"
    and "distinct xs" and "set xs = {..<wr_BatchSize (we_request w)}" and "xs \<noteq> []"
    and "gget (we_jobOutput w) (round_key ty dest) = None"
  shows "\<exists>w'. job_messages marshal (map (\<lambda>i. (i, ms i)) xs) w = Ret ([round_wire w ty dest data hdr], w')"
  using job_messages_round [OF assms(1,2), of "{}" w] assms(3-5) by auto

subsection \<open>Missing messages can be found again\<close>

text \<open>
  The key under which a node asks for a missing message is the key of the message the
  other node sent: if the executor of node \<open>p\<close> has sent round \<open>ty\<close>, to all or to \<open>me\<close>, then the request
  that \<open>me\<close> makes for type \<open>ty\<close> of \<open>p\<close> carries the key of exactly that wire message, provided the
  table of broadcast types agrees with the addressees of the message.
\<close>

theorem missing_message_key_matches:
  assumes "wr_WorkId (we_request w) = wr_WorkId (we_request v)" and "0 < wr_BatchSize (we_request v)"
    and "dest = None \<or> (\<exists>p ps. dest = Some (p # ps) \<and> p_Id p = p_Id (we_myPid w))"
    and "IsBroadcastMessage pname ty \<longleftrightarrow> dest = None"
  shows "\<exists>tssMsg request key. (round_wire v ty dest data hdr = ExBroadcast (we_pIDs v) tssMsg \<or>
      (\<exists>p. round_wire v ty dest data hdr = ExUnicast p tssMsg)) \<and> TssMessage_GetMessageKey tssMsg = Inr key \<and>
    (ask_for pname w (p_Id (we_myPid v)) ty = ExBroadcast (we_pIDs w) request \<or>
      (\<exists>p. ask_for pname w (p_Id (we_myPid v)) ty = ExUnicast p request)) \<and> tm_AskRequest request = Some key"
proof -
  obtain n where B: "wr_BatchSize (we_request v) = Suc n" using assms(2) by (cases "wr_BatchSize (we_request v)") auto
  have upt: "[0..<Suc n] = 0 # [1..<Suc n]" by (simp add: upt_conv_Cons del: upt_Suc)
  show ?thesis
    using assms(1,3,4) unfolding round_wire_def ask_for_def B upt
    by (cases dest) (auto simp: Let_def TssMessage_GetMessageKey_def NewRequestMessage_def baseMessage_def)
qed

subsection \<open>The outcome of a batch\<close>

fun job_results :: "(nat \<times> JobResult) list \<Rightarrow> 'p WorkerExecutor \<Rightarrow> (exec_action list \<times> 'p WorkerExecutor) go" where
  "job_results [] w = Ret ([], w)"
| "job_results ((i, r) # evs) w =
     go_bind (OnJobResult i r w) (\<lambda>(acts, w').
     go_bind (job_results evs w') (\<lambda>(acts', w''). Ret (acts @ acts', w'')))"

definition results_of :: "exec_action list \<Rightarrow> ExecutionResult list" where
  "results_of acts = concat (map (\<lambda>a. case a of ExResult r \<Rightarrow> [r] | _ \<Rightarrow> []) acts)"

lemma results_of_append [simp]: "results_of (xs @ ys) = results_of xs @ results_of ys"
  by (simp add: results_of_def)

lemma job_results_stopped: "we_isStopped w \<Longrightarrow> job_results evs w = Ret ([], w)"
  by (induction evs w rule: job_results.induct) (auto simp: OnJobResult_def)

definition result_list :: "nat \<Rightarrow> nat set \<Rightarrow> (nat \<Rightarrow> JobResult) \<Rightarrow> JobResult option list" where
  "result_list B S rs = map (\<lambda>i. if i \<in> S then Some (rs i) else None) [0..<B]"

lemma result_list_count: "length (filter (\<lambda>r. r \<noteq> None) (result_list B S rs)) = card (S \<inter> {..<B})"
proof -
  have "length (filter (\<lambda>r. r \<noteq> None) (result_list B S rs)) = length (filter (\<lambda>i. i \<in> S) [0..<B])"
    by (simp add: result_list_def filter_map comp_def if_distrib cong: if_cong)
  also have "\<dots> = card (set (filter (\<lambda>i. i \<in> S) [0..<B]))"
    by (simp add: distinct_card [symmetric] del: set_filter)
  also have "set (filter (\<lambda>i. i \<in> S) [0..<B]) = S \<inter> {..<B}" by auto
  finally show ?thesis .
qed

lemma result_list_update: "i < B \<Longrightarrow> (result_list B S rs)[i := Some (rs i)] = result_list B (insert i S) rs"
  by (rule nth_equalityI) (auto simp: result_list_def nth_list_update)

definition batch_outcome :: "nat \<Rightarrow> (nat \<Rightarrow> JobResult) \<Rightarrow> ExecutionResult" where
  "batch_outcome B rs =
     (if \<forall>i < B. jr_Success (rs i) then \<lparr>er_Success = True, er_JobResults = map (\<lambda>i. Some (rs i)) [0..<B]\<rparr>
      else failed_execution)"

lemma OnJobResult_step:
  assumes "\<not> we_isStopped w" and "we_jobResults w = result_list (wr_BatchSize (we_request w)) S rs"
    and "i < wr_BatchSize (we_request w)" and "S \<subseteq> {..<wr_BatchSize (we_request w)}"
  shows "\<exists>acts w'. OnJobResult i (rs i) w = Ret (acts, w') \<and> we_request w' = we_request w \<and>
    (if insert i S = {..<wr_BatchSize (we_request w)}
     then results_of acts = [batch_outcome (wr_BatchSize (we_request w)) rs] \<and> we_isStopped w'
     else results_of acts = [] \<and> \<not> we_isStopped w' \<and>
       we_jobResults w' = result_list (wr_BatchSize (we_request w)) (insert i S) rs)"
proof -
  let ?B = "wr_BatchSize (we_request w)" and ?l = "result_list (wr_BatchSize (we_request w)) (insert i S) rs"
  have sub: "insert i S \<subseteq> {..<?B}" using assms(3,4) by auto
  have cnt: "length (filter (\<lambda>r. r \<noteq> None) ?l) = ?B \<longleftrightarrow> insert i S = {..<?B}"
    unfolding result_list_count using sub card_subset_eq [of "{..<?B}" "insert i S"] by (auto simp: Int_absorb2)
  have upd: "(we_jobResults w)[i := Some (rs i)] = ?l" using assms(2,3) by (simp add: result_list_update)
  have len: "i < length (we_jobResults w)" using assms(2,3) by (simp add: result_list_def)
  have full: "?l = map (\<lambda>i. Some (rs i)) [0..<?B]" if "insert i S = {..<?B}"
    using that by (auto simp: result_list_def)
  show ?thesis
  proof (cases "insert i S = {..<?B}")
    case True
    have "(if \<exists>r \<in> set ?l. case r of None \<Rightarrow> False | Some r \<Rightarrow> \<not> jr_Success r then failed_execution
        else \<lparr>er_Success = True, er_JobResults = ?l\<rparr>) = batch_outcome ?B rs"
      unfolding full [OF True] by (auto simp: batch_outcome_def)
    then show ?thesis
      unfolding OnJobResult_def Let_def upd
      using assms(1) len iffD2 [OF cnt True] True by (simp add: executor_broadcastResult_def results_of_def)
  next
    case False
    then show ?thesis
      unfolding OnJobResult_def Let_def upd using assms(1) len cnt by (simp add: results_of_def)
  qed
qed

lemma job_results_batch:
  assumes "\<not> we_isStopped w" and "we_jobResults w = result_list (wr_BatchSize (we_request w)) S rs"
    and "distinct xs" and "set xs \<inter> S = {}" and "set xs \<union> S = {..<wr_BatchSize (we_request w)}" and "xs \<noteq> []"
  shows "\<exists>acts w'. job_results (map (\<lambda>i. (i, rs i)) xs) w = Ret (acts, w') \<and>
    results_of acts = [batch_outcome (wr_BatchSize (we_request w)) rs]"
  using assms
proof (induction xs arbitrary: S w)
  case (Cons x xs)
  let ?B = "wr_BatchSize (we_request w)"
  have x: "x < ?B" "S \<subseteq> {..<?B}" using Cons.prems(5) by auto
  obtain acts w' where step: "OnJobResult x (rs x) w = Ret (acts, w')" "we_request w' = we_request w"
    and out: "if insert x S = {..<?B} then results_of acts = [batch_outcome ?B rs] \<and> we_isStopped w'
      else results_of acts = [] \<and> \<not> we_isStopped w' \<and> we_jobResults w' = result_list ?B (insert x S) rs"
    using OnJobResult_step [OF Cons.prems(1,2) x] by blast
  show ?case
  proof (cases "insert x S = {..<?B}")
    case True
    then have "we_isStopped w'" "results_of acts = [batch_outcome ?B rs]" using out by simp_all
    then show ?thesis using step(1) job_results_stopped [of w'] by simp
  next
    case False
    have "xs \<noteq> []"
    proof
      assume "xs = []"
      then show False using False Cons.prems(5) by simp
    qed
    moreover have "distinct xs" "set xs \<inter> insert x S = {}" using Cons.prems(3,4) by auto
    moreover have "set xs \<union> insert x S = {..<?B}" unfolding Cons.prems(5) [symmetric] by auto
    ultimately have "\<exists>acts' w''. job_results (map (\<lambda>i. (i, rs i)) xs) w' = Ret (acts', w'') \<and>
        results_of acts' = [batch_outcome ?B rs]"
      using Cons.IH [of w' "insert x S"] False out step(2) by simp
    then show ?thesis using step out False by auto
  qed
qed simp

text \<open>
  C26. The outcome of a batch does not depend on the order in which its jobs end: the executor of
  a new work reports exactly one result, a success with all job results in job order if every job
  succeeded, a failure otherwise.
\<close>

theorem batch_outcome_reported_once:
  assumes "\<not> we_isStopped w" and "we_jobResults w = replicate (wr_BatchSize (we_request w)) None"
    and "distinct xs" and "set xs = {..<wr_BatchSize (we_request w)}" and "xs \<noteq> []"
  shows "\<exists>acts w'. job_results (map (\<lambda>i. (i, rs i)) xs) w = Ret (acts, w') \<and>
    results_of acts = [batch_outcome (wr_BatchSize (we_request w)) rs]"
proof -
  have "we_jobResults w = result_list (wr_BatchSize (we_request w)) {} rs"
    unfolding assms(2) by (rule nth_equalityI) (simp_all add: result_list_def)
  then show ?thesis using job_results_batch [OF assms(1) _ assms(3), of "{}"] assms(4,5) by simp
qed

subsection \<open>At most one result\<close>

text \<open>Everything that happens to an executor after \<open>Init\<close>.\<close>

datatype exec_event =
    EvMessage nat tss_msg
  | EvResult nat JobResult
  | EvUpdate int TssMessage
  | EvTimeout
  | EvStop

fun exec_step ::
  "'p tss_party \<Rightarrow> (opaque \<Rightarrow> bytes result) \<Rightarrow> (bytes \<Rightarrow> string option) \<Rightarrow> exec_event \<Rightarrow> 'p WorkerExecutor \<Rightarrow>
   (exec_action list \<times> 'p WorkerExecutor) go" where
  "exec_step py marshal unmarshal (EvMessage i msg) w = OnJobMessage marshal i msg w"
| "exec_step py marshal unmarshal (EvResult i r) w = OnJobResult i r w"
| "exec_step py marshal unmarshal (EvUpdate now msg) w =
     go_bind (ProcessUpdateMessage py unmarshal now msg w) (\<lambda>(err, acts, w'). Ret (acts, w'))"
| "exec_step py marshal unmarshal EvTimeout w = Ret (OnJobTimeout w)"
| "exec_step py marshal unmarshal EvStop w = Ret ([], executor_Stop w)"

fun exec_run ::
  "'p tss_party \<Rightarrow> (opaque \<Rightarrow> bytes result) \<Rightarrow> (bytes \<Rightarrow> string option) \<Rightarrow> exec_event list \<Rightarrow> 'p WorkerExecutor \<Rightarrow>
   (exec_action list \<times> 'p WorkerExecutor) go" where
  "exec_run py marshal unmarshal [] w = Ret ([], w)"
| "exec_run py marshal unmarshal (e # es) w =
     go_bind (exec_step py marshal unmarshal e w) (\<lambda>(acts, w').
     go_bind (exec_run py marshal unmarshal es w') (\<lambda>(acts', w''). Ret (acts @ acts', w'')))"

definition once :: "'p WorkerExecutor \<Rightarrow> exec_action list \<times> 'p WorkerExecutor \<Rightarrow> bool" where
  "once w r \<longleftrightarrow> (results_of (fst r) = [] \<and> (we_isStopped w \<longrightarrow> we_isStopped (snd r)) \<or>
     (\<exists>x. results_of (fst r) = [x]) \<and> \<not> we_isStopped w \<and> we_isStopped (snd r))"

lemma once_broadcast: "we_isStopped w = we_isStopped v \<Longrightarrow> once v (executor_broadcastResult r w)"
  by (simp add: once_def executor_broadcastResult_def results_of_def)

lemma once_silent: "results_of acts = [] \<Longrightarrow> we_isStopped w' = we_isStopped w \<Longrightarrow> once w (acts, w')"
  by (simp add: once_def)

lemma results_of_Nil [simp]: "results_of [] = []"
  by (simp add: results_of_def)

lemma send_round_silent: "send_round marshal l msg w = Ret acts \<Longrightarrow> results_of acts = []"
  by (auto simp: send_round_def go_bind_eq_Ret_iff case_sum_eq_Ret_iff case_option_eq_Ret_iff results_of_def)

lemma once_OnJobMessage: "OnJobMessage marshal i msg w = Ret r \<Longrightarrow> once w r"
  unfolding OnJobMessage_def Let_def
  by (cases "message_key msg") (auto simp: go_bind_eq_Ret_iff intro!: once_silent dest: send_round_silent split: if_splits)

lemma once_OnJobResult: "OnJobResult i r w = Ret x \<Longrightarrow> once w x"
  using once_broadcast [of "w\<lparr>we_jobResults := (we_jobResults w)[i := Some r]\<rparr>" w]
  by (auto simp: OnJobResult_def Let_def once_def results_of_def split: if_splits)

lemma once_apply_updates: "apply_updates py now msgs w = Ret r \<Longrightarrow> once w r"
  by (auto simp: apply_updates_def go_bind_eq_Ret_iff Let_def case_prod_unfold intro!: once_silent once_broadcast
    split: if_split_asm)

lemma once_ProcessUpdateMessage: "ProcessUpdateMessage py unm now msg w = Ret (err, acts, w') \<Longrightarrow> once w (acts, w')"
  unfolding ProcessUpdateMessage_def
  by (auto simp: go_bind_eq_Ret_iff case_sum_eq_Ret_iff case_option_eq_Ret_iff case_prod_unfold
    intro: once_silent dest!: once_apply_updates split: if_split_asm)

lemma once_step: "exec_step py marshal unm e w = Ret r \<Longrightarrow> once w r"
proof (cases e)
  case (EvUpdate now msg)
  then show "exec_step py marshal unm e w = Ret r \<Longrightarrow> once w r"
    by (cases "ProcessUpdateMessage py unm now msg w") (auto dest: once_ProcessUpdateMessage)
next
  case EvTimeout
  then show "exec_step py marshal unm e w = Ret r \<Longrightarrow> once w r"
    by (auto simp: OnJobTimeout_def once_broadcast)
next
  case EvStop
  then show "exec_step py marshal unm e w = Ret r \<Longrightarrow> once w r"
    by (auto simp: once_def executor_Stop_def)
qed (simp_all add: once_OnJobMessage once_OnJobResult)

lemma once_run: "exec_run py marshal unm es w = Ret r \<Longrightarrow> once w r"
proof (induction es arbitrary: w r)
  case (Cons e es)
  then obtain acts w' acts' w'' where "exec_step py marshal unm e w = Ret (acts, w')"
    "exec_run py marshal unm es w' = Ret (acts', w'')" "r = (acts @ acts', w'')"
    by (auto simp: go_bind_eq_Ret_iff)
  then show ?case using once_step [of py marshal unm e w] Cons.IH [of w'] by (fastforce simp: once_def)
qed (auto simp: once_def results_of_def)

text \<open>
  C11. An executor reports at most one result, whatever job messages, job results, update
  messages, timeouts and stops reach it in whatever order, and none after it has been stopped.
\<close>

theorem executor_reports_at_most_once:
  assumes "exec_run py marshal unmarshal es w = Ret (acts, w')"
  shows "length (results_of acts) \<le> 1 \<and> (we_isStopped w \<longrightarrow> results_of acts = [])"
  using once_run [OF assms] by (auto simp: once_def)

subsection \<open>Error paths\<close>

text \<open>
  A key generation without pre-parameters stops the node: when the request carries none
  and the database has none, \<open>Init\<close> goes on after the error and the first job panics.
\<close>

theorem keygen_without_preparams_panics:
  assumes "we_workType w = EcKeygen" and "wr_EcKeygenInput (we_request w) = None" and "we_ecKeygenInput w = None"
    and "0 < wr_BatchSize (we_request w)"
  shows "executor_Init py np orderBits pname (Inl err) w = Panic NilDereference"
proof -
  obtain n where B: "[0..<wr_BatchSize (we_request w)] = 0 # n"
    using assms(4) by (simp add: upt_conv_Cons)
  show ?thesis
    using assms(1-3) B
    by (simp add: executor_Init_def loadPreparams_def make_job_def NewEcKeygenJob_def go_simps Let_def)
qed

text \<open>
  An update message with too few parts stops the node: a party of the work that sends a
  message with fewer parts than there are jobs, all of which parse, makes a running executor panic.
\<close>

theorem short_update_message_panics:
  assumes "\<not> we_isStopped w" and "GetPidFromString (tm_From msg) (we_pIDs w) = Some p"
    and "length (tm_UpdateMessages msg) < length (we_jobs w)"
    and "\<forall>um \<in> set (tm_UpdateMessages msg). \<exists>x. py_Parse py (um_Data um) p (IsBroadcast msg) = Inr x \<and>
      unmarshal (um_SerializedMessageRouting um) = None"
  shows "ProcessUpdateMessage py unmarshal now msg w = Panic IndexOutOfRange"
proof -
  have "parse_updates py unmarshal p b ums n = Panic IndexOutOfRange"
    if "length ums < n" "\<forall>um \<in> set ums. \<exists>x. py_Parse py (um_Data um) p b = Inr x \<and>
      unmarshal (um_SerializedMessageRouting um) = None" for b ums n
    using that
  proof (induction ums arbitrary: n)
    case Nil
    then show ?case by (cases n) auto
  next
    case (Cons um ums)
    then show ?case by (cases n) auto
  qed
  then show ?thesis using assms by (simp add: ProcessUpdateMessage_def)
qed

subsection \<open>Concrete runs\<close>

definition echo_party :: "unit tss_party" where
  "echo_party = \<lparr>py_PartyID = (\<lambda>_. abc ! 0), py_Start = (\<lambda>p. (None, p)),
     py_Parse = (\<lambda>bz p b. Inr (out_msg ''t'', EcSignRound3Message)), py_Update = (\<lambda>m p. (None, p))\<rparr>"

definition two_signings :: WorkRequest where
  "two_signings = NewEcSigningRequest ref_lib ''w'' abc 1 (Some [Some [1], Some [2]]) (Some [''eth'']) (Some 5)"

definition idle_executor :: "WorkRequest \<Rightarrow> WorkType \<Rightarrow> nat \<Rightarrow> unit WorkerExecutor" where
  "idle_executor r ty i = NewWorkerExecutor ref_lib r ty (abc ! i) abc None NewDefaultTimeoutConfig"

definition round3 :: "nat \<Rightarrow> tss_msg" where
  "round3 i = (out_msg (ref_pname EcSignRound3Message))\<lparr>msg_WireBytes := Inr ([word_of_nat i], 0)\<rparr>"

lemma idle_executor_sel [simp]: "we_request (idle_executor r ty i) = r" "we_isStopped (idle_executor r ty i) = False"
  "we_jobResults (idle_executor r ty i) = replicate (wr_BatchSize r) None" "we_jobOutput (idle_executor r ty i) = []"
  "we_workType (idle_executor r ty i) = ty" "we_ecKeygenInput (idle_executor r ty i) = None"
  "we_pIDs (idle_executor r ty i) = abc"
  by (simp_all add: idle_executor_def NewWorkerExecutor_def Let_def)

lemma two_signings_batch [simp]: "wr_BatchSize two_signings = 2"
  by code_simp

lemma two_jobs: "{..<2 :: nat} = {1, 0}"
  by auto

theorem batch_round_sent_once_witness:
  "\<exists>w'. job_messages (\<lambda>_. Inr []) (map (\<lambda>i. (i, round3 i)) [1, 0]) (idle_executor two_signings EcSigning 0) =
    Ret ([round_wire (idle_executor two_signings EcSigning 0) (ref_pname EcSignRound3Message) None
            (\<lambda>i. [word_of_nat i]) (\<lambda>_. [])], w')"
  by (rule batch_round_sent_once) (auto simp: round_messages_def round3_def out_msg_def two_jobs)

theorem missing_message_key_matches_witness:
  "\<exists>tssMsg request key.
    (round_wire (idle_executor two_signings EcSigning 1) (ref_pname EcSignRound3Message) None (\<lambda>i. []) (\<lambda>_. []) =
       ExBroadcast (we_pIDs (idle_executor two_signings EcSigning 1)) tssMsg \<or>
     (\<exists>p. round_wire (idle_executor two_signings EcSigning 1) (ref_pname EcSignRound3Message) None (\<lambda>i. []) (\<lambda>_. []) =
       ExUnicast p tssMsg)) \<and> TssMessage_GetMessageKey tssMsg = Inr key \<and>
    (ask_for ref_pname (idle_executor two_signings EcSigning 0) (p_Id (we_myPid (idle_executor two_signings EcSigning 1)))
       (ref_pname EcSignRound3Message) = ExBroadcast (we_pIDs (idle_executor two_signings EcSigning 0)) request \<or>
     (\<exists>p. ask_for ref_pname (idle_executor two_signings EcSigning 0)
       (p_Id (we_myPid (idle_executor two_signings EcSigning 1))) (ref_pname EcSignRound3Message) = ExUnicast p request)) \<and>
    tm_AskRequest request = Some key"
  by (rule missing_message_key_matches) (simp_all add: IsBroadcastMessage_types ref_pname_inj)

theorem batch_outcome_reported_once_witness:
  "\<exists>acts w'. job_results (map (\<lambda>i. (i, no_result (i = 0))) [1, 0]) (idle_executor two_signings EcSigning 0) = Ret (acts, w') \<and>
    results_of acts = [batch_outcome (wr_BatchSize (we_request (idle_executor two_signings EcSigning 0))) (\<lambda>i. no_result (i = 0))]"
  by (rule batch_outcome_reported_once) (simp_all add: two_jobs)

theorem executor_reports_at_most_once_witness:
  "length (results_of [ExResult failed_execution]) \<le> 1"
proof (rule executor_reports_at_most_once [THEN conjunct1])
  show "exec_run echo_party (\<lambda>_. Inr []) (\<lambda>_. None) [EvTimeout, EvResult 0 (no_result True), EvTimeout]
      (idle_executor two_signings EcSigning 0) =
    Ret ([ExResult failed_execution], (idle_executor two_signings EcSigning 0)\<lparr>we_isStopped := True\<rparr>)"
    by code_simp
qed

theorem keygen_without_preparams_panics_witness:
  "executor_Init echo_party unit_parties 256 ref_pname (Inl ErrNotFound) (idle_executor abc_keygen EcKeygen 0) =
     Panic NilDereference"
  by (rule keygen_without_preparams_panics)
    (simp_all add: abc_keygen_def NewEcKeygenRequest_def baseRequest_def)

theorem short_update_message_panics_witness:
  "ProcessUpdateMessage echo_party (\<lambda>_. None) 0 (baseMessage UPDATE_MESSAGES ''b'' '''' ''w'')
     ((idle_executor abc_keygen EdKeygen 0)\<lparr>we_jobs := [ed_job]\<rparr>) = Panic IndexOutOfRange"
proof (rule short_update_message_panics [where p = "abc ! 1"])
  show "GetPidFromString (tm_From (baseMessage UPDATE_MESSAGES ''b'' '''' ''w''))
      (we_pIDs ((idle_executor abc_keygen EdKeygen 0)\<lparr>we_jobs := [ed_job]\<rparr>)) = Some (abc ! 1)"
    by code_simp
qed (simp_all add: baseMessage_def)

end
