(* ===== verification/Default_Worker.thy ===== *)
theory Default_Worker
  imports Worker_Executor Message_Cache
begin

section \<open>The worker: worker/default\_worker.go\<close>

text \<open>
  A worker carries one work through its phases: the selection of the participants, then the
  execution. Messages that arrive too early for a phase wait in a message cache. The callbacks to
  the engine are actions. What the worker takes from outside is collected in \<open>worker_env\<close>.
\<close>

record 'p worker_env =
  ev_lib :: tss_lib
  ev_py :: "'p tss_party"
  ev_np :: "'p new_party"
  ev_orderBits :: nat
  ev_pname :: "MessageContent \<Rightarrow> string"
  ev_unmarshal :: "bytes \<Rightarrow> string option"
  ev_hash :: "string \<Rightarrow> string"
  ev_grow :: "nat \<Rightarrow> nat \<Rightarrow> nat"

datatype worker_action =
    OnWorkFailed
  | OnNodeNotSelected
  | OnWorkerResult "JobResult option list"
  | FromExecutor exec_action
  | FromSelection sel_action

record ('m, 'p) DefaultWorker =
  dw_batchSize :: nat
  dw_request :: WorkRequest
  dw_myPid :: party
  dw_allParties :: "party list"
  dw_jobType :: WorkType
  dw_workId :: string
  dw_maxJob :: int
  dw_presignsManager :: "'m option"
  dw_cfg :: TimeoutConfig
  dw_preExecutionCache :: MessageCache
  dw_preworkSelection :: "'m option PreworkSelection option"
  dw_executor :: "'p WorkerExecutor option"
  dw_curWorkType :: WorkType
  dw_isStopped :: bool

definition baseWorker ::
  "WorkRequest \<Rightarrow> party list \<Rightarrow> party \<Rightarrow> TimeoutConfig \<Rightarrow> int \<Rightarrow> ('m, 'p) DefaultWorker" where
  "baseWorker request allParties myPid cfg maxJob =
     \<lparr>dw_batchSize = wr_BatchSize request, dw_request = request, dw_myPid = myPid, dw_allParties = allParties,
      dw_jobType = EcKeygen, dw_workId = wr_WorkId request, dw_maxJob = maxJob, dw_presignsManager = None,
      dw_cfg = cfg, dw_preExecutionCache = NewMessageCache, dw_preworkSelection = None, dw_executor = None,
      dw_curWorkType = EcKeygen, dw_isStopped = False\<rparr>"

definition NewKeygenWorker :: "WorkRequest \<Rightarrow> party \<Rightarrow> TimeoutConfig \<Rightarrow> ('m, 'p) DefaultWorker" where
  "NewKeygenWorker request myPid cfg =
     (baseWorker request (wr_AllParties request) myPid cfg 1)\<lparr>dw_jobType := EcKeygen\<rparr>"

definition NewSigningWorker :: "WorkRequest \<Rightarrow> party \<Rightarrow> TimeoutConfig \<Rightarrow> int \<Rightarrow> 'm \<Rightarrow> ('m, 'p) DefaultWorker" where
  "NewSigningWorker request myPid cfg maxJob presignsManager =
     (baseWorker request (wr_AllParties request) myPid cfg maxJob)
       \<lparr>dw_jobType := EcSigning, dw_presignsManager := Some presignsManager\<rparr>"

text \<open>
  \<open>Start\<close> creates the selection and hands it the cached messages of its types; the result is the
  worker and these messages, with which \<open>selection_Run\<close> is then called in a goroutine.
\<close>

definition worker_Start ::
  "'p worker_env \<Rightarrow> (MessageCache \<Rightarrow> (string \<times> slice) list) \<Rightarrow> TssMessage list \<Rightarrow> ('m, 'p) DefaultWorker \<Rightarrow>
   (TssMessage list \<times> ('m, 'p) DefaultWorker) go" where
  "worker_Start env ord preworkCache w =
     (let cache = fold (AddMessage (ev_grow env)) preworkCache (dw_preExecutionCache w)
      in go_bind (NewPreworkSelection (ev_hash env) (dw_request w) (dw_allParties w) (dw_myPid w)
                    (dw_presignsManager w) (dw_cfg w)) (\<lambda>selection.
           let (cache', cacheMsgs) = PopAllMessages (ev_grow env) (ord cache) (dw_workId w)
                 (Some GetPreworkSelectionMsgType) cache
           in Ret (cacheMsgs, w\<lparr>dw_preExecutionCache := cache',
                                dw_preworkSelection := Some (selection_Init selection)\<rparr>)))"

subsection \<open>From the selection to the execution\<close>

text \<open>\<open>preparams\<close> is what the database answers when the executor asks for its pre-parameters.\<close>

definition runExecutor ::
  "'p worker_env \<Rightarrow> opaque result \<Rightarrow> (MessageCache \<Rightarrow> (string \<times> slice) list) \<Rightarrow> int \<Rightarrow> 'p WorkerExecutor \<Rightarrow>
   ('m, 'p) DefaultWorker \<Rightarrow> (worker_action list \<times> ('m, 'p) DefaultWorker) go" where
  "runExecutor env preparams ord now executor w =
     go_bind (executor_Init (ev_py env) (ev_np env) (ev_orderBits env) (ev_pname env) preparams executor)
       (\<lambda>(err, acts, executor').
       let (cache', cacheMsgs) = PopAllMessages (ev_grow env) (ord (dw_preExecutionCache w)) (dw_workId w)
             (Some GetUpdateMessageType) (dw_preExecutionCache w)
       in go_bind (executor_Run (ev_py env) (ev_unmarshal env) now cacheMsgs executor') (\<lambda>(acts', executor'').
            Ret (map FromExecutor (acts @ acts'),
                 w\<lparr>dw_preExecutionCache := cache', dw_executor := Some executor''\<rparr>)))"

definition startEcExecution ::
  "'p worker_env \<Rightarrow> opaque result \<Rightarrow> (string list \<Rightarrow> opaque option list) \<Rightarrow> (MessageCache \<Rightarrow> (string \<times> slice) list) \<Rightarrow>
   int \<Rightarrow> SelectionResult \<Rightarrow> ('m, 'p) DefaultWorker \<Rightarrow> (worker_action list \<times> ('m, 'p) DefaultWorker) go" where
  "startEcExecution env preparams getPresignOutputs ord now result w =
     go_bind (deref_all (sr_SelectedPids result)) (\<lambda>pids.
       let sortedPids = SortPartyIDs (ev_lib env) pids;
           ecSigningPresign = (if IsSigning (dw_request w) \<and> length (sr_PresignIds result) > 0
                               then Some (getPresignOutputs (sr_PresignIds result)) else None);
           w1 = w\<lparr>dw_curWorkType := wr_WorkType (dw_request w)\<rparr>;
           executor = NewWorkerExecutor (ev_lib env) (dw_request w1) (dw_curWorkType w1) (dw_myPid w1) sortedPids
                        ecSigningPresign (dw_cfg w1)
       in runExecutor env preparams ord now executor w1)"

definition startEdExecution ::
  "'p worker_env \<Rightarrow> opaque result \<Rightarrow> (MessageCache \<Rightarrow> (string \<times> slice) list) \<Rightarrow>
   int \<Rightarrow> SelectionResult \<Rightarrow> ('m, 'p) DefaultWorker \<Rightarrow> (worker_action list \<times> ('m, 'p) DefaultWorker) go" where
  "startEdExecution env preparams ord now result w =
     go_bind (deref_all (sr_SelectedPids result)) (\<lambda>pids.
       let sortedPids = SortPartyIDs (ev_lib env) pids;
           w1 = w\<lparr>dw_curWorkType := wr_WorkType (dw_request w)\<rparr>;
           executor = NewWorkerExecutor (ev_lib env) (dw_request w1) (dw_curWorkType w1) (dw_myPid w1) sortedPids
                        None (dw_cfg w1)
       in runExecutor env preparams ord now executor w1)"

definition onSelectionResult ::
  "'p worker_env \<Rightarrow> opaque result \<Rightarrow> (string list \<Rightarrow> opaque option list) \<Rightarrow> (MessageCache \<Rightarrow> (string \<times> slice) list) \<Rightarrow>
   int \<Rightarrow> SelectionResult \<Rightarrow> ('m, 'p) DefaultWorker \<Rightarrow> (worker_action list \<times> ('m, 'p) DefaultWorker) go" where
  "onSelectionResult env preparams getPresignOutputs ord now result w =
     (if \<not> sr_Success result then Ret ([OnWorkFailed], w)
      else if sr_IsNodeExcluded result then Ret ([OnNodeNotSelected], w)
      else if IsEcdsa (dw_request w) then startEcExecution env preparams getPresignOutputs ord now result w
      else startEdExecution env preparams ord now result w)"

text \<open>The time after which \<open>startTimeoutClock\<close> stops the worker; \<open>None\<close> when it only logs.\<close>

definition startTimeoutClock :: "('m, 'p) DefaultWorker \<Rightarrow> int option" where
  "startTimeoutClock w =
     (case wr_WorkType (dw_request w) of
        EcKeygen \<Rightarrow> Some (tc_KeygenJobTimeout (dw_cfg w) + tc_SelectionLeaderTimeout (dw_cfg w))
      | EcSigning \<Rightarrow> Some (tc_SigningJobTimeout (dw_cfg w) + tc_SelectionLeaderTimeout (dw_cfg w))
      | _ \<Rightarrow> None)"

subsection \<open>Messages\<close>

text \<open>The log lines of the update branch read the round of the first part.\<close>

definition first_round :: "TssMessage \<Rightarrow> string go" where
  "first_round msg = go_bind (go_index (tm_UpdateMessages msg) 0) (\<lambda>um. Ret (um_Round um))"

definition worker_ProcessNewMessage ::
  "'p worker_env \<Rightarrow> int \<Rightarrow> TssMessage \<Rightarrow> ('m, 'p) DefaultWorker \<Rightarrow>
   (string option \<times> worker_action list \<times> ('m, 'p) DefaultWorker) sending go" where
  "worker_ProcessNewMessage env now msg w =
     (case tm_Type msg of
        UPDATE_MESSAGES \<Rightarrow>
          (case dw_executor w of
             None \<Rightarrow>
               go_bind (first_round msg) (\<lambda>_.
                 Ret (Sent (None, [], w\<lparr>dw_preExecutionCache := AddMessage (ev_grow env) msg (dw_preExecutionCache w)\<rparr>)))
           | Some executor \<Rightarrow>
               go_bind (ProcessUpdateMessage (ev_py env) (ev_unmarshal env) now msg executor) (\<lambda>(err, acts, executor').
                 case err of
                   None \<Rightarrow> Ret (Sent (None, map FromExecutor acts, w\<lparr>dw_executor := Some executor'\<rparr>))
                 | Some e \<Rightarrow> go_bind (first_round msg) (\<lambda>_.
                     Ret (Sent (None, map FromExecutor acts, w\<lparr>dw_executor := Some executor'\<rparr>)))))
      | t \<Rightarrow>
          if t = AVAILABILITY_REQUEST \<or> t = AVAILABILITY_RESPONSE \<or> t = PRE_EXEC_OUTPUT then
            (case dw_preworkSelection w of
               None \<Rightarrow>
                 Ret (Sent (None, [], w\<lparr>dw_preExecutionCache := AddMessage (ev_grow env) msg (dw_preExecutionCache w)\<rparr>))
             | Some selection \<Rightarrow>
                 (case selection_ProcessNewMessage msg selection of
                    Blocked \<Rightarrow> Ret Blocked
                  | Sent (err, acts, selection') \<Rightarrow>
                      Ret (Sent (err, map FromSelection acts, w\<lparr>dw_preworkSelection := Some selection'\<rparr>))))
          else Ret (Sent (Some (''invalid message '' @ TssMessage_Type_String (tm_Type msg)), [], w)))"

subsection \<open>The end of a work\<close>

definition saveJobResultData ::
  "'d Database \<Rightarrow> ExecutionResult \<Rightarrow> ('m, 'p) DefaultWorker \<Rightarrow> 'd \<Rightarrow> (bool \<times> 'd) go" where
  "saveJobResultData db result w d =
     (let request = dw_request w in
      if IsKeygen request then
        go_bind (deref_all (er_JobResults result)) (\<lambda>results.
        if IsEcdsa request then
          go_bind (go_index (GetEcKeygenOutputs results) 0) (\<lambda>output.
            case db_SaveEcKeygen db (wr_KeygenType request) (wr_WorkId request) (wr_AllParties request) output d of
              (err, d') \<Rightarrow> Ret (err = None, d'))
        else
          go_bind (go_index (GetEdKeygenOutputs results) 0) (\<lambda>output.
            case db_SaveEdKeygen db (wr_KeygenType request) (wr_WorkId request) (wr_AllParties request) output d of
              (err, d') \<Rightarrow> Ret (err = None, d')))
      else go_bind (IsEcPresign request) (\<lambda>_. Ret (True, d)))"

definition onJobExecutionResult ::
  "'d Database \<Rightarrow> ExecutionResult \<Rightarrow> ('m, 'p) DefaultWorker \<Rightarrow> 'd \<Rightarrow> (worker_action list \<times> 'd) go" where
  "onJobExecutionResult db result w d =
     (if er_Success result then
        go_bind (saveJobResultData db result w d) (\<lambda>(ok, d').
          if \<not> ok then Ret ([OnWorkFailed], d') else Ret ([OnWorkerResult (er_JobResults result)], d'))
      else Ret ([OnWorkFailed], d))"

text \<open>\<open>Stop\<close> needs the selection: its pointer is nil before \<open>Start\<close>.\<close>

definition worker_Stop :: "('m, 'p) DefaultWorker \<Rightarrow> ('m, 'p) DefaultWorker go" where
  "worker_Stop w =
     (if \<not> dw_isStopped w then
        go_bind (go_deref (dw_preworkSelection w)) (\<lambda>selection.
          Ret (w\<lparr>dw_preworkSelection := Some (selection_Stop selection),
                 dw_executor := map_option executor_Stop (dw_executor w)\<rparr>))
      else Ret w)"

definition GetCulprits :: "('m, 'p) DefaultWorker \<Rightarrow> party list" where
  "GetCulprits w = []"

definition GetPartyId :: "('m, 'p) DefaultWorker \<Rightarrow> string" where
  "GetPartyId w = p_Id (dw_myPid w)"

subsection \<open>A key is announced only after it has been stored\<close>

lemma deref_all_RetD: "deref_all xs = Ret ys \<Longrightarrow> xs = map Some ys"
proof (induction xs arbitrary: ys)
  case (Cons x xs)
  then show ?case by (cases x) (auto simp: go_bind_eq_Ret_iff go_simps)
qed simp

lemma result_acts:
  assumes "onJobExecutionResult db result w d = Ret (acts, d')"
  shows "acts = [OnWorkFailed] \<or> er_Success result \<and> acts = [OnWorkerResult (er_JobResults result)] \<and>
      saveJobResultData db result w d = Ret (True, d')"
    and "\<not> er_Success result \<Longrightarrow> acts = [OnWorkFailed] \<and> d' = d"
    and "er_Success result \<Longrightarrow> \<not> IsKeygen (dw_request w) \<Longrightarrow>
      acts = [OnWorkerResult (er_JobResults result)] \<and> d' = d"
  using assms by (auto simp: onJobExecutionResult_def saveJobResultData_def go_bind_eq_Ret_iff split: if_split_asm)

lemma keygen_saved:
  assumes "saveJobResultData db result w d = Ret (True, d')" and "IsKeygen (dw_request w)"
  shows "\<exists>r rest. er_JobResults result = Some r # rest \<and>
    (if IsEcdsa (dw_request w) then db_SaveEcKeygen db else db_SaveEdKeygen db)
      (wr_KeygenType (dw_request w)) (wr_WorkId (dw_request w)) (wr_AllParties (dw_request w))
      (if IsEcdsa (dw_request w) then jr_EcKeygen r else jr_EdKeygen r) d = (None, d')"
proof -
  obtain results where rs: "deref_all (er_JobResults result) = Ret results"
    using assms by (auto simp: saveJobResultData_def Let_def go_bind_eq_Ret_iff)
  note outs = saveJobResultData_def Let_def GetEcKeygenOutputs_def GetEdKeygenOutputs_def go_index_def
  show ?thesis
  proof (cases results)
    case Nil
    then show ?thesis using assms rs by (auto simp: outs split: if_split_asm)
  next
    case (Cons r rest)
    then show ?thesis
      using assms rs deref_all_RetD [OF rs] by (auto simp: outs split: if_split_asm prod.split_asm)
  qed
qed

text \<open>
  C5. Every execution result, of a key generation or a signing, that is handled without a panic
  leads to exactly one callback to the engine: a failed one to \<open>OnWorkFailed\<close>, with the database
  untouched; a successful signing to \<open>OnWorkerResult\<close> with the results of its jobs. A key generation
  is reported as a success only when the executor succeeded and the database has accepted the key
  share of its first job, under the work's key type, id and parties.
\<close>

theorem keygen_reported_only_if_saved:
  assumes "onJobExecutionResult db result w d = Ret (acts, d')"
  shows "(acts = [OnWorkFailed] \<or> acts = [OnWorkerResult (er_JobResults result)]) \<and>
    (\<not> er_Success result \<longrightarrow> acts = [OnWorkFailed] \<and> d' = d) \<and>
    (er_Success result \<and> \<not> IsKeygen (dw_request w) \<longrightarrow> acts = [OnWorkerResult (er_JobResults result)] \<and> d' = d) \<and>
    (IsKeygen (dw_request w) \<and> acts \<noteq> [OnWorkFailed] \<longrightarrow> er_Success result \<and>
      (\<exists>r rest. er_JobResults result = Some r # rest \<and>
        (if IsEcdsa (dw_request w) then db_SaveEcKeygen db else db_SaveEdKeygen db)
          (wr_KeygenType (dw_request w)) (wr_WorkId (dw_request w)) (wr_AllParties (dw_request w))
          (if IsEcdsa (dw_request w) then jr_EcKeygen r else jr_EdKeygen r) d = (None, d')))"
  using result_acts [OF assms] keygen_saved [of db result w d d'] by blast

subsection \<open>Early update messages\<close>

fun deliver_all ::
  "'p worker_env \<Rightarrow> (int \<times> TssMessage) list \<Rightarrow> ('m, 'p) DefaultWorker \<Rightarrow>
   (worker_action list \<times> ('m, 'p) DefaultWorker) sending go" where
  "deliver_all env [] w = Ret (Sent ([], w))"
| "deliver_all env ((now, msg) # msgs) w =
     go_bind (worker_ProcessNewMessage env now msg w) (\<lambda>r.
       case r of
         Blocked \<Rightarrow> Ret Blocked
       | Sent (err, acts, w') \<Rightarrow>
           go_bind (deliver_all env msgs w') (\<lambda>r'.
             case r' of Blocked \<Rightarrow> Ret Blocked | Sent (acts', w'') \<Rightarrow> Ret (Sent (acts @ acts', w''))))"

definition update_with_parts :: "TssMessage \<Rightarrow> bool" where
  "update_with_parts msg \<longleftrightarrow> tm_Type msg = UPDATE_MESSAGES \<and> tm_UpdateMessages msg \<noteq> []"

lemma first_round_parts: "update_with_parts msg \<Longrightarrow> \<exists>x. first_round msg = Ret x"
  by (simp add: update_with_parts_def first_round_def go_index_def)

lemma deliver_early:
  assumes "dw_executor w = None" and "\<forall>(now, msg) \<in> set evs. update_with_parts msg"
  shows "deliver_all env evs w =
    Ret (Sent ([], w\<lparr>dw_preExecutionCache := fold (AddMessage (ev_grow env)) (map snd evs) (dw_preExecutionCache w)\<rparr>))"
  using assms
proof (induction evs arbitrary: w)
  case (Cons e evs)
  obtain now msg where e: "e = (now, msg)" by (cases e)
  then obtain x where "first_round msg = Ret x" using Cons.prems(2) first_round_parts by auto
  then have "worker_ProcessNewMessage env now msg w =
      Ret (Sent (None, [], w\<lparr>dw_preExecutionCache := AddMessage (ev_grow env) msg (dw_preExecutionCache w)\<rparr>))"
    using Cons.prems e by (simp add: worker_ProcessNewMessage_def update_with_parts_def)
  then show ?case using Cons e by simp
qed simp

lemma stopped_Run: "we_isStopped ex \<Longrightarrow> executor_Run py unm now msgs ex = Ret ([], ex)"
  by (cases msgs) auto

text \<open>Replaying messages in \<open>Run\<close> is delivering them to the worker after its executor is there.\<close>

lemma Run_is_delivery:
  assumes "dw_executor v = Some ex" and "\<forall>msg \<in> set msgs. update_with_parts msg"
  shows "deliver_all env (map (Pair now) msgs) v =
    go_bind (executor_Run (ev_py env) (ev_unmarshal env) now msgs ex)
      (\<lambda>(acts, ex'). Ret (Sent (map FromExecutor acts, v\<lparr>dw_executor := Some ex'\<rparr>)))"
  using assms
proof (induction msgs arbitrary: v ex)
  case (Cons msg msgs)
  let ?upd = "ProcessUpdateMessage (ev_py env) (ev_unmarshal env) now msg ex"
  obtain x where x: "first_round msg = Ret x" using Cons.prems(2) first_round_parts by auto
  have upd: "tm_Type msg = UPDATE_MESSAGES" using Cons.prems(2) by (simp add: update_with_parts_def)
  have one: "worker_ProcessNewMessage env now msg v =
      go_bind ?upd (\<lambda>(err, acts, ex'). Ret (Sent (None, map FromExecutor acts, v\<lparr>dw_executor := Some ex'\<rparr>)))"
    using x by (cases ?upd) (auto simp: worker_ProcessNewMessage_def upd Cons.prems(1) split: option.split)
  show ?case
  proof (cases ?upd)
    case (Ret r)
    then obtain err acts ex' where r: "?upd = Ret (err, acts, ex')" by (cases r) auto
    have "we_isStopped ex \<Longrightarrow> acts = [] \<and> ex' = ex" using r by (simp add: ProcessUpdateMessage_def)
    then have "executor_Run (ev_py env) (ev_unmarshal env) now (msg # msgs) ex =
        go_bind (executor_Run (ev_py env) (ev_unmarshal env) now msgs ex') (\<lambda>(acts', w''). Ret (acts @ acts', w''))"
      using r upd by (cases "we_isStopped ex") (simp_all add: stopped_Run)
    then show ?thesis
      using Cons.IH [of "v\<lparr>dw_executor := Some ex'\<rparr>" ex'] Cons.prems(2) one r
      by (cases "executor_Run (ev_py env) (ev_unmarshal env) now msgs ex'") auto
  qed (use one upd in \<open>auto simp: ProcessUpdateMessage_def split: if_split_asm\<close>)
qed (simp add: Cons_eq_append_conv)

text \<open>What the cache hands over, for the messages of the work among the last 64 of every sender.\<close>

definition replayed_in_order :: "string \<Rightarrow> TssMessage list \<Rightarrow> TssMessage list \<Rightarrow> bool" where
  "replayed_in_order workId arrived msgs \<longleftrightarrow>
     (\<forall>k. filter (\<lambda>m. tm_From m = k) msgs = filter (\<lambda>m. tm_WorkId m = workId) (last_n 64 (msgs_from k arrived)))"

lemma popped_updates:
  assumes "growth grow" and "ranges (mc_cache (add_messages grow ms)) it" and "\<forall>m \<in> set ms. update_with_parts m"
    and "PopAllMessages grow it workId (Some GetUpdateMessageType) (add_messages grow ms) = (c', msgs)"
  shows "replayed_in_order workId ms msgs" and "\<forall>m \<in> set msgs. update_with_parts m"
proof -
  have last: "set (last_n 64 (msgs_from k ms)) \<subseteq> set ms" for k
    by (auto simp: last_n_def msgs_from_def dest!: in_set_dropD)
  have sel: "selects workId (Some GetUpdateMessageType) m = (tm_WorkId m = workId)" if "m \<in> set ms" for m
    using that assms(3) by (simp add: update_with_parts_def selects_def GetUpdateMessageType_def gget_def)
  have part: "filter (\<lambda>m. tm_From m = k) msgs = filter (\<lambda>m. tm_WorkId m = workId) (last_n 64 (msgs_from k ms))" for k
    unfolding delivers_last_64 [OF assms(1,2,4)] using last [of k] sel by (intro filter_cong) auto
  then show "replayed_in_order workId ms msgs" by (simp add: replayed_in_order_def)
  have "m \<in> set ms" if "m \<in> set msgs" for m
  proof -
    have "m \<in> set (filter (\<lambda>x. tm_From x = tm_From m) msgs)" using that by simp
    then show ?thesis unfolding part using last by auto
  qed
  then show "\<forall>m \<in> set msgs. update_with_parts m" using assms(3) by blast
qed

lemma popped_nothing:
  assumes "growth grow" and "ranges (mc_cache NewMessageCache) it"
    and "PopAllMessages grow it workId (Some GetUpdateMessageType) NewMessageCache = (c', msgs)"
  shows "msgs = []"
proof -
  have "filter (\<lambda>m. tm_From m = tm_From (hd msgs)) msgs = []"
    using popped_updates(1) [of grow "[]" it workId c' msgs] assms
    by (simp add: add_messages_def replayed_in_order_def msgs_from_def last_n_def)
  then show ?thesis by (cases msgs) auto
qed

text \<open>The execution that a worker starts: its actions and its executor, for given cached messages.\<close>

definition execution_of :: "(worker_action list \<times> ('m, 'p) DefaultWorker) go \<Rightarrow> (worker_action list \<times> 'p WorkerExecutor option) go" where
  "execution_of r = go_bind r (\<lambda>(acts, v). Ret (acts, dw_executor v))"

definition execution_after :: "'p worker_env \<Rightarrow> (int \<times> TssMessage) list \<Rightarrow> (worker_action list \<times> ('m, 'p) DefaultWorker) go \<Rightarrow>
  (worker_action list \<times> 'p WorkerExecutor option) go" where
  "execution_after env evs r =
     go_bind r (\<lambda>(acts, v). go_bind (deliver_all env evs v) (\<lambda>s.
       case s of Blocked \<Rightarrow> Hang | Sent (acts', v') \<Rightarrow> Ret (acts @ acts', dw_executor v')))"

lemma runExecutor_replays:
  assumes "growth (ev_grow env)" and "\<And>c. ranges (mc_cache c) (ord c)" and "dw_preExecutionCache w = NewMessageCache"
    and "PopAllMessages (ev_grow env) (ord c) (dw_workId w) (Some GetUpdateMessageType) c = (c', msgs)"
    and "\<forall>m \<in> set msgs. update_with_parts m"
  shows "execution_of (runExecutor env preparams ord now ex (w\<lparr>dw_preExecutionCache := c\<rparr>)) =
    execution_after env (map (Pair now) msgs) (runExecutor env preparams ord now ex w)"
proof -
  obtain c0 none where pop: "PopAllMessages (ev_grow env) (ord NewMessageCache) (dw_workId w)
      (Some GetUpdateMessageType) NewMessageCache = (c0, none)" by (cases "PopAllMessages (ev_grow env) (ord NewMessageCache)
        (dw_workId w) (Some GetUpdateMessageType) NewMessageCache")
  have none: "none = []" using popped_nothing [OF assms(1,2) pop] .
  show ?thesis
  proof (cases "executor_Init (ev_py env) (ev_np env) (ev_orderBits env) (ev_pname env) preparams ex")
    case (Ret r)
    obtain err acts ex' where r: "r = (err, acts, ex')" by (cases r) auto
    show ?thesis
      by (cases "executor_Run (ev_py env) (ev_unmarshal env) now msgs ex'")
        (auto simp: execution_of_def execution_after_def runExecutor_def Ret r assms(3,4) pop none Let_def
          Run_is_delivery [OF _ assms(5), where ex = ex'])
  qed (simp_all add: execution_of_def execution_after_def runExecutor_def)
qed

lemma onSelectionResult_replays:
  assumes "growth (ev_grow env)" and "\<And>c. ranges (mc_cache c) (ord c)" and "dw_preExecutionCache w = NewMessageCache"
    and "PopAllMessages (ev_grow env) (ord c) (dw_workId w) (Some GetUpdateMessageType) c = (c', msgs)"
    and "\<forall>m \<in> set msgs. update_with_parts m" and "sr_Success result" and "\<not> sr_IsNodeExcluded result"
  shows "execution_of (onSelectionResult env preparams outs ord now result (w\<lparr>dw_preExecutionCache := c\<rparr>)) =
    execution_after env (map (Pair now) msgs) (onSelectionResult env preparams outs ord now result w)"
proof -
  let ?w = "w\<lparr>dw_curWorkType := wr_WorkType (dw_request w)\<rparr>"
  have swap: "w\<lparr>dw_preExecutionCache := c, dw_curWorkType := t\<rparr> = w\<lparr>dw_curWorkType := t, dw_preExecutionCache := c\<rparr>" for t
    by simp
  have run: "execution_of (runExecutor env preparams ord now ex (?w\<lparr>dw_preExecutionCache := c\<rparr>)) =
      execution_after env (map (Pair now) msgs) (runExecutor env preparams ord now ex ?w)" for ex
    using runExecutor_replays [of env ord ?w c c' msgs preparams now ex] assms(1-5) by simp
  show ?thesis
  proof (cases "deref_all (sr_SelectedPids result)")
    case (Ret pids)
    then show ?thesis
      using assms(6,7) run unfolding onSelectionResult_def startEcExecution_def startEdExecution_def
      by (simp only: Let_def go_bind.simps DefaultWorker.simps swap if_True if_False not_False_eq_True split: if_split) auto
  qed (use assms(6,7) in \<open>simp_all add: onSelectionResult_def startEcExecution_def startEdExecution_def
        execution_of_def execution_after_def\<close>)
qed

text \<open>
  C29. Update messages that arrive before the execution are replayed to it. Let a worker that has
  cached nothing yet receive update messages (each with a part) before the selection result. When
  the result then selects this node, the worker starts its executor, for an ECDSA or an EdDSA work,
  with exactly the same outcome - the same actions, the same executor, the same panic - as a worker
  that had received nothing early, started, and was then delivered these messages one after the
  other: for every sender the messages of this work among the last 64 the sender has sent, in order
  of arrival. Between senders the order is that of a map loop.
\<close>

theorem early_updates_replayed:
  assumes "growth (ev_grow env)" and "dw_executor w = None" and "dw_preExecutionCache w = NewMessageCache"
    and "\<forall>(now, msg) \<in> set evs. update_with_parts msg"
  shows "\<exists>w'. deliver_all env evs w = Ret (Sent ([], w')) \<and>
    (\<forall>ord preparams outs now result. (\<forall>c. ranges (mc_cache c) (ord c)) \<and> sr_Success result \<and> \<not> sr_IsNodeExcluded result \<longrightarrow>
      (\<exists>msgs. replayed_in_order (dw_workId w) (map snd evs) msgs \<and>
        execution_of (onSelectionResult env preparams outs ord now result w') =
          execution_after env (map (Pair now) msgs) (onSelectionResult env preparams outs ord now result w)))"
proof -
  let ?c = "add_messages (ev_grow env) (map snd evs)"
  have run: "deliver_all env evs w = Ret (Sent ([], w\<lparr>dw_preExecutionCache := ?c\<rparr>))"
    using deliver_early [OF assms(2,4), of env] assms(3) by (simp add: add_messages_def)
  have parts: "\<forall>m \<in> set (map snd evs). update_with_parts m" using assms(4) by auto
  show ?thesis
  proof (intro exI [of _ "w\<lparr>dw_preExecutionCache := ?c\<rparr>"] conjI run allI impI, elim conjE)
    fix ord :: "MessageCache \<Rightarrow> (string \<times> slice) list" and preparams outs now and result :: SelectionResult
    assume ord: "\<forall>c. ranges (mc_cache c) (ord c)" and sel: "sr_Success result" "\<not> sr_IsNodeExcluded result"
    obtain c' msgs where pop: "PopAllMessages (ev_grow env) (ord ?c) (dw_workId w) (Some GetUpdateMessageType) ?c = (c', msgs)"
      by (cases "PopAllMessages (ev_grow env) (ord ?c) (dw_workId w) (Some GetUpdateMessageType) ?c")
    note popped = popped_updates [OF assms(1) _ parts pop]
    show "\<exists>msgs. replayed_in_order (dw_workId w) (map snd evs) msgs \<and>
        execution_of (onSelectionResult env preparams outs ord now result (w\<lparr>dw_preExecutionCache := ?c\<rparr>)) =
          execution_after env (map (Pair now) msgs) (onSelectionResult env preparams outs ord now result w)"
      using popped onSelectionResult_replays [of env ord w ?c c' msgs result] pop ord sel assms(1,3) by blast
  qed
qed

text \<open>
  An update message without parts stops the node: the first log line that mentions its round
  panics, when the worker has not started its executor yet.
\<close>

theorem empty_update_message_panics:
  assumes "tm_Type msg = UPDATE_MESSAGES" and "tm_UpdateMessages msg = []" and "dw_executor w = None"
  shows "worker_ProcessNewMessage env now msg w = Panic IndexOutOfRange"
  using assms by (simp add: worker_ProcessNewMessage_def first_round_def go_index_def)

subsection \<open>Concrete runs\<close>

definition sample_env :: "unit worker_env" where
  "sample_env = \<lparr>ev_lib = ref_lib, ev_py = echo_party, ev_np = unit_parties, ev_orderBits = 256, ev_pname = ref_pname,
     ev_unmarshal = (\<lambda>_. None), ev_hash = rev, ev_grow = go_grow\<rparr>"

definition keygen_worker :: "(nat AvailablePresigns, unit) DefaultWorker" where
  "keygen_worker = NewKeygenWorker abc_keygen (abc ! 0) NewDefaultTimeoutConfig"

definition keygen_done :: ExecutionResult where
  "keygen_done = \<lparr>er_Success = True, er_JobResults = [Some ((no_result True)\<lparr>jr_EcKeygen := Some 4\<rparr>)]\<rparr>"

definition one_part :: "string \<Rightarrow> TssMessage" where
  "one_part i = (baseMessage UPDATE_MESSAGES i '''' ''w'')
     \<lparr>tm_UpdateMessages := [\<lparr>um_Data = [], um_SerializedMessageRouting = [], um_Round = ''r''\<rparr>]\<rparr>"

lemma keygen_worker_sel [simp]: "dw_executor keygen_worker = None" "dw_preExecutionCache keygen_worker = NewMessageCache"
  "dw_request keygen_worker = abc_keygen"
  by (simp_all add: keygen_worker_def NewKeygenWorker_def baseWorker_def)

theorem keygen_reported_only_if_saved_witness:
  "\<exists>r rest. er_JobResults keygen_done = Some r # rest \<and>
    db_SaveEcKeygen sample_db (wr_KeygenType abc_keygen) (wr_WorkId abc_keygen) (wr_AllParties abc_keygen)
      (jr_EcKeygen r) 0 = (None, 1)"
proof -
  have "onJobExecutionResult sample_db keygen_done keygen_worker 0 = Ret ([OnWorkerResult (er_JobResults keygen_done)], 1)"
    by code_simp
  moreover have "IsKeygen (dw_request keygen_worker)" by code_simp
  moreover have "IsEcdsa (dw_request keygen_worker)" by code_simp
  ultimately show ?thesis
    using keygen_reported_only_if_saved [of sample_db keygen_done keygen_worker 0] by fastforce
qed

theorem early_updates_replayed_witness:
  "\<exists>w'. deliver_all sample_env [(1, one_part ''b''), (2, one_part ''c'')] keygen_worker = Ret (Sent ([], w')) \<and>
    (\<forall>ord preparams outs now result. (\<forall>c. ranges (mc_cache c) (ord c)) \<and> sr_Success result \<and> \<not> sr_IsNodeExcluded result \<longrightarrow>
      (\<exists>msgs. replayed_in_order (dw_workId keygen_worker) (map snd [(1 :: int, one_part ''b''), (2, one_part ''c'')]) msgs \<and>
        execution_of (onSelectionResult sample_env preparams outs ord now result w') =
          execution_after sample_env (map (Pair now) msgs)
            (onSelectionResult sample_env preparams outs ord now result keygen_worker)))"
  by (rule early_updates_replayed)
    (simp_all add: sample_env_def go_growth.growth_axioms one_part_def baseMessage_def update_with_parts_def)

theorem empty_update_message_panics_witness:
  "worker_ProcessNewMessage sample_env 0 (baseMessage UPDATE_MESSAGES ''b'' '''' ''w'') keygen_worker = Panic IndexOutOfRange"
  by (rule empty_update_message_panics) (simp_all add: baseMessage_def)

end
