(* ===== verification/Nodes.thy ===== *)
theory Nodes
  imports Job
begin

section \<open>Nodes and their keys: core/node.go, utils/crypto.go\<close>

text \<open>
  A node is known by its validator key; its peer id and its party id are computed from the key.
  The key codecs of libp2p are the parameter \<open>kc\<close>. A peer id is represented by its bytes,
  \<open>id_String\<close> is its printed form.
\<close>

record PubKey =
  pk_Type :: string
  pk_Bytes :: bytes

record peer_codec =
  UnmarshalEd25519PublicKey :: "bytes \<Rightarrow> opaque result"
  UnmarshalSecp256k1PublicKey :: "bytes \<Rightarrow> opaque result"
  IDFromPublicKey :: "opaque \<Rightarrow> bytes result"
  id_String :: "bytes \<Rightarrow> string"

record Node =
  nd_PeerId :: bytes
  nd_PubKey :: PubKey
  nd_PartyId :: party

text \<open>The \<open>default\<close> branch formats its message with \<open>pubKey.Type()\<close>, a call on a nil interface.\<close>

definition GetCosmosPubKey :: "string \<Rightarrow> bytes \<Rightarrow> PubKey result go" where
  "GetCosmosPubKey keyType keyBytes =
     (if keyType = ''ed25519'' then Ret (Inr \<lparr>pk_Type = ''ed25519'', pk_Bytes = keyBytes\<rparr>)
      else if keyType = ''secp256k1'' then Ret (Inr \<lparr>pk_Type = ''secp256k1'', pk_Bytes = keyBytes\<rparr>)
      else Panic NilDereference)"

definition NewNode :: "tss_lib \<Rightarrow> peer_codec \<Rightarrow> PubKey \<Rightarrow> Node option" where
  "NewNode lib kc pubKey =
     (let unmarshalled =
            (if pk_Type pubKey = ''ed25519'' then Some (UnmarshalEd25519PublicKey kc (pk_Bytes pubKey))
             else if pk_Type pubKey = ''secp256k1'' then Some (UnmarshalSecp256k1PublicKey kc (pk_Bytes pubKey))
             else None)
      in case unmarshalled of
           None \<Rightarrow> None
         | Some (Inl err) \<Rightarrow> None
         | Some (Inr p2pPubKey) \<Rightarrow>
             (case IDFromPublicKey kc p2pPubKey of
                Inl err \<Rightarrow> None
              | Inr peerId \<Rightarrow>
                  Some \<lparr>nd_PeerId = peerId, nd_PubKey = pubKey,
                        nd_PartyId = NewPartyID lib (id_String kc peerId) '''' (int (SetBytes (pk_Bytes pubKey)))\<rparr>))"

text \<open>
  \<open>NewNodes\<close> reads \<open>node.PartyId\<close> of every node, also of a nil one. \<open>SortPartyIDs\<close> numbers the party
  objects that the nodes point to: every node gets the numbered copy of its own party.
\<close>

fun new_nodes :: "tss_lib \<Rightarrow> peer_codec \<Rightarrow> PubKey list \<Rightarrow> Node list go" where
  "new_nodes lib kc [] = Ret []"
| "new_nodes lib kc (pubKey # rest) =
     go_bind (go_deref (NewNode lib kc pubKey)) (\<lambda>node.
       go_bind (new_nodes lib kc rest) (\<lambda>nodes. Ret (node # nodes)))"

fun number_nodes :: "Node list \<Rightarrow> party list \<Rightarrow> Node list" where
  "number_nodes [] srt = []"
| "number_nodes (node # nodes) srt =
     (case find (\<lambda>p. person p = person (nd_PartyId node)) srt of
        None \<Rightarrow> node # number_nodes nodes srt
      | Some p \<Rightarrow> node\<lparr>nd_PartyId := p\<rparr> # number_nodes nodes (remove1 p srt))"

definition NewNodes :: "tss_lib \<Rightarrow> peer_codec \<Rightarrow> PubKey list \<Rightarrow> Node list go" where
  "NewNodes lib kc tPubKeys =
     go_bind (new_nodes lib kc tPubKeys) (\<lambda>nodes.
       let srt = SortPartyIDs lib (map nd_PartyId nodes)
       in Ret (sort_key (\<lambda>node. p_Index (nd_PartyId node)) (number_nodes nodes srt)))"

subsection \<open>Signature bytes\<close>

text \<open>\<open>PadToLengthBytesForSignature\<close> prepends one zero byte per iteration.\<close>

fun prepend_zeros :: "nat \<Rightarrow> bytes \<Rightarrow> bytes" where
  "prepend_zeros 0 src = src"
| "prepend_zeros (Suc i) src = prepend_zeros i (0 # src)"

definition PadToLengthBytesForSignature :: "bytes \<Rightarrow> nat \<Rightarrow> bytes" where
  "PadToLengthBytesForSignature src len =
     (let oriLen = length src in if oriLen < len then prepend_zeros (len - oriLen) src else src)"

lemma prepend_zeros_eq: "prepend_zeros n src = replicate n 0 @ src"
  by (induction n arbitrary: src) (simp_all add: replicate_app_Cons_same)

lemma SetBytes_zeros: "SetBytes (replicate n 0) = 0"
proof (induction n)
  case (Suc n)
  show ?case using SetBytes_append [of "[0]" "replicate n 0"] Suc by (simp add: SetBytes_def [of "[0]"])
qed (simp add: SetBytes_def)

lemma Pad_value: "SetBytes (PadToLengthBytesForSignature src len) = SetBytes src"
  by (simp add: PadToLengthBytesForSignature_def Let_def prepend_zeros_eq SetBytes_append SetBytes_zeros)

lemma Pad_length: "length (PadToLengthBytesForSignature src len) = max (length src) len"
  by (simp add: PadToLengthBytesForSignature_def Let_def prepend_zeros_eq)

subsection \<open>All nodes number the parties alike\<close>

lemma party_eqI: "person p = person q \<Longrightarrow> p_Index p = p_Index q \<Longrightarrow> p = q"
  by (cases p; cases q) (simp add: person_def)

definition numbered :: "party list \<Rightarrow> Node \<Rightarrow> Node" where
  "numbered srt node = node\<lparr>nd_PartyId := the (find (\<lambda>p. person p = person (nd_PartyId node)) srt)\<rparr>"

lemma find_person:
  assumes "distinct (map person srt)" and "p \<in> set srt" and "person p = person q"
  shows "find (\<lambda>p. person p = person q) srt = Some p"
proof -
  obtain r where r: "find (\<lambda>p. person p = person q) srt = Some r"
    using find_exists [OF assms(2), of "\<lambda>p. person p = person q"] assms(3) by blast
  then have "r \<in> set srt" and "person r = person p" using find_SomeD [OF r] assms(3) by simp_all
  with assms(1,2) have "r = p" by (auto simp: distinct_map dest: inj_onD)
  with r show ?thesis by simp
qed

lemma number_nodes_eq:
  assumes "distinct (map person srt)" and "distinct (map (person \<circ> nd_PartyId) nodes)"
    and "(person \<circ> nd_PartyId) ` set nodes \<subseteq> person ` set srt"
  shows "number_nodes nodes srt = map (numbered srt) nodes"
  using assms
proof (induction nodes arbitrary: srt)
  case (Cons node nodes)
  obtain p where p: "p \<in> set srt" "person p = person (nd_PartyId node)" using Cons.prems(3) by auto
  have f: "find (\<lambda>p. person p = person (nd_PartyId node)) srt = Some p"
    using find_person [OF Cons.prems(1) p] .
  have rest: "person (nd_PartyId n) \<in> person ` set (remove1 p srt)"
    "numbered (remove1 p srt) n = numbered srt n" if n: "n \<in> set nodes" for n
  proof -
    have "(person \<circ> nd_PartyId) n \<in> (person \<circ> nd_PartyId) ` set nodes" using n by blast
    moreover have "(person \<circ> nd_PartyId) node \<notin> (person \<circ> nd_PartyId) ` set nodes"
      using Cons.prems(2) by simp
    ultimately have ne: "person (nd_PartyId n) \<noteq> person p" unfolding p(2) comp_def by metis
    obtain q where q: "q \<in> set srt" "person q = person (nd_PartyId n)" using n Cons.prems(3) by force
    then have mem: "q \<in> set (remove1 p srt)" using ne by (metis in_set_remove1)
    then show "person (nd_PartyId n) \<in> person ` set (remove1 p srt)" using q(2) by (metis imageI)
    have "distinct (map person (remove1 p srt))"
      using Cons.prems(1) by (auto simp: distinct_map dest: inj_on_subset [OF _ set_remove1_subset])
    from find_person [OF this mem q(2)] find_person [OF Cons.prems(1) q]
    show "numbered (remove1 p srt) n = numbered srt n" by (simp add: numbered_def)
  qed
  have "distinct (map person (remove1 p srt))"
    using Cons.prems(1) by (auto simp: distinct_map dest: inj_on_subset [OF _ set_remove1_subset])
  from Cons.IH [OF this] Cons.prems(2) rest
  have "number_nodes nodes (remove1 p srt) = map (numbered (remove1 p srt)) nodes"
    by (auto simp: image_subset_iff)
  with rest(2) show ?case by (simp add: f) (simp add: f numbered_def)
qed simp

lemma new_nodes_Ret:
  "new_nodes lib kc ks = Ret ns \<longleftrightarrow> map Some ns = map (NewNode lib kc) ks"
  by (induction ks arbitrary: ns)
    (auto simp: go_bind_eq_Ret_iff go_deref_def map_eq_Cons_conv Cons_eq_map_conv split: option.splits)

lemma NewNode_fields:
  assumes "NewNode lib kc k = Some n"
  shows "nd_PubKey n = k" and "nd_PartyId n = NewPartyID lib (id_String kc (nd_PeerId n)) '''' (int (SetBytes (pk_Bytes k)))"
  using assms by (auto simp: NewNode_def Let_def split: option.split_asm sum.split_asm)

context tss_parties
begin

lemma sorted_parties_unique:
  assumes "mset (map person ps) = mset (map person qs)" and "distinct (map p_Key ps)"
  shows "SortPartyIDs lib ps = SortPartyIDs lib qs"
proof (rule nth_equalityI)
  show len: "length (SortPartyIDs lib ps) = length (SortPartyIDs lib qs)"
    using assms(1) by (metis length_map mset_eq_length sort_length)
  have key: "p_Key = snd \<circ> snd \<circ> person" by (simp add: fun_eq_iff person_def)
  let ?k = "\<lambda>x :: string \<times> string \<times> int. snd (snd x)"
  have srt: "sorted (map ?k (map person (SortPartyIDs lib rs)))" for rs
    using sort_keys [of rs] by (simp add: key comp_def)
  have "distinct (map ?k (map person ps))" using assms(2) by (simp add: key comp_def)
  then have inj: "inj_on ?k (set (map person ps))" unfolding distinct_map by blast
  have "sort_key ?k (map person ps) = map person (SortPartyIDs lib rs)" if "mset (map person ps) = mset (map person rs)" for rs
    by (rule sort_key_inj_key_eq [OF _ inj srt]) (simp only: sort_persons that)
  from this [of ps] this [OF assms(1)]
  have eq: "map person (SortPartyIDs lib ps) = map person (SortPartyIDs lib qs)" by simp
  show "SortPartyIDs lib ps ! i = SortPartyIDs lib qs ! i" if "i < length (SortPartyIDs lib ps)" for i
    using that len sort_index [of i ps] sort_index [of i qs] arg_cong [OF eq, of "\<lambda>xs. xs ! i"]
    by (intro party_eqI) simp_all
qed

end

lemma new_nodes_keys:
  assumes "tss_parties lib" and "new_nodes lib kc ks = Ret ns"
  shows "map nd_PubKey ns = ks" and "map (\<lambda>n. p_Key (nd_PartyId n)) ns = map (\<lambda>k. int (SetBytes (pk_Bytes k))) ks"
    and "ns = map (the \<circ> NewNode lib kc) ks"
proof -
  have ks: "map Some ns = map (NewNode lib kc) ks" using assms(2) by (simp add: new_nodes_Ret)
  then have len: "length ns = length ks" by (metis length_map)
  have nth: "NewNode lib kc (ks ! i) = Some (ns ! i)" if "i < length ks" for i
    using arg_cong [OF ks, of "\<lambda>xs. xs ! i"] that len by simp
  show "map nd_PubKey ns = ks"
    by (rule nth_equalityI) (simp_all add: len NewNode_fields [OF nth])
  have "person (nd_PartyId (ns ! i)) = (id_String kc (nd_PeerId (ns ! i)), '''', int (SetBytes (pk_Bytes (ks ! i))))"
    if "i < length ks" for i
    using NewNode_fields(2) [OF nth [OF that]] tss_parties.new_person [OF assms(1)] by metis
  then show "map (\<lambda>n. p_Key (nd_PartyId n)) ns = map (\<lambda>k. int (SetBytes (pk_Bytes k))) ks"
    by (intro nth_equalityI) (simp_all add: len person_def)
  show "ns = map (the \<circ> NewNode lib kc) ks"
    by (rule nth_equalityI) (simp_all add: len nth)
qed

lemma numbered_nodes:
  assumes "tss_parties lib" and "distinct (map (\<lambda>n. p_Key (nd_PartyId n)) ns)"
  defines "srt \<equiv> SortPartyIDs lib (map nd_PartyId ns)"
  shows "number_nodes ns srt = map (numbered srt) ns"
    and "mset (map nd_PartyId (map (numbered srt) ns)) = mset srt"
proof -
  have per: "mset (map person srt) = mset (map (person \<circ> nd_PartyId) ns)"
    unfolding srt_def using tss_parties.sort_persons [OF assms(1), of "map nd_PartyId ns"] by (simp add: comp_def)
  have "distinct (map (snd \<circ> snd) (map (person \<circ> nd_PartyId) ns))"
    using assms(2) by (simp add: comp_def person_def)
  then have dn: "distinct (map (person \<circ> nd_PartyId) ns)" unfolding distinct_map [of "snd \<circ> snd"] by blast
  with per have ds: "distinct (map person srt)" by (metis mset_eq_imp_distinct_iff)
  have sub: "(person \<circ> nd_PartyId) ` set ns = person ` set srt"
    using per by (metis list.set_map set_mset_mset)
  show "number_nodes ns srt = map (numbered srt) ns"
    by (rule number_nodes_eq [OF ds dn]) (simp only: sub)
  have "nd_PartyId (numbered srt n) \<in> set srt \<and> person (nd_PartyId (numbered srt n)) = person (nd_PartyId n)"
    if mem: "n \<in> set ns" for n
  proof -
    have "person (nd_PartyId n) \<in> person ` set srt" unfolding sub [symmetric] using mem by simp
    then obtain p where "p \<in> set srt" "person p = person (nd_PartyId n)" by (metis imageE)
    with find_person [OF ds this] show ?thesis by (simp add: numbered_def)
  qed
  then have own: "map person (map nd_PartyId (map (numbered srt) ns)) = map (person \<circ> nd_PartyId) ns"
    and inside: "set (map nd_PartyId (map (numbered srt) ns)) \<subseteq> set srt" by auto
  show "mset (map nd_PartyId (map (numbered srt) ns)) = mset srt"
  proof (rule mset_eq_of_distinct_map [where f = person])
    show "mset (map person (map nd_PartyId (map (numbered srt) ns))) = mset (map person srt)"
      unfolding own per ..
  qed (use ds inside in simp_all)
qed

lemma NewNodes_sorted:
  assumes lib: "tss_parties lib" and ns: "new_nodes lib kc ks = Ret ns"
    and dk: "distinct (map (\<lambda>k. SetBytes (pk_Bytes k)) ks)"
  defines "srt \<equiv> SortPartyIDs lib (map nd_PartyId ns)"
  obtains rs where "NewNodes lib kc ks = Ret rs" and "map nd_PartyId rs = srt" and "mset rs = mset (map (numbered srt) ns)"
proof -
  have "distinct (map int (map (\<lambda>k. SetBytes (pk_Bytes k)) ks))"
    using dk by (simp add: distinct_map inj_on_def)
  then have dp: "distinct (map (\<lambda>n. p_Key (nd_PartyId n)) ns)"
    unfolding new_nodes_keys(2) [OF lib ns] by (simp add: comp_def)
  note num = numbered_nodes [OF lib dp, folded srt_def]
  let ?rs = "sort_key (\<lambda>node. p_Index (nd_PartyId node)) (map (numbered srt) ns)"
  have idx: "map p_Index srt = map int [0..<length srt]"
    by (rule nth_equalityI) (simp_all add: srt_def tss_parties.sort_index [OF lib])
  then have "distinct (map p_Index srt)" by (simp add: distinct_map)
  then have inj: "inj_on p_Index (set srt)" unfolding distinct_map by blast
  have perm: "mset (map nd_PartyId ?rs) = mset srt" using num(2) by (metis mset_map mset_sort)
  have "inj_on p_Index (set (map nd_PartyId ?rs))" unfolding mset_eq_setD [OF perm] by (rule inj)
  moreover have "sorted (map p_Index srt)" unfolding idx by (simp add: sorted_map)
  ultimately have "sort_key p_Index (map nd_PartyId ?rs) = srt" by (rule sort_key_inj_key_eq [OF perm])
  moreover have "sort_key p_Index (map nd_PartyId ?rs) = map nd_PartyId ?rs"
    by (rule sort_key_id_if_sorted) (use sorted_sort_key in \<open>simp add: comp_def\<close>)
  ultimately have "map nd_PartyId ?rs = srt" by simp
  with that [of ?rs] show ?thesis by (simp add: NewNodes_def ns num(1) flip: srt_def)
qed

lemma nodes_agree:
  assumes lib: "tss_parties lib" and rs: "NewNodes lib kc ks = Ret rs" and perm: "mset ks' = mset ks"
    and dk: "distinct (map (\<lambda>k. SetBytes (pk_Bytes k)) ks)"
  shows "NewNodes lib kc ks' = Ret rs \<and> mset (map nd_PubKey rs) = mset ks \<and>
    sorted (map (\<lambda>n. p_Key (nd_PartyId n)) rs) \<and> map (\<lambda>n. p_Index (nd_PartyId n)) rs = map int [0..<length ks]"
proof -
  obtain ns where ns: "new_nodes lib kc ks = Ret ns" using rs by (auto simp: NewNodes_def go_bind_eq_Ret_iff)
  let ?ns' = "map (the \<circ> NewNode lib kc) ks'" and ?srt = "SortPartyIDs lib (map nd_PartyId ns)"
  have "map Some ns = map (NewNode lib kc) ks" using ns by (simp add: new_nodes_Ret)
  then have "set (map (NewNode lib kc) ks) = set (map Some ns)" by simp
  then have "\<forall>k \<in> set ks. NewNode lib kc k \<noteq> None" by (auto simp: image_def set_eq_iff)
  then have ns': "new_nodes lib kc ks' = Ret ?ns'"
    using mset_eq_setD [OF perm] by (simp add: new_nodes_Ret)
  have nsm: "mset ?ns' = mset ns" unfolding new_nodes_keys(3) [OF lib ns] using perm by (metis mset_map)
  have dk': "distinct (map (\<lambda>k. SetBytes (pk_Bytes k)) ks')"
    using dk perm by (metis mset_eq_imp_distinct_iff mset_map)
  obtain r where r: "NewNodes lib kc ks = Ret r" "map nd_PartyId r = ?srt" "mset r = mset (map (numbered ?srt) ns)"
    using NewNodes_sorted [OF lib ns dk] .
  obtain r' where r': "NewNodes lib kc ks' = Ret r'" "map nd_PartyId r' = SortPartyIDs lib (map nd_PartyId ?ns')"
      "mset r' = mset (map (numbered (SortPartyIDs lib (map nd_PartyId ?ns'))) ?ns')"
    using NewNodes_sorted [OF lib ns' dk'] .
  have "distinct (map p_Key (map nd_PartyId ns))"
    using dk new_nodes_keys(2) [OF lib ns] by (simp add: comp_def distinct_map inj_on_def)
  moreover have "mset (map person (map nd_PartyId ns)) = mset (map person (map nd_PartyId ?ns'))"
    using nsm by (metis mset_map)
  ultimately have srt: "SortPartyIDs lib (map nd_PartyId ?ns') = ?srt"
    using tss_parties.sorted_parties_unique [OF lib] by metis
  have idx: "map p_Index ?srt = map int [0..<length ns]"
    by (rule nth_equalityI) (simp_all add: tss_parties.sort_index [OF lib] tss_parties.sort_length [OF lib])
  have "r' = r"
  proof (rule nth_equalityI)
    have "map nd_PartyId r' = map nd_PartyId r" using r(2) r'(2) srt by simp
    then show "length r' = length r" by (metis length_map)
    have "distinct (map p_Index (map nd_PartyId r))" unfolding r(2) idx by (simp add: distinct_map)
    then have "inj_on nd_PartyId (set r)" unfolding distinct_map [of nd_PartyId] distinct_map [of p_Index] by blast
    moreover have "set r' = set r" using r(3) r'(3) nsm unfolding srt by (metis mset_eq_setD mset_map)
    ultimately show "r' ! i = r ! i" if "i < length r'" for i
      using that \<open>map nd_PartyId r' = map nd_PartyId r\<close> \<open>length r' = length r\<close>
      by (metis inj_onD nth_map nth_mem)
  qed
  moreover have "map nd_PubKey (map (numbered ?srt) ns) = ks"
    using new_nodes_keys(1) [OF lib ns] by (simp add: comp_def numbered_def)
  then have "mset (map nd_PubKey r) = mset ks" using r(3) by (metis mset_map)
  moreover have "sorted (map p_Key (map nd_PartyId r))" unfolding r(2) by (rule tss_parties.sort_keys [OF lib])
  moreover have "length ns = length ks" using new_nodes_keys(1) [OF lib ns] by (metis length_map)
  then have "map p_Index (map nd_PartyId r) = map int [0..<length ks]" using r(2) idx by simp
  ultimately show ?thesis using r(1) r'(1) rs by (simp add: comp_def)
qed

text \<open>
  C25. All nodes number the parties alike: nodes that are told the same validator keys, in whatever
  order, build the same list of nodes. It has one node per key, ordered by the key's value, and
  the index of a node's party is its position.
\<close>

theorem NewNodes_agree:
  assumes lib: "tss_parties lib" and rs: "NewNodes lib kc ks = Ret rs" and perm: "mset ks' = mset ks"
    and dk: "distinct (map (\<lambda>k. SetBytes (pk_Bytes k)) ks)"
  shows "NewNodes lib kc ks' = Ret rs \<and> mset (map nd_PubKey rs) = mset ks \<and>
    sorted (map (\<lambda>n. p_Key (nd_PartyId n)) rs) \<and> map (\<lambda>n. p_Index (nd_PartyId n)) rs = map int [0..<length ks]"
  using assms by (rule nodes_agree)

definition ref_codec :: peer_codec where
  "ref_codec = \<lparr>UnmarshalEd25519PublicKey = (\<lambda>bs. Inr (SetBytes bs)), UnmarshalSecp256k1PublicKey = (\<lambda>bs. Inr (SetBytes bs)),
     IDFromPublicKey = (\<lambda>n. Inr [word_of_nat n]), id_String = (\<lambda>bs. dec_of_nat (SetBytes bs))\<rparr>"

definition ed_key :: "8 word \<Rightarrow> PubKey" where
  "ed_key b = \<lparr>pk_Type = ''ed25519'', pk_Bytes = [b]\<rparr>"

theorem NewNodes_agree_witness:
  "\<exists>rs. NewNodes ref_lib ref_codec [ed_key 9, ed_key 4] = Ret rs \<and>
    NewNodes ref_lib ref_codec [ed_key 4, ed_key 9] = Ret rs"
proof -
  have "\<exists>rs. NewNodes ref_lib ref_codec [ed_key 9, ed_key 4] = Ret rs"
    by (simp add: NewNodes_def NewNode_def ed_key_def ref_codec_def go_simps)
  then obtain rs where rs: "NewNodes ref_lib ref_codec [ed_key 9, ed_key 4] = Ret rs" by blast
  have "distinct (map (\<lambda>k. SetBytes (pk_Bytes k)) [ed_key 9, ed_key 4])"
    by (simp add: ed_key_def SetBytes_def)
  from NewNodes_agree [OF ref_parties.tss_parties_axioms rs _ this, of "[ed_key 4, ed_key 9]"] rs
  show ?thesis by (simp add: add_mset_commute)
qed

text \<open>A key of an unknown type stops the node: \<open>NewNode\<close> returns nil, \<open>NewNodes\<close> reads its party.\<close>

lemma NewNodes_unknown_type:
  assumes "k \<in> set ks" and "pk_Type k \<noteq> ''ed25519''" and "pk_Type k \<noteq> ''secp256k1''"
  shows "NewNodes lib kc ks = Panic NilDereference"
proof -
  have "NewNode lib kc k = None" using assms(2,3) by (simp add: NewNode_def)
  with assms(1) have "new_nodes lib kc ks = Panic NilDereference"
  proof (induction ks)
    case (Cons a ks)
    then show ?case by (cases "NewNode lib kc a") (auto simp: go_simps)
  qed simp
  then show ?thesis by (simp add: NewNodes_def)
qed

end
