(* ===== verification/Api_Types.thy ===== *)
theory Api_Types
  imports Work_Request
begin

section \<open>Requests and results exchanged with Sisu: types/\<close>

text \<open>The structs that travel between Sisu and the node, with the fields of the Go types.\<close>

datatype OutcomeType = OutcomeSuccess | OutcomeFailure | OutcometNotSelected

record KeygenResult =
  kg_KeyType :: string
  kg_KeygenIndex :: int
  kg_PubKeyBytes :: bytes
  kg_Outcome :: OutcomeType
  kg_Culprits :: "party list"

record KeysignMessage =
  km_Id :: string
  km_InChain :: string
  km_OutChain :: string
  km_OutHash :: string
  km_Bytes :: bytes
  km_BytesToSign :: "bytes option"

record KeysignRequest =
  kq_KeyType :: string
  kq_KeysignMessages :: "KeysignMessage list"

record KeysignResult =
  ks_Outcome :: OutcomeType
  ks_Request :: "KeysignRequest option"
  ks_ErrMesage :: string
  ks_Signatures :: "bytes list"
  ks_Culprits :: "party list"

text \<open>The zero values, which a composite literal leaves in the fields it does not name.\<close>

record PresignResult =
  ps_Outcome :: OutcomeType
  ps_PubKeyBytes :: bytes
  ps_Address :: string
  ps_Culprits :: "party list"

definition zero_KeygenResult :: KeygenResult where
  "zero_KeygenResult = \<lparr>kg_KeyType = '''', kg_KeygenIndex = 0, kg_PubKeyBytes = [], kg_Outcome = OutcomeSuccess, kg_Culprits = []\<rparr>"

definition zero_KeysignResult :: KeysignResult where
  "zero_KeysignResult =
     \<lparr>ks_Outcome = OutcomeSuccess, ks_Request = None, ks_ErrMesage = '''', ks_Signatures = [], ks_Culprits = []\<rparr>"

end
