(* ===== verification/Engine.thy ===== *)
theory Engine
  imports Nodes Api_Types Default_Worker Request_Queue Work_Message_Cache
begin

section \<open>The engine: core/engine.go, engine\_ecdsa.go, engine\_eddsa.go, engine\_utils.go\<close>

text \<open>
  The engine keeps the running workers, the queue of waiting requests and two caches of messages,
  routes network messages to workers and sends the workers' messages to the other nodes. It uses a
  worker only through the Go interface \<open>Worker\<close>: the record \<open>worker_ops\<close>. What it calls outside the
  repository (JSON, the signer, the libraries of the curves) is in \<open>engine_env\<close>. Messages written to
  the network and callbacks are actions.
\<close>

record ('w, 'a) worker_ops =
  wk_NewKeygenWorker :: "WorkRequest \<Rightarrow> party \<Rightarrow> TimeoutConfig \<Rightarrow> 'w"
  wk_NewSigningWorker :: "WorkRequest \<Rightarrow> party \<Rightarrow> TimeoutConfig \<Rightarrow> int \<Rightarrow> 'w"
  wk_Start :: "TssMessage list \<Rightarrow> 'w \<Rightarrow> (string option \<times> 'a list \<times> 'w) go"
  wk_ProcessNewMessage :: "TssMessage \<Rightarrow> 'w \<Rightarrow> (string option \<times> 'a list \<times> 'w) sending go"
  wk_GetCulprits :: "'w \<Rightarrow> party list"

text \<open>Accessors of the library's key and signature structs; \<open>None\<close> is a nil pointer.\<close>

record sig_lib =
  sl_EcPublicKey :: "opaque \<Rightarrow> bytes"
  sl_EcSignature :: "opaque \<Rightarrow> opaque option"
  sl_EdPublicKey :: "opaque \<Rightarrow> bytes"
  sl_EdSignature :: "opaque \<Rightarrow> opaque option"
  sl_EdVerify :: "opaque \<Rightarrow> bytes option \<Rightarrow> nat \<Rightarrow> nat \<Rightarrow> bool"
  sg_R :: "opaque \<Rightarrow> bytes"
  sg_S :: "opaque \<Rightarrow> bytes"
  sg_SignatureRecovery :: "opaque \<Rightarrow> bytes"
  sg_Signature :: "opaque \<Rightarrow> bytes"
  sl_BitSize :: nat

record ('w, 'a) engine_env =
  ee_lib :: tss_lib
  ee_worker :: "('w, 'a) worker_ops"
  ee_sig :: sig_lib
  ee_cfg :: TimeoutConfig
  ee_grow :: "nat \<Rightarrow> nat \<Rightarrow> nat"
  ee_popOrder :: "MessageCache \<Rightarrow> (string \<times> slice) list"
  ee_nodeOrder :: "(string, Node) gmap \<Rightarrow> (string \<times> Node) list"
  ee_idString :: "bytes \<Rightarrow> string"
  ee_MarshalTss :: "TssMessage \<Rightarrow> bytes result"
  ee_MarshalSigned :: "SignedMessage \<Rightarrow> bytes result"
  ee_UnmarshalSigned :: "bytes \<Rightarrow> SignedMessage result"
  ee_Sign :: "bytes \<Rightarrow> bytes result"

datatype 'a engine_action =
    WriteToStream bytes bytes
  | CbKeygenFinished KeygenResult
  | CbSigningFinished WorkRequest KeysignResult
  | CbWorkFailed WorkRequest "party list"
  | FromWorker string 'a

text \<open>
  \<open>en_leaked\<close> counts the read locks of \<open>nodeLock\<close> that were taken and never released, \<open>en_writer\<close>
  says that a call of \<open>Lock\<close> waits for them: from then on Go's \<open>RWMutex\<close> lets no new reader in.
\<close>

record ('w, 'd) Engine =
  en_myPid :: party
  en_nodes :: "(string, Node) gmap"
  en_workers :: "(string, 'w) gmap"
  en_requestQueue :: request_queue
  en_preworkCache :: MessageCache
  en_workCache :: WorkMessageCache
  en_presignsManager :: "'d AvailablePresigns"
  en_leaked :: nat
  en_writer :: bool

text \<open>An operation ends in a state with a result, or its goroutine is stuck in that state.\<close>

datatype ('e, 'b) progress = Done 'e 'b | Stuck 'e

fun state_of :: "('e, 'b) progress \<Rightarrow> 'e" where
  "state_of (Done e b) = e"
| "state_of (Stuck e) = e"

definition then_do :: "('e, 'b) progress go \<Rightarrow> ('e \<Rightarrow> 'b \<Rightarrow> ('e, 'c) progress go) \<Rightarrow> ('e, 'c) progress go" where
  "then_do m f = go_bind m (\<lambda>r. case r of Done e b \<Rightarrow> f e b | Stuck e \<Rightarrow> Ret (Stuck e))"

definition MaxWorker :: nat where "MaxWorker = 2"

definition MaxBatchSize :: int where "MaxBatchSize = 4"

definition NewEngine :: "Node \<Rightarrow> 'd \<Rightarrow> ('w, 'd) Engine" where
  "NewEngine myNode db =
     \<lparr>en_myPid = nd_PartyId myNode, en_nodes = [], en_workers = [], en_requestQueue = NewRequestQueue,
      en_preworkCache = NewMessageCache,
      en_workCache = NewWorkMessageCache (int MaxMessagePerNode) (nd_PartyId myNode),
      en_presignsManager = NewAvailPresignManager db, en_leaked = 0, en_writer = False\<rparr>"

definition engine_Init :: "'d Database \<Rightarrow> ('w, 'd) Engine \<Rightarrow> (string option \<times> ('w, 'd) Engine) go" where
  "engine_Init db e =
     go_bind (Load db (en_presignsManager e)) (\<lambda>(err, m). Ret (err, e\<lparr>en_presignsManager := m\<rparr>))"

subsection \<open>Nodes\<close>

definition AddNodes :: "('w, 'a) engine_env \<Rightarrow> Node list \<Rightarrow> ('w, 'd) Engine \<Rightarrow> (('w, 'd) Engine, unit) progress" where
  "AddNodes env nodes e =
     (if en_leaked e > 0 \<or> en_writer e then Stuck (e\<lparr>en_writer := True\<rparr>)
      else Done (e\<lparr>en_nodes := fold (\<lambda>node. gput (ee_idString env (nd_PeerId node)) node) nodes (en_nodes e)\<rparr>) ())"

definition getNodeFromPeerId :: "string \<Rightarrow> ('w, 'd) Engine \<Rightarrow> (('w, 'd) Engine, Node option) progress" where
  "getNodeFromPeerId peerId e = (if en_writer e then Stuck e else Done e (gget (en_nodes e) peerId))"

subsection \<open>Starting work\<close>

text \<open>A request of an unknown type leaves \<open>w\<close> nil: the call of \<open>Start\<close> panics.\<close>

definition startWork ::
  "('w, 'a) engine_env \<Rightarrow> WorkRequest \<Rightarrow> ('w, 'd) Engine \<Rightarrow> ('a engine_action list \<times> ('w, 'd) Engine) go" where
  "startWork env request e =
     (let myPid = NewPartyID (ee_lib env) (p_Id (en_myPid e)) (p_Moniker (en_myPid e)) (p_Key (en_myPid e));
          w = (if wr_WorkType request = EcKeygen \<or> wr_WorkType request = EdKeygen
               then Some (wk_NewKeygenWorker (ee_worker env) request myPid (ee_cfg env))
               else if wr_WorkType request = EcSigning \<or> wr_WorkType request = EdSigning
               then Some (wk_NewSigningWorker (ee_worker env) request myPid (ee_cfg env) MaxBatchSize)
               else None);
          (cache, cachedMsgs) = PopAllMessages (ee_grow env) (ee_popOrder env (en_preworkCache e)) (wr_WorkId request) None
            (en_preworkCache e)
      in go_bind (go_deref w) (\<lambda>w.
         go_bind (wk_Start (ee_worker env) cachedMsgs w) (\<lambda>(err, acts, w').
           Ret (map (FromWorker (wr_WorkId request)) acts,
                e\<lparr>en_workers := gput (wr_WorkId request) w' (en_workers e), en_preworkCache := cache\<rparr>))))"

text \<open>\<open>startNextWork\<close>: the first critical section only takes a request out of the queue.\<close>

definition take_next :: "('w, 'd) Engine \<Rightarrow> WorkRequest option \<times> ('w, 'd) Engine" where
  "take_next e =
     (if MaxWorker \<le> length (en_workers e) then (None, e)
      else case Pop (en_requestQueue e) of (q, nextWork) \<Rightarrow> (nextWork, e\<lparr>en_requestQueue := q\<rparr>))"

definition startNextWork ::
  "('w, 'a) engine_env \<Rightarrow> ('w, 'd) Engine \<Rightarrow> ('a engine_action list \<times> ('w, 'd) Engine) go" where
  "startNextWork env e =
     (case take_next e of
        (None, e') \<Rightarrow> Ret ([], e')
      | (Some nextWork, e') \<Rightarrow> startWork env nextWork e')"

fun unknown_party :: "party list \<Rightarrow> ('w, 'd) Engine \<Rightarrow> (('w, 'd) Engine, string option) progress" where
  "unknown_party [] e = Done e None"
| "unknown_party (partyId # rest) e =
     (case getNodeFromPeerId (p_Id partyId) e of
        Stuck e' \<Rightarrow> Stuck e'
      | Done e' node \<Rightarrow>
          if node = None \<and> p_Id partyId \<noteq> p_Id (en_myPid e)
          then Done e' (Some (''A party is the request cannot be found in the node list: '' @ p_Id partyId))
          else unknown_party rest e')"

definition AddRequest ::
  "('w, 'a) engine_env \<Rightarrow> WorkRequest \<Rightarrow> ('w, 'd) Engine \<Rightarrow>
   (('w, 'd) Engine, string option \<times> 'a engine_action list) progress go" where
  "AddRequest env request e =
     (case Validate request of
        Some err \<Rightarrow> Ret (Done e (Some err, []))
      | None \<Rightarrow>
          then_do (Ret (unknown_party (wr_AllParties request) e)) (\<lambda>e err.
            case err of
              Some err \<Rightarrow> Ret (Done e (Some err, []))
            | None \<Rightarrow>
                (case AddWork (ee_grow env) (en_requestQueue e) request of
                   (q, added) \<Rightarrow>
                     (let e1 = e\<lparr>en_requestQueue := q\<rparr> in
                      if added then go_bind (startNextWork env e1) (\<lambda>(acts, e2). Ret (Done e2 (None, acts)))
                      else Ret (Done e1 (None, []))))))"

definition finishWorker ::
  "('w, 'a) engine_env \<Rightarrow> string \<Rightarrow> ('w, 'd) Engine \<Rightarrow> ('a engine_action list \<times> ('w, 'd) Engine) go" where
  "finishWorker env workId e = startNextWork env (e\<lparr>en_workers := gdel workId (en_workers e)\<rparr>)"

definition GetActiveWorkerCount :: "('w, 'd) Engine \<Rightarrow> nat" where
  "GetActiveWorkerCount e = length (en_workers e)"

subsection \<open>Sending\<close>

text \<open>
  The loop from party ids to peer ids runs under the read lock. An unknown party ends the function
  without releasing it: the \<open>Inl\<close> outcome.
\<close>

fun peer_ids :: "party option list \<Rightarrow> ('w, 'd) Engine \<Rightarrow> (('w, 'd) Engine, unit + bytes list) progress go" where
  "peer_ids [] e = Ret (Done e (Inr []))"
| "peer_ids (pid # rest) e =
     go_bind (go_deref pid) (\<lambda>pid.
       if p_Id pid = p_Id (en_myPid e) then peer_ids rest e
       else then_do (Ret (getNodeFromPeerId (p_Id pid) e)) (\<lambda>e node.
              case node of
                None \<Rightarrow> Ret (Done e (Inl ()))
              | Some node \<Rightarrow>
                  then_do (peer_ids rest e) (\<lambda>e ids. Ret (Done e (map_sum id ((#) (nd_PeerId node)) ids)))))"

definition sendSignMessaged ::
  "('w, 'a) engine_env \<Rightarrow> SignedMessage \<Rightarrow> party option list \<Rightarrow> ('w, 'd) Engine \<Rightarrow>
   (('w, 'd) Engine, 'a engine_action list) progress go" where
  "sendSignMessaged env signedMessage pIDs e =
     (case ee_MarshalSigned env signedMessage of
        Inl err \<Rightarrow> Ret (Done e [])
      | Inr bz \<Rightarrow>
          if en_writer e then Ret (Stuck e)
          else then_do (peer_ids pIDs e) (\<lambda>e ids.
                 case ids of
                   Inl _ \<Rightarrow> Ret (Done (e\<lparr>en_leaked := en_leaked e + 1\<rparr>) [])
                 | Inr peerIds \<Rightarrow> Ret (Done e (map (\<lambda>peerId. WriteToStream peerId bz) peerIds))))"

definition getSignedMessageBytes ::
  "('w, 'a) engine_env \<Rightarrow> TssMessage \<Rightarrow> ('w, 'd) Engine \<Rightarrow> SignedMessage result" where
  "getSignedMessageBytes env tssMessage e =
     (case ee_MarshalTss env tssMessage of
        Inl err \<Rightarrow> Inl (''error when marshalling message '' @ err)
      | Inr serialized \<Rightarrow>
          (case ee_Sign env serialized of
             Inl err \<Rightarrow> Inl (''error when signing '' @ err)
           | Inr signature \<Rightarrow>
               Inr \<lparr>sm_From = p_Id (en_myPid e), sm_TssMessage = Some tssMessage, sm_Signature = signature\<rparr>))"

definition cacheWorkMsg :: "SignedMessage \<Rightarrow> ('w, 'd) Engine \<Rightarrow> ('w, 'd) Engine go" where
  "cacheWorkMsg signedMsg e =
     go_bind (go_deref (sm_TssMessage signedMsg)) (\<lambda>tssMsg.
       if tm_Type tssMsg \<noteq> UPDATE_MESSAGES then Ret e
       else case TssMessage_GetMessageKey tssMsg of
              Inl err \<Rightarrow> Ret e
            | Inr msgKey \<Rightarrow>
                go_bind (WorkMessageCache_Add msgKey signedMsg (en_workCache e)) (\<lambda>c. Ret (e\<lparr>en_workCache := c\<rparr>)))"

definition BroadcastMessage ::
  "('w, 'a) engine_env \<Rightarrow> party option list \<Rightarrow> TssMessage \<Rightarrow> ('w, 'd) Engine \<Rightarrow>
   (('w, 'd) Engine, 'a engine_action list) progress go" where
  "BroadcastMessage env pIDs tssMessage e =
     (if tm_To tssMessage = p_Id (en_myPid e) then Ret (Done e [])
      else case getSignedMessageBytes env tssMessage e of
             Inl err \<Rightarrow> Ret (Done e [])
           | Inr signedMsg \<Rightarrow>
               go_bind (cacheWorkMsg signedMsg e) (\<lambda>e. sendSignMessaged env signedMsg pIDs e))"

definition UnicastMessage ::
  "('w, 'a) engine_env \<Rightarrow> party option \<Rightarrow> TssMessage \<Rightarrow> ('w, 'd) Engine \<Rightarrow>
   (('w, 'd) Engine, 'a engine_action list) progress go" where
  "UnicastMessage env dest tssMessage e =
     (if tm_To tssMessage = p_Id (en_myPid e) then Ret (Done e [])
      else case getSignedMessageBytes env tssMessage e of
             Inl err \<Rightarrow> Ret (Done e [])
           | Inr signedMsg \<Rightarrow>
               go_bind (cacheWorkMsg signedMsg e) (\<lambda>e. sendSignMessaged env signedMsg [dest] e))"

subsection \<open>Receiving\<close>

text \<open>The last node of the loop with the asking party's id is the destination of the reply.\<close>

definition party_of_node :: "string \<Rightarrow> (string \<times> Node) list \<Rightarrow> party option" where
  "party_of_node from it = fold (\<lambda>(_, node) dest. if p_Id (nd_PartyId node) = from then Some (nd_PartyId node) else dest) it None"

definition OnAskMessage ::
  "('w, 'a) engine_env \<Rightarrow> TssMessage \<Rightarrow> ('w, 'd) Engine \<Rightarrow>
   (('w, 'd) Engine, string option \<times> 'a engine_action list) progress go" where
  "OnAskMessage env tssMsg e =
     go_bind (go_deref (tm_AskRequest tssMsg)) (\<lambda>msgKey.
       case ExtractMessageKey msgKey of
         Inl err \<Rightarrow> Ret (Done e (Some err, []))
       | Inr keys \<Rightarrow>
           go_bind (go_index keys 1) (\<lambda>originalFrom.
             case WorkMessageCache_Get originalFrom msgKey (en_workCache e) of
               None \<Rightarrow> Ret (Done e (None, []))
             | Some signedMsg \<Rightarrow>
                 go_bind (go_deref (sm_TssMessage signedMsg)) (\<lambda>m.
                   if \<not> IsBroadcast m \<and> tm_To m \<noteq> tm_From tssMsg then Ret (Done e (None, []))
                   else case party_of_node (tm_From tssMsg) (ee_nodeOrder env (en_nodes e)) of
                          None \<Rightarrow> Ret (Done e (None, []))
                        | Some dest \<Rightarrow>
                            then_do (sendSignMessaged env signedMsg [Some dest] e) (\<lambda>e acts. Ret (Done e (None, acts))))))"

definition engine_ProcessNewMessage ::
  "('w, 'a) engine_env \<Rightarrow> TssMessage option \<Rightarrow> ('w, 'd) Engine \<Rightarrow>
   (('w, 'd) Engine, string option \<times> 'a engine_action list) progress go" where
  "engine_ProcessNewMessage env tssMsg e =
     (case tssMsg of
        None \<Rightarrow> Ret (Done e (None, []))
      | Some tssMsg \<Rightarrow>
          if tm_Type tssMsg = ASK_MESSAGE_REQUEST then OnAskMessage env tssMsg e
          else case gget (en_workers e) (tm_WorkId tssMsg) of
                 None \<Rightarrow>
                   Ret (Done (e\<lparr>en_preworkCache := AddMessage (ee_grow env) tssMsg (en_preworkCache e)\<rparr>) (None, []))
               | Some w \<Rightarrow>
                   go_bind (wk_ProcessNewMessage (ee_worker env) tssMsg w) (\<lambda>r.
                     case r of
                       Blocked \<Rightarrow> Ret (Stuck e)
                     | Sent (err, acts, w') \<Rightarrow>
                         Ret (Done (e\<lparr>en_workers := gput (tm_WorkId tssMsg) w' (en_workers e)\<rparr>)
                           (map_option (\<lambda>m. ''error when worker processing new message '' @ m) err,
                            map (FromWorker (tm_WorkId tssMsg)) acts))))"

definition OnNetworkMessage ::
  "('w, 'a) engine_env \<Rightarrow> string \<Rightarrow> bytes \<Rightarrow> ('w, 'd) Engine \<Rightarrow> (('w, 'd) Engine, 'a engine_action list) progress go" where
  "OnNetworkMessage env fromPeerId data e =
     then_do (Ret (getNodeFromPeerId fromPeerId e)) (\<lambda>e node.
       case node of
         None \<Rightarrow> Ret (Done e [])
       | Some _ \<Rightarrow>
           (case ee_UnmarshalSigned env data of
              Inl err \<Rightarrow> Ret (Done e [])
            | Inr signedMessage \<Rightarrow>
                (case sm_TssMessage signedMessage of
                   None \<Rightarrow> Ret (Done e [])
                 | Some tssMessage \<Rightarrow>
                     go_bind (if tm_Type tssMessage = UPDATE_MESSAGES \<and> tm_UpdateMessages tssMessage \<noteq> [] \<and> IsBroadcast tssMessage
                              then cacheWorkMsg signedMessage e else Ret e) (\<lambda>e.
                       then_do (engine_ProcessNewMessage env (Some tssMessage) e) (\<lambda>e (err, acts). Ret (Done e acts))))))"

subsection \<open>Callbacks of the workers\<close>

definition engine_OnNodeNotSelected ::
  "('w, 'a) engine_env \<Rightarrow> WorkRequest \<Rightarrow> ('w, 'd) Engine \<Rightarrow> ('a engine_action list \<times> ('w, 'd) Engine) go" where
  "engine_OnNodeNotSelected env request e =
     go_bind (finishWorker env (wr_WorkId request) e) (\<lambda>(acts, e').
       Ret ((if wr_WorkType request = EcSigning
             then [CbSigningFinished request (zero_KeysignResult\<lparr>ks_Outcome := OutcometNotSelected\<rparr>)] else []) @ acts, e'))"

definition engine_OnWorkFailed ::
  "('w, 'a) engine_env \<Rightarrow> WorkRequest \<Rightarrow> ('w, 'd) Engine \<Rightarrow> ('a engine_action list \<times> ('w, 'd) Engine) go" where
  "engine_OnWorkFailed env request e =
     (case gget (en_workers e) (wr_WorkId request) of
        None \<Rightarrow> Ret ([], e)
      | Some w \<Rightarrow>
          go_bind (finishWorker env (wr_WorkId request) e) (\<lambda>(acts, e').
            Ret (CbWorkFailed request (wk_GetCulprits (ee_worker env) w) # acts, e')))"

definition engine_GetAvailablePresigns ::
  "'d Database \<Rightarrow> (string \<times> AvailablePresign list) list \<Rightarrow> (nat \<Rightarrow> (string \<times> party) list) \<Rightarrow> nat \<Rightarrow> int \<Rightarrow>
   (string, party) gmap \<Rightarrow> ('w, 'd) Engine \<Rightarrow> ((string list \<times> party option list) \<times> ('w, 'd) Engine) go" where
  "engine_GetAvailablePresigns db it its batchSize n allPids e =
     go_bind (GetAvailablePresigns db it its batchSize n allPids (en_presignsManager e))
       (\<lambda>(r, m). Ret (r, e\<lparr>en_presignsManager := m\<rparr>))"

definition GetPresignOutputs :: "'d Database \<Rightarrow> string list \<Rightarrow> 'd \<Rightarrow> opaque list" where
  "GetPresignOutputs db presignIds d = (case db_LoadPresign db presignIds d of Inl err \<Rightarrow> [] | Inr loaded \<Rightarrow> loaded)"

definition onEcKeygenFinished :: "sig_lib \<Rightarrow> WorkRequest \<Rightarrow> opaque option \<Rightarrow> 'a engine_action list go" where
  "onEcKeygenFinished sl request output =
     go_bind (go_deref output) (\<lambda>output.
       Ret [CbKeygenFinished (zero_KeygenResult\<lparr>kg_KeyType := wr_KeygenType request,
              kg_PubKeyBytes := sl_EcPublicKey sl output, kg_Outcome := OutcomeSuccess\<rparr>)])"

text \<open>The log line prints the last four characters of the own id: a shorter id panics.\<close>

definition short_id :: "string \<Rightarrow> string go" where
  "short_id i = (if length i < 4 then Panic IndexOutOfRange else Ret (drop (length i - 4) i))"

fun ec_signatures :: "sig_lib \<Rightarrow> opaque option list \<Rightarrow> bytes list go" where
  "ec_signatures sl [] = Ret []"
| "ec_signatures sl (sig # data) =
     go_bind (go_deref sig) (\<lambda>sig.
       let bitSizeInBytes = sl_BitSize sl div 8;
           r = PadToLengthBytesForSignature (sg_R sl sig) bitSizeInBytes;
           s = PadToLengthBytesForSignature (sg_S sl sig) bitSizeInBytes
       in go_bind (go_index (sg_SignatureRecovery sl sig) 0) (\<lambda>v.
          go_bind (ec_signatures sl data) (\<lambda>signatures. Ret ((r @ s @ [v]) # signatures))))"

definition onEcSigningFinished ::
  "sig_lib \<Rightarrow> WorkRequest \<Rightarrow> opaque option list \<Rightarrow> ('w, 'd) Engine \<Rightarrow> 'a engine_action list go" where
  "onEcSigningFinished sl request data e =
     go_bind (short_id (p_Id (en_myPid e))) (\<lambda>_.
     go_bind (ec_signatures sl data) (\<lambda>signatures.
       Ret [CbSigningFinished request (zero_KeysignResult\<lparr>ks_Outcome := OutcomeSuccess, ks_Signatures := signatures\<rparr>)]))"

definition onEdKeygenFinished :: "sig_lib \<Rightarrow> WorkRequest \<Rightarrow> opaque option \<Rightarrow> 'a engine_action list go" where
  "onEdKeygenFinished sl request output =
     go_bind (go_deref output) (\<lambda>output.
       Ret [CbKeygenFinished (zero_KeygenResult\<lparr>kg_KeyType := wr_KeygenType request,
              kg_PubKeyBytes := sl_EdPublicKey sl output, kg_Outcome := OutcomeSuccess\<rparr>)])"

fun ed_signatures :: "sig_lib \<Rightarrow> opaque option list \<Rightarrow> bytes list go" where
  "ed_signatures sl [] = Ret []"
| "ed_signatures sl (d # data) =
     go_bind (go_deref d) (\<lambda>d.
     go_bind (go_deref (sl_EdSignature sl d)) (\<lambda>sig.
     go_bind (ed_signatures sl data) (\<lambda>signatures. Ret (sg_Signature sl sig # signatures))))"

text \<open>A signature that does not verify is only logged.\<close>

definition onEdSigningFinished ::
  "sig_lib \<Rightarrow> WorkRequest \<Rightarrow> opaque option list \<Rightarrow> ('w, 'd) Engine \<Rightarrow> 'a engine_action list go" where
  "onEdSigningFinished sl request data e =
     go_bind (short_id (p_Id (en_myPid e))) (\<lambda>_.
     go_bind (ed_signatures sl data) (\<lambda>signatures.
     go_bind (go_deref (wr_EdSigningInput request)) (\<lambda>myKeygen.
     go_bind (go_index (case wr_Messages request of None \<Rightarrow> [] | Some ms \<Rightarrow> ms) 0) (\<lambda>msg.
     go_bind (go_index data 0) (\<lambda>d. go_bind (go_deref d) (\<lambda>d.
     go_bind (go_deref (sl_EdSignature sl d)) (\<lambda>sig.
       let verified = sl_EdVerify sl myKeygen msg (SetBytes (sg_R sl sig)) (SetBytes (sg_S sl sig))
       in Ret [CbSigningFinished request
            (zero_KeysignResult\<lparr>ks_Outcome := OutcomeSuccess, ks_Signatures := signatures\<rparr>)])))))))"

definition engine_OnWorkerResult ::
  "('w, 'a) engine_env \<Rightarrow> WorkRequest \<Rightarrow> JobResult option list \<Rightarrow> ('w, 'd) Engine \<Rightarrow>
   ('a engine_action list \<times> ('w, 'd) Engine) go" where
  "engine_OnWorkerResult env request jobResults e =
     (let sl = ee_sig env in
      go_bind
        (case wr_WorkType request of
           EcKeygen \<Rightarrow> go_bind (deref_all jobResults) (\<lambda>rs.
             go_bind (go_index (GetEcKeygenOutputs rs) 0) (onEcKeygenFinished sl request))
         | EcSigning \<Rightarrow> go_bind (deref_all jobResults) (\<lambda>rs.
             go_bind (GetEcSigningOutputs (sl_EcSignature sl) rs) (\<lambda>data. onEcSigningFinished sl request data e))
         | EdKeygen \<Rightarrow> go_bind (deref_all jobResults) (\<lambda>rs.
             go_bind (go_index (GetEdKeygenOutputs rs) 0) (onEdKeygenFinished sl request))
         | EdSigning \<Rightarrow> go_bind (deref_all jobResults) (\<lambda>rs.
             onEdSigningFinished sl request (GetEdSigningOutputs rs) e)
         | OtherWork \<Rightarrow> Ret [])
        (\<lambda>callbacks. go_bind (finishWorker env (wr_WorkId request) e) (\<lambda>(acts, e'). Ret (callbacks @ acts, e'))))"

subsection \<open>Work ids\<close>

text \<open>\<open>fmt.Fprint\<close> of a byte slice: the decimal values between brackets, separated by blanks.\<close>

definition Fprint_bytes :: "bytes \<Rightarrow> string" where
  "Fprint_bytes tx = ''['' @ str_Join (map (\<lambda>b. dec_of_nat (unat b)) tx) '' '' @ '']''"

definition GetKeysignWorkId :: "(string \<Rightarrow> string) \<Rightarrow> WorkType \<Rightarrow> bytes list \<Rightarrow> int \<Rightarrow> string \<Rightarrow> string" where
  "GetKeysignWorkId md5Hex workType txs block chain =
     (case workType of
        EcSigning \<Rightarrow> ''ecdsa_signing'' @ ''-'' @ dec_of_int block @ ''-'' @ chain @ ''-'' @ md5Hex (concat (map Fprint_bytes txs))
      | EdSigning \<Rightarrow> ''eddsa_signing'' @ ''-'' @ dec_of_int block @ ''-'' @ chain @ ''-'' @ md5Hex (concat (map Fprint_bytes txs))
      | _ \<Rightarrow> '''')"

subsection \<open>The default worker behind the interface\<close>

text \<open>
  \<open>Start\<close> of the default worker also launches the goroutine that runs the selection on the cached
  messages: the action \<open>Inr\<close>. The argument \<open>manager\<close> stands for the presign manager of the engine, a
  pointer that all its signing workers share; what the calls of the workers on it do is the subject of
  \<open>Presign_Manager\<close> and \<open>Prework_Selection\<close>.
\<close>

definition default_worker_ops ::
  "'p worker_env \<Rightarrow> (MessageCache \<Rightarrow> (string \<times> slice) list) \<Rightarrow> int \<Rightarrow> 'm \<Rightarrow>
   (('m, 'p) DefaultWorker, worker_action + TssMessage list) worker_ops" where
  "default_worker_ops wenv ord now manager =
     \<lparr>wk_NewKeygenWorker = NewKeygenWorker,
      wk_NewSigningWorker = (\<lambda>request myPid cfg maxJob. NewSigningWorker request myPid cfg maxJob manager),
      wk_Start = (\<lambda>cachedMsgs w. go_bind (worker_Start wenv ord cachedMsgs w) (\<lambda>(msgs, w'). Ret (None, [Inr msgs], w'))),
      wk_ProcessNewMessage = (\<lambda>msg w. go_bind (worker_ProcessNewMessage wenv now msg w) (\<lambda>r.
        Ret (case r of Blocked \<Rightarrow> Blocked | Sent (err, acts, w') \<Rightarrow> Sent (err, map Inl acts, w')))),
      wk_GetCulprits = GetCulprits\<rparr>"

text \<open>An environment for evaluation: parties \<open>a\<close>, \<open>b\<close>, \<open>c\<close> with peer ids 1, 2, 3.\<close>

definition letter_id :: "bytes \<Rightarrow> string" where
  "letter_id bs = (if bs = [1] then ''a'' else if bs = [2] then ''b'' else ''c'')"

definition ref_sig :: sig_lib where
  "ref_sig = \<lparr>sl_EcPublicKey = (\<lambda>n. [word_of_nat n]), sl_EcSignature = Some, sl_EdPublicKey = (\<lambda>n. [word_of_nat n]),
     sl_EdSignature = Some, sl_EdVerify = (\<lambda>_ _ _ _. True), sg_R = (\<lambda>n. [word_of_nat n]), sg_S = (\<lambda>n. [2]),
     sg_SignatureRecovery = (\<lambda>_. [1]), sg_Signature = (\<lambda>n. [word_of_nat n]), sl_BitSize = 256\<rparr>"

definition sample_engine_env ::
  "((nat AvailablePresigns, unit) DefaultWorker, worker_action + TssMessage list) engine_env" where
  "sample_engine_env =
     \<lparr>ee_lib = ref_lib, ee_worker = default_worker_ops sample_env mc_cache 0 (NewAvailPresignManager 0), ee_sig = ref_sig,
      ee_cfg = NewDefaultTimeoutConfig, ee_grow = go_grow, ee_popOrder = mc_cache, ee_nodeOrder = (\<lambda>ns. ns),
      ee_idString = letter_id, ee_MarshalTss = (\<lambda>_. Inr []), ee_MarshalSigned = (\<lambda>m. Inr (sm_Signature m)),
      ee_UnmarshalSigned = (\<lambda>_. Inl ''bad''), ee_Sign = (\<lambda>_. Inr [7])\<rparr>"

definition abc_nodes :: "Node list" where
  "abc_nodes = map (\<lambda>(p, b). \<lparr>nd_PeerId = [b], nd_PubKey = ed_key b, nd_PartyId = p\<rparr>) (zip abc [1, 2, 3])"

definition abc_engine :: "((nat AvailablePresigns, unit) DefaultWorker, nat) Engine" where
  "abc_engine = state_of (AddNodes sample_engine_env abc_nodes (NewEngine (abc_nodes ! 0) 0))"

end
