(* ===== verification/Engine_Scheduling.thy ===== *)
theory Engine_Scheduling
  imports Engine
begin

section \<open>How the engine schedules work\<close>

text \<open>
  The life of an engine as a sequence of events: the calls of its API, the messages of the network
  and the callbacks of its workers, one at a time. A goroutine that gets stuck leaves the engine in
  the state it reached. First the limit on the workers for every sequence, then the refinement of
  a first-come first-served scheduler with two slots, then what happens when calls overlap.
\<close>

datatype engine_event =
    EvAddNodes "Node list"
  | EvAddRequest WorkRequest
  | EvNetwork string bytes
  | EvBroadcast "party option list" TssMessage
  | EvUnicast "party option" TssMessage
  | EvNotSelected WorkRequest
  | EvWorkFailed WorkRequest
  | EvWorkerResult WorkRequest "JobResult option list"

fun engine_step :: "('w, 'a) engine_env \<Rightarrow> engine_event \<Rightarrow> ('w, 'd) Engine \<Rightarrow> ('w, 'd) Engine go" where
  "engine_step env (EvAddNodes nodes) e = Ret (state_of (AddNodes env nodes e))"
| "engine_step env (EvAddRequest r) e = go_bind (AddRequest env r e) (\<lambda>p. Ret (state_of p))"
| "engine_step env (EvNetwork peer data) e = go_bind (OnNetworkMessage env peer data e) (\<lambda>p. Ret (state_of p))"
| "engine_step env (EvBroadcast pids msg) e = go_bind (BroadcastMessage env pids msg e) (\<lambda>p. Ret (state_of p))"
| "engine_step env (EvUnicast dest msg) e = go_bind (UnicastMessage env dest msg e) (\<lambda>p. Ret (state_of p))"
| "engine_step env (EvNotSelected r) e = go_bind (engine_OnNodeNotSelected env r e) (\<lambda>(acts, e'). Ret e')"
| "engine_step env (EvWorkFailed r) e = go_bind (engine_OnWorkFailed env r e) (\<lambda>(acts, e'). Ret e')"
| "engine_step env (EvWorkerResult r results) e = go_bind (engine_OnWorkerResult env r results e) (\<lambda>(acts, e'). Ret e')"

fun engine_run :: "('w, 'a) engine_env \<Rightarrow> engine_event list \<Rightarrow> ('w, 'd) Engine \<Rightarrow> ('w, 'd) Engine go" where
  "engine_run env [] e = Ret e"
| "engine_run env (ev # evs) e = go_bind (engine_step env ev e) (engine_run env evs)"

definition engine_ok :: "('w, 'd) Engine \<Rightarrow> bool" where
  "engine_ok e \<longleftrightarrow> gmap_ok (en_workers e) \<and> length (en_workers e) \<le> MaxWorker \<and> rq_ok (en_requestQueue e)"

subsection \<open>What an operation leaves untouched\<close>

text \<open>\<open>same_load e e'\<close>: the workers' ids, the queue and the own party are the same.\<close>

definition same_load :: "('w, 'd) Engine \<Rightarrow> ('w, 'd) Engine \<Rightarrow> bool" where
  "same_load e e' \<longleftrightarrow> gkeys (en_workers e') = gkeys (en_workers e) \<and> en_requestQueue e' = en_requestQueue e \<and>
     (gmap_ok (en_workers e) \<longrightarrow> gmap_ok (en_workers e')) \<and> en_myPid e' = en_myPid e"

lemma same_load_refl [simp]: "same_load e e"
  by (simp add: same_load_def)

lemma same_load_trans: "same_load e e' \<Longrightarrow> same_load e' e'' \<Longrightarrow> same_load e e''"
  by (simp add: same_load_def)

lemma same_load_ok: "same_load e e' \<Longrightarrow> engine_ok e \<Longrightarrow> engine_ok e'"
  by (auto simp: same_load_def engine_ok_def length_gmap)

lemma same_load_updates [simp]:
  "same_load e (e'\<lparr>en_leaked := n\<rparr>) = same_load e e'" "same_load e (e'\<lparr>en_writer := b\<rparr>) = same_load e e'"
  "same_load e (e'\<lparr>en_nodes := ns\<rparr>) = same_load e e'" "same_load e (e'\<lparr>en_workCache := c\<rparr>) = same_load e e'"
  "same_load e (e'\<lparr>en_preworkCache := pc\<rparr>) = same_load e e'"
  by (simp_all add: same_load_def)

lemma then_do_Ret:
  "then_do m f = Ret r \<longleftrightarrow> (\<exists>e. m = Ret (Stuck e) \<and> r = Stuck e) \<or> (\<exists>e b. m = Ret (Done e b) \<and> f e b = Ret r)"
  by (cases m) (auto simp: then_do_def split: progress.splits)

lemma case_sending_Ret:
  "(case r of Blocked \<Rightarrow> a | Sent x \<Rightarrow> f x) = Ret y \<longleftrightarrow> r = Blocked \<and> a = Ret y \<or> (\<exists>x. r = Sent x \<and> f x = Ret y)"
  by (cases r) auto

lemma getNodeFromPeerId_cases:
  "getNodeFromPeerId i e = r \<longleftrightarrow> (if en_writer e then r = Stuck e else r = Done e (gget (en_nodes e) i))"
  by (auto simp: getNodeFromPeerId_def)

lemma peer_ids_state: "peer_ids pids e = Ret p \<Longrightarrow> state_of p = e"
proof (induction pids arbitrary: p)
  case (Cons pid pids)
  then show ?case
    by (cases pid) (auto simp: go_simps then_do_Ret getNodeFromPeerId_cases split: if_split_asm option.split_asm)
qed auto

lemma sendSignMessaged_load: "sendSignMessaged env m pids e = Ret p \<Longrightarrow> same_load e (state_of p)"
  by (auto simp: sendSignMessaged_def then_do_Ret ret_iffs dest!: peer_ids_state)

lemma cacheWorkMsg_load: "cacheWorkMsg m e = Ret e' \<Longrightarrow> same_load e e'"
  by (auto simp: cacheWorkMsg_def go_bind_eq_Ret_iff split: if_split_asm sum.split_asm)

lemma OnAskMessage_load: "OnAskMessage env m e = Ret p \<Longrightarrow> same_load e (state_of p)"
  by (auto simp: OnAskMessage_def then_do_Ret ret_iffs dest!: sendSignMessaged_load)

lemma ProcessNewMessage_load:
  assumes "engine_ProcessNewMessage env m e = Ret p"
  shows "same_load e (state_of p)"
proof (cases m)
  case (Some msg)
  show ?thesis
  proof (cases "gget (en_workers e) (tm_WorkId msg)")
    case None
    then show ?thesis
      using assms Some by (auto simp: engine_ProcessNewMessage_def split: if_split_asm dest!: OnAskMessage_load)
  next
    case w: (Some w)
    then have "tm_WorkId msg \<in> gkeys (en_workers e)" by (metis gget_None_iff option.distinct(1))
    then show ?thesis
      using assms Some w
      by (cases "tm_Type msg = ASK_MESSAGE_REQUEST")
        (auto simp: engine_ProcessNewMessage_def ret_iffs case_sending_Ret same_load_def insert_absorb
          dest!: OnAskMessage_load)
  qed
qed (use assms in \<open>auto simp: engine_ProcessNewMessage_def\<close>)

lemma OnNetworkMessage_load:
  assumes "OnNetworkMessage env peer data e = Ret p"
  shows "same_load e (state_of p)"
  using assms
  by (auto simp: OnNetworkMessage_def then_do_Ret getNodeFromPeerId_cases ret_iffs split: if_split_asm
    dest!: cacheWorkMsg_load ProcessNewMessage_load intro: same_load_trans)

lemma Broadcast_load:
  "BroadcastMessage env pids msg e = Ret p \<Longrightarrow> same_load e (state_of p)"
  "UnicastMessage env dest msg e = Ret p \<Longrightarrow> same_load e (state_of p)"
  by (auto simp: BroadcastMessage_def UnicastMessage_def go_bind_eq_Ret_iff
    split: if_split_asm sum.split_asm intro: same_load_trans [OF cacheWorkMsg_load sendSignMessaged_load])

subsection \<open>Starting and finishing keep the invariant\<close>

lemma startWork_state:
  assumes "startWork env r e = Ret (acts, e')"
  shows "gkeys (en_workers e') = insert (wr_WorkId r) (gkeys (en_workers e))"
    and "en_requestQueue e' = en_requestQueue e"
    and "gmap_ok (en_workers e) \<Longrightarrow> gmap_ok (en_workers e')"
    and "en_nodes e' = en_nodes e" and "en_writer e' = en_writer e" and "en_myPid e' = en_myPid e"
  using assms by (auto simp: startWork_def Let_def ret_iffs split: prod.split_asm)

lemma startNextWork_ok:
  assumes "startNextWork env e = Ret (acts, e')" and "engine_ok e"
  shows "engine_ok e'"
proof (cases "MaxWorker \<le> length (en_workers e)")
  case True
  then show ?thesis using assms by (simp add: startNextWork_def take_next_def)
next
  case False
  obtain q next_work where pop: "Pop (en_requestQueue e) = (q, next_work)" by (cases "Pop (en_requestQueue e)")
  then have q: "rq_ok q" using Pop_cases(1) [of "en_requestQueue e"] assms(2) by (simp add: engine_ok_def)
  show ?thesis
  proof (cases next_work)
    case None
    then show ?thesis using assms False pop q by (auto simp: startNextWork_def take_next_def engine_ok_def)
  next
    case (Some r)
    then have st: "startWork env r (e\<lparr>en_requestQueue := q\<rparr>) = Ret (acts, e')"
      using assms(1) False pop by (simp add: startNextWork_def take_next_def)
    have ok: "gmap_ok (en_workers e)" using assms(2) by (simp add: engine_ok_def)
    moreover have "card (insert (wr_WorkId r) (gkeys (en_workers e))) \<le> MaxWorker"
      using False ok card_insert_le_m1 [of MaxWorker "gkeys (en_workers e)" "wr_WorkId r"]
      by (simp add: length_gmap MaxWorker_def)
    ultimately show ?thesis
      using startWork_state [OF st] q by (simp add: engine_ok_def length_gmap)
  qed
qed

lemma finishWorker_ok:
  assumes "finishWorker env i e = Ret (acts, e')" and "engine_ok e"
  shows "engine_ok e'"
proof (rule startNextWork_ok)
  show "startNextWork env (e\<lparr>en_workers := gdel i (en_workers e)\<rparr>) = Ret (acts, e')"
    using assms(1) by (simp add: finishWorker_def)
  show "engine_ok (e\<lparr>en_workers := gdel i (en_workers e)\<rparr>)"
    using assms(2) length_gdel_le [of "en_workers e" i] by (auto simp: engine_ok_def)
qed

lemma unknown_party_state: "state_of (unknown_party ps e) = e"
  by (induction ps e rule: unknown_party.induct) (auto simp: getNodeFromPeerId_def)

lemma AddRequest_ok:
  assumes "growth (ee_grow env)" and "AddRequest env r e = Ret p" and "engine_ok e"
  shows "engine_ok (state_of p)"
proof (cases "unknown_party (wr_AllParties r) e")
  case (Stuck e1)
  then show ?thesis
    using assms unknown_party_state [of "wr_AllParties r" e]
    by (auto simp: AddRequest_def then_do_Ret ret_iffs)
next
  case (Done e1 err)
  have e1: "e1 = e" using unknown_party_state [of "wr_AllParties r" e] Done by simp
  obtain q b where add: "AddWork (ee_grow env) (en_requestQueue e) r = (q, b)" by (cases "AddWork (ee_grow env) (en_requestQueue e) r")
  then have "rq_ok q"
    using growth.AddWork_pending [OF assms(1), of "en_requestQueue e" r] assms(3) by (simp add: engine_ok_def)
  then have "engine_ok (e\<lparr>en_requestQueue := q\<rparr>)" using assms(3) by (simp add: engine_ok_def)
  then show ?thesis
    using assms(2,3) Done e1 add startNextWork_ok [of env "e\<lparr>en_requestQueue := q\<rparr>"]
    by (auto simp: AddRequest_def then_do_Ret ret_iffs Let_def split: if_split_asm)
qed

lemma engine_step_ok:
  assumes "growth (ee_grow env)" and "engine_step env ev e = Ret e'" and "engine_ok e"
  shows "engine_ok e'"
proof (cases ev)
  case (EvAddNodes nodes)
  then show ?thesis using assms(2,3) by (auto simp: AddNodes_def engine_ok_def split: if_split_asm)
next
  case (EvAddRequest r)
  then show ?thesis using assms AddRequest_ok [OF assms(1)] by (auto simp: ret_iffs)
next
  case (EvNotSelected r)
  then show ?thesis using assms(2,3) by (auto simp: engine_OnNodeNotSelected_def ret_iffs dest: finishWorker_ok)
next
  case (EvWorkFailed r)
  then show ?thesis using assms(2,3) by (auto simp: engine_OnWorkFailed_def ret_iffs dest: finishWorker_ok)
next
  case (EvWorkerResult r results)
  then show ?thesis
    using assms(2,3) by (auto simp: engine_OnWorkerResult_def Let_def ret_iffs dest: finishWorker_ok)
qed (use assms(2,3) in \<open>auto simp: ret_iffs intro: same_load_ok dest!: OnNetworkMessage_load Broadcast_load\<close>)

lemma engine_ok_New: "engine_ok (NewEngine node d)"
  by (simp add: engine_ok_def NewEngine_def)

text \<open>
  C13. At most two workers: whatever requests, network messages and worker callbacks reach an engine,
  one after the other, it never has more than \<open>MaxWorker\<close> workers, one per work id, and its queue stays
  well-formed.
\<close>

theorem engine_worker_limit:
  assumes "growth (ee_grow env)" and "engine_run env evs (NewEngine node d) = Ret e"
  shows "GetActiveWorkerCount e \<le> MaxWorker \<and> gmap_ok (en_workers e) \<and> rq_ok (en_requestQueue e)"
proof -
  have "engine_ok e'" if "engine_run env evs e0 = Ret e'" and "engine_ok e0" for e0 e'
    using that by (induction evs arbitrary: e0) (auto simp: ret_iffs dest: engine_step_ok [OF assms(1)])
  from this [OF assms(2) engine_ok_New] show ?thesis by (simp add: engine_ok_def GetActiveWorkerCount_def)
qed

theorem engine_worker_limit_witness:
  "\<exists>e. engine_run sample_engine_env [EvAddNodes abc_nodes, EvAddRequest abc_keygen, EvWorkFailed abc_keygen]
      (NewEngine (abc_nodes ! 0) (0 :: nat)) = Ret e \<and> GetActiveWorkerCount e \<le> MaxWorker"
proof -
  let ?run = "engine_run sample_engine_env [EvAddNodes abc_nodes, EvAddRequest abc_keygen, EvWorkFailed abc_keygen]
      (NewEngine (abc_nodes ! 0) (0 :: nat))"
  have "(case ?run of Ret _ \<Rightarrow> True | _ \<Rightarrow> False)" by code_simp
  then obtain e where e: "?run = Ret e" by (cases ?run) simp_all
  have "growth (ee_grow sample_engine_env)" by (simp add: sample_engine_env_def go_growth.growth_axioms)
  from engine_worker_limit [OF this e] e show ?thesis by auto
qed

subsection \<open>A scheduler with two slots\<close>

text \<open>
  The abstract scheduler: the ids that run and the requests that wait. A submitted request runs at
  once if a slot is free and waits at the end otherwise; when a running work finishes, the request
  that has waited longest takes its slot.
\<close>

datatype sched_event = Submit WorkRequest | Finish string

fun sched_step :: "sched_event \<Rightarrow> string set \<times> WorkRequest list \<Rightarrow> string set \<times> WorkRequest list" where
  "sched_step (Submit r) (R, W) = (if card R < MaxWorker then (insert (wr_WorkId r) R, W) else (R, W @ [r]))"
| "sched_step (Finish i) (R, W) =
     (if i \<in> R then (case W of [] \<Rightarrow> (R - {i}, []) | r # W' \<Rightarrow> (insert (wr_WorkId r) (R - {i}), W')) else (R, W))"

definition submits :: "sched_event list \<Rightarrow> WorkRequest list" where
  "submits evs = concat (map (\<lambda>ev. case ev of Submit r \<Rightarrow> [r] | Finish _ \<Rightarrow> []) evs)"

fun engine_sched :: "('w, 'a) engine_env \<Rightarrow> sched_event \<Rightarrow> ('w, 'd) Engine \<Rightarrow> ('w, 'd) Engine go" where
  "engine_sched env (Submit r) e = go_bind (AddRequest env r e) (\<lambda>p. Ret (state_of p))"
| "engine_sched env (Finish i) e = go_bind (finishWorker env i e) (\<lambda>(acts, e'). Ret e')"

fun engine_sched_run :: "('w, 'a) engine_env \<Rightarrow> sched_event list \<Rightarrow> ('w, 'd) Engine \<Rightarrow> ('w, 'd) Engine go" where
  "engine_sched_run env [] e = Ret e"
| "engine_sched_run env (ev # evs) e = go_bind (engine_sched env ev e) (engine_sched_run env evs)"

text \<open>A worker for the request can be started, whatever messages it is given.\<close>

definition can_start :: "('w, 'a) engine_env \<Rightarrow> WorkRequest \<Rightarrow> bool" where
  "can_start env r \<longleftrightarrow> Validate r = None \<and>
     (\<forall>ms pid mb. (\<exists>x. wk_Start (ee_worker env) ms (wk_NewKeygenWorker (ee_worker env) r pid (ee_cfg env)) = Ret x) \<and>
       (\<exists>x. wk_Start (ee_worker env) ms (wk_NewSigningWorker (ee_worker env) r pid (ee_cfg env) mb) = Ret x))"

definition parties_known :: "('w, 'd) Engine \<Rightarrow> WorkRequest \<Rightarrow> bool" where
  "parties_known e r \<longleftrightarrow> (\<forall>p \<in> set (wr_AllParties r). gget (en_nodes e) (p_Id p) \<noteq> None \<or> p_Id p = p_Id (en_myPid e))"

lemma worker_Start_total:
  assumes "wr_AllParties (dw_request w) \<noteq> []"
  shows "\<exists>x. worker_Start wenv ord ms w = Ret x"
proof -
  obtain p where "ChooseLeader (ev_hash wenv) (wr_WorkId (dw_request w)) (wr_AllParties (dw_request w)) = Ret p"
    using ChooseLeader_min [OF assms] by blast
  then show ?thesis by (simp add: worker_Start_def Let_def NewPreworkSelection_def split_beta)
qed

text \<open>
  What the engine relies on in a worker: a worker it has made for a request with at least one party can
  be started, whatever messages it is given.
\<close>

locale startable_worker =
  fixes ops :: "('w, 'a) worker_ops"
  assumes keygen_starts: "wr_AllParties r \<noteq> [] \<Longrightarrow> \<exists>x. wk_Start ops ms (wk_NewKeygenWorker ops r pid cfg) = Ret x"
    and signing_starts: "wr_AllParties r \<noteq> [] \<Longrightarrow> \<exists>x. wk_Start ops ms (wk_NewSigningWorker ops r pid cfg mb) = Ret x"
begin

lemma valid_can_start:
  assumes "ee_worker env = ops" and "Validate r = None" and "wr_AllParties r \<noteq> []"
  shows "can_start env r"
  using assms keygen_starts signing_starts by (simp add: can_start_def del: Validate.simps)

end

lemma default_worker_starts:
  assumes "wr_AllParties (dw_request w) \<noteq> []"
  shows "\<exists>x. wk_Start (default_worker_ops wenv ord now m) ms w = Ret x"
proof -
  obtain c w' where "worker_Start wenv ord ms w = Ret (c, w')"
    using worker_Start_total [OF assms, of wenv ord ms] by auto
  then show ?thesis by (simp add: default_worker_ops_def)
qed

interpretation dw: startable_worker "default_worker_ops wenv ord now m" for wenv ord now m
proof
  fix r :: WorkRequest and ms pid cfg mb
  assume parties: "wr_AllParties r \<noteq> []"
  show "\<exists>x. wk_Start (default_worker_ops wenv ord now m) ms (wk_NewKeygenWorker (default_worker_ops wenv ord now m) r pid cfg) = Ret x"
    using parties by (intro default_worker_starts) (simp add: default_worker_ops_def NewKeygenWorker_def baseWorker_def)
  show "\<exists>x. wk_Start (default_worker_ops wenv ord now m) ms (wk_NewSigningWorker (default_worker_ops wenv ord now m) r pid cfg mb) = Ret x"
    using parties by (intro default_worker_starts) (simp add: default_worker_ops_def NewSigningWorker_def baseWorker_def)
qed

lemmas default_can_start = dw.valid_can_start

lemma startWork_total:
  assumes "can_start env r"
  obtains acts e' where "startWork env r e = Ret (acts, e')"
proof -
  obtain cache msgs where pop:
    "PopAllMessages (ee_grow env) (ee_popOrder env (en_preworkCache e)) (wr_WorkId r) None (en_preworkCache e) = (cache, msgs)"
    by (cases "PopAllMessages (ee_grow env) (ee_popOrder env (en_preworkCache e)) (wr_WorkId r) None (en_preworkCache e)")
  let ?my = "NewPartyID (ee_lib env) (p_Id (en_myPid e)) (p_Moniker (en_myPid e)) (p_Key (en_myPid e))"
  let ?ops = "ee_worker env"
  let ?w = "if IsKeygen r then wk_NewKeygenWorker ?ops r ?my (ee_cfg env)
            else wk_NewSigningWorker ?ops r ?my (ee_cfg env) MaxBatchSize"
  have kind: "IsKeygen r \<or> IsSigning r" using assms by (simp add: can_start_def Validate_None_iff del: Validate.simps)
  have "\<exists>x. wk_Start ?ops msgs ?w = Ret x" using assms by (simp add: can_start_def)
  then obtain err acts w' where "wk_Start ?ops msgs ?w = Ret (err, acts, w')" by (metis prod_cases3)
  then have "startWork env r e = Ret (map (FromWorker (wr_WorkId r)) acts,
      e\<lparr>en_workers := gput (wr_WorkId r) w' (en_workers e), en_preworkCache := cache\<rparr>)"
    using kind pop by (cases "wr_WorkType r") (simp_all add: startWork_def Let_def IsKeygen_def IsSigning_def go_simps)
  then show ?thesis by (rule that)
qed

lemma startNextWork_spec:
  assumes "engine_ok e" and "\<forall>r \<in> set (pending (en_requestQueue e)). can_start env r"
  defines "W \<equiv> pending (en_requestQueue e)" and "R \<equiv> gkeys (en_workers e)"
  obtains acts e' where "startNextWork env e = Ret (acts, e')" and "engine_ok e'"
    and "(gkeys (en_workers e'), pending (en_requestQueue e')) =
      (if card R < MaxWorker \<and> W \<noteq> [] then (insert (wr_WorkId (hd W)) R, tl W) else (R, W))"
    and "en_nodes e' = en_nodes e" and "en_writer e' = en_writer e" and "en_myPid e' = en_myPid e"
proof (cases "card R < MaxWorker \<and> W \<noteq> []")
  case True
  have ok: "gmap_ok (en_workers e)" "rq_ok (en_requestQueue e)" using assms(1) by (simp_all add: engine_ok_def)
  note pop = Pop_cases [OF ok(2), folded W_def]
  let ?e = "e\<lparr>en_requestQueue := fst (Pop (en_requestQueue e))\<rparr>"
  have "can_start env (hd W)" using assms(2) True by (simp add: W_def)
  then obtain acts e' where st: "startWork env (hd W) ?e = Ret (acts, e')" by (rule startWork_total)
  have next_eq: "startNextWork env e = Ret (acts, e')"
    using True ok(1) pop(3) st by (simp add: startNextWork_def take_next_def R_def length_gmap split_beta)
  show ?thesis
    using that [OF next_eq startNextWork_ok [OF next_eq assms(1)]] startWork_state [OF st] pop(2) True
    by (simp add: R_def)
next
  case False
  have ok: "gmap_ok (en_workers e)" "rq_ok (en_requestQueue e)" using assms(1) by (simp_all add: engine_ok_def)
  note pop = Pop_cases [OF ok(2), folded W_def]
  show ?thesis
  proof (cases "card R < MaxWorker")
    case True
    with False have W: "W = []" by simp
    let ?e = "e\<lparr>en_requestQueue := fst (Pop (en_requestQueue e))\<rparr>"
    have "startNextWork env e = Ret ([], ?e)"
      using True ok(1) pop(3) W by (simp add: startNextWork_def take_next_def R_def length_gmap split_beta)
    from that [OF this startNextWork_ok [OF this assms(1)]] show ?thesis using pop(2) W False by (simp add: R_def)
  next
    case full: False
    then have "startNextWork env e = Ret ([], e)"
      using ok(1) by (simp add: startNextWork_def take_next_def R_def length_gmap)
    from that [OF this assms(1)] show ?thesis using full by (simp add: R_def W_def)
  qed
qed

lemma unknown_party_known: "parties_known e r \<Longrightarrow> \<not> en_writer e \<Longrightarrow> unknown_party (wr_AllParties r) e = Done e None"
proof -
  have "unknown_party ps e = Done e None"
    if "\<not> en_writer e" and "\<forall>p \<in> set ps. gget (en_nodes e) (p_Id p) \<noteq> None \<or> p_Id p = p_Id (en_myPid e)" for ps
    using that by (induction ps) (auto simp: getNodeFromPeerId_def)
  then show "parties_known e r \<Longrightarrow> \<not> en_writer e \<Longrightarrow> ?thesis" by (simp add: parties_known_def)
qed

text \<open>\<open>simulates env c rest e s\<close>: the engine is in the abstract state \<open>s\<close> while the requests \<open>rest\<close> are still to come.\<close>

definition simulates ::
  "('w, 'a) engine_env \<Rightarrow> int \<Rightarrow> WorkRequest list \<Rightarrow> ('w, 'd) Engine \<Rightarrow> string set \<times> WorkRequest list \<Rightarrow> bool" where
  "simulates env c rest e s \<longleftrightarrow>
     engine_ok e \<and> \<not> en_writer e \<and> (gkeys (en_workers e), pending (en_requestQueue e)) = s \<and>
     (snd s \<noteq> [] \<longrightarrow> card (fst s) = MaxWorker) \<and>
     (\<forall>r \<in> set (snd s). can_start env r \<and> GetPriority r = c) \<and>
     (\<forall>r \<in> set rest. can_start env r \<and> GetPriority r = c \<and> parties_known e r) \<and>
     distinct (map wr_WorkId (snd s @ rest)) \<and> wr_WorkId ` set (snd s @ rest) \<inter> fst s = {}"

lemma simulates_submit:
  assumes "growth (ee_grow env)" and sim: "simulates env c (r # rest) e s"
  shows "\<exists>e'. engine_sched env (Submit r) e = Ret e' \<and> simulates env c rest e' (sched_step (Submit r) s)"
proof -
  obtain R W where s: "s = (R, W)" by (cases s)
  have ok: "engine_ok e" "rq_ok (en_requestQueue e)" "gmap_ok (en_workers e)"
    and RW: "gkeys (en_workers e) = R" "pending (en_requestQueue e) = W" and nw: "\<not> en_writer e"
    using sim by (auto simp: simulates_def s engine_ok_def)
  have fresh: "wr_WorkId r \<notin> wr_WorkId ` set W" "wr_WorkId r \<notin> R" using sim by (auto simp: simulates_def s)
  define q where "q = fst (AddWork (ee_grow env) (en_requestQueue e) r)"
  have add: "AddWork (ee_grow env) (en_requestQueue e) r = (q, True)" "rq_ok q" "pending q = W @ [r]"
    using growth.AddWork_pending [OF assms(1) ok(2), of r] add_pending_last [of W r] fresh(1) sim
    by (auto simp: RW s simulates_def q_def prod_eq_iff)
  let ?e = "e\<lparr>en_requestQueue := q\<rparr>"
  have "engine_ok ?e" using ok(1) add(2) by (simp add: engine_ok_def)
  moreover have "\<forall>r \<in> set (pending (en_requestQueue ?e)). can_start env r"
    using sim add(3) by (auto simp: simulates_def s)
  ultimately obtain acts e' where e': "startNextWork env ?e = Ret (acts, e')" "engine_ok e'"
    "(gkeys (en_workers e'), pending (en_requestQueue e')) =
      (if card R < MaxWorker \<and> W @ [r] \<noteq> [] then (insert (wr_WorkId (hd (W @ [r]))) R, tl (W @ [r])) else (R, W @ [r]))"
    "en_nodes e' = en_nodes e" "en_writer e' = en_writer e" "en_myPid e' = en_myPid e"
    by (rule startNextWork_spec) (auto simp: RW add(3))
  have "W = []" if "card R < MaxWorker" using sim that by (auto simp: simulates_def s)
  then have next_state: "(gkeys (en_workers e'), pending (en_requestQueue e')) = sched_step (Submit r) s"
    using e'(3) by (auto simp: s)
  have "Validate r = None" using sim by (simp add: simulates_def can_start_def del: Validate.simps)
  moreover have "parties_known e r" using sim by (simp add: simulates_def)
  ultimately have "engine_sched env (Submit r) e = Ret e'"
    using add(1) e'(1) unknown_party_known [of e r] nw by (simp add: AddRequest_def then_do_def del: Validate.simps)
  moreover have "simulates env c rest e' (sched_step (Submit r) s)"
    using sim e'(2,4-6) next_state fresh
      card_mono [of "gkeys (en_workers e)" R] length_gmap [OF ok(3)]
    by (cases "card R < MaxWorker") (auto simp: simulates_def s parties_known_def engine_ok_def RW)
  ultimately show ?thesis by blast
qed

lemma simulates_finish:
  assumes sim: "simulates env c rest e s"
  shows "\<exists>e'. engine_sched env (Finish i) e = Ret e' \<and> simulates env c rest e' (sched_step (Finish i) s)"
proof -
  obtain R W where s: "s = (R, W)" by (cases s)
  have ok: "engine_ok e" "gmap_ok (en_workers e)"
    and RW: "gkeys (en_workers e) = R" "pending (en_requestQueue e) = W"
    using sim by (auto simp: simulates_def s engine_ok_def)
  have card: "card R \<le> MaxWorker" "finite R" using ok length_gmap [OF ok(2)] RW by (auto simp: engine_ok_def)
  let ?e = "e\<lparr>en_workers := gdel i (en_workers e)\<rparr>"
  have "engine_ok ?e" using ok length_gdel_le [of "en_workers e" i] by (auto simp: engine_ok_def)
  moreover have "\<forall>r \<in> set (pending (en_requestQueue ?e)). can_start env r"
    using sim by (auto simp: simulates_def s)
  ultimately obtain acts e' where e': "startNextWork env ?e = Ret (acts, e')" "engine_ok e'"
    "(gkeys (en_workers e'), pending (en_requestQueue e')) =
      (if card (R - {i}) < MaxWorker \<and> W \<noteq> [] then (insert (wr_WorkId (hd W)) (R - {i}), tl W) else (R - {i}, W))"
    "en_nodes e' = en_nodes e" "en_writer e' = en_writer e" "en_myPid e' = en_myPid e"
    by (rule startNextWork_spec) (auto simp: RW)
  have slot: "card (R - {i}) < MaxWorker \<longleftrightarrow> i \<in> R \<or> card R < MaxWorker"
    using card by (auto simp: card_Diff_singleton_if MaxWorker_def)
  have full: "W \<noteq> [] \<Longrightarrow> card R = MaxWorker" using sim by (auto simp: simulates_def s)
  have next_state: "(gkeys (en_workers e'), pending (en_requestQueue e')) = sched_step (Finish i) s"
    using e'(3) slot full by (cases W) (auto simp: s)
  have size: "card (insert (wr_WorkId r) (R - {i})) = MaxWorker" if "W = r # W'" and "i \<in> R" for r W'
  proof -
    have "wr_WorkId r \<notin> R" using sim that(1) by (auto simp: simulates_def s)
    then show ?thesis using full that card by (simp add: card_Diff_singleton_if MaxWorker_def)
  qed
  have "simulates env c rest e' (sched_step (Finish i) s)"
    using sim e'(2,4-6) next_state size
    by (cases W; cases "i \<in> R") (auto simp: simulates_def s parties_known_def)
  then show ?thesis using e'(1) by (simp add: finishWorker_def)
qed

lemma simulates_run:
  assumes "growth (ee_grow env)" and "simulates env c (submits evs) e s"
  shows "\<exists>e'. engine_sched_run env evs e = Ret e' \<and> simulates env c [] e' (fold sched_step evs s)"
  using assms(2)
proof (induction evs arbitrary: e s)
  case (Cons ev evs)
  have "\<exists>e1. engine_sched env ev e = Ret e1 \<and> simulates env c (submits evs) e1 (sched_step ev s)"
  proof (cases ev)
    case (Submit r)
    then show ?thesis using simulates_submit [OF assms(1)] Cons.prems by (simp add: submits_def)
  next
    case (Finish i)
    then show ?thesis using simulates_finish Cons.prems by (simp add: submits_def)
  qed
  then obtain e1 where "engine_sched env ev e = Ret e1" "simulates env c (submits evs) e1 (sched_step ev s)" by blast
  then show ?case using Cons.IH by simp
qed (simp add: submits_def)

text \<open>
  C12. The engine is a first-come first-served scheduler with two slots. For requests of one priority
  class with different work ids, whose workers can be started and whose parties are known, every
  sequence of submissions and completions leaves the engine without a panic in exactly the state of
  the abstract scheduler: the same works run, the same requests wait in the same order, and no
  request waits while a slot is free.
\<close>

theorem engine_refines_scheduler:
  assumes "growth (ee_grow env)"
    and "\<forall>r \<in> set (submits evs). can_start env r \<and> GetPriority r = c \<and> parties_known e0 r"
    and "distinct (map wr_WorkId (submits evs))"
    and "en_workers e0 = []" and "en_requestQueue e0 = NewRequestQueue" and "\<not> en_writer e0"
  shows "\<exists>e. engine_sched_run env evs e0 = Ret e \<and>
    (gkeys (en_workers e), pending (en_requestQueue e)) = fold sched_step evs ({}, []) \<and>
    (pending (en_requestQueue e) \<noteq> [] \<longrightarrow> GetActiveWorkerCount e = MaxWorker)"
proof -
  have "simulates env c (submits evs) e0 ({}, [])"
    using assms(2-6) by (simp add: simulates_def engine_ok_def)
  from simulates_run [OF assms(1) this] obtain e where e: "engine_sched_run env evs e0 = Ret e"
    "simulates env c [] e (fold sched_step evs ({}, []))" by blast
  then have st: "(gkeys (en_workers e), pending (en_requestQueue e)) = fold sched_step evs ({}, [])"
    and ok: "gmap_ok (en_workers e)"
    and "snd (fold sched_step evs ({}, [])) \<noteq> [] \<longrightarrow> card (fst (fold sched_step evs ({}, []))) = MaxWorker"
    by (simp_all add: simulates_def engine_ok_def)
  then have "pending (en_requestQueue e) \<noteq> [] \<longrightarrow> card (gkeys (en_workers e)) = MaxWorker" by (metis fst_conv snd_conv)
  then show ?thesis using e(1) st ok by (simp add: GetActiveWorkerCount_def length_gmap)
qed

lemma abc_ids: "map p_Id abc = [''a'', ''b'', ''c'']"
  by (simp add: abc_def)

definition abc_work :: "string \<Rightarrow> WorkRequest" where
  "abc_work i = NewEcSigningRequest ref_lib i abc (GetThreshold 3) (Some [Some [1]]) (Some [''eth'']) (Some 5)"

lemma abc_work_ready:
  "can_start sample_engine_env (abc_work i)" "GetPriority (abc_work i) = 80" "parties_known abc_engine (abc_work i)"
proof -
  let ?copies = "map (\<lambda>pid. NewPartyID ref_lib (p_Id pid) (p_Moniker pid) (p_Key pid)) abc"
  have "wr_AllParties (abc_work i) = SortPartyIDs ref_lib ?copies"
    by (simp add: abc_work_def NewEcSigningRequest_def baseRequest_def)
  moreover have "map p_Id ?copies = map p_Id abc" by (simp add: ref_lib_def)
  ultimately have "mset (map p_Id (wr_AllParties (abc_work i))) = mset (map p_Id abc)"
    using ref_parties.sort_ids [of ?copies] by metis
  then have "set (map p_Id (wr_AllParties (abc_work i))) = set (map p_Id abc)" by (rule mset_eq_setD)
  then have ids: "p_Id ` set (wr_AllParties (abc_work i)) = {''a'', ''b'', ''c''}" unfolding abc_ids by simp
  then have "wr_AllParties (abc_work i) \<noteq> []" by (metis empty_not_insert image_empty list.set(1))
  moreover have ty: "wr_WorkType (abc_work i) = EcSigning" by (simp add: abc_work_def NewEcSigningRequest_def baseRequest_def)
  ultimately show "can_start sample_engine_env (abc_work i)"
    by (intro default_can_start) (auto simp: sample_engine_env_def)
  show "GetPriority (abc_work i) = 80" by (simp add: GetPriority_def ty)
  have "gget (en_nodes abc_engine) ''a'' \<noteq> None" "gget (en_nodes abc_engine) ''b'' \<noteq> None"
    "gget (en_nodes abc_engine) ''c'' \<noteq> None" by code_simp+
  then have "\<forall>k \<in> p_Id ` set (wr_AllParties (abc_work i)). gget (en_nodes abc_engine) k \<noteq> None" unfolding ids by simp
  then show "parties_known abc_engine (abc_work i)" by (simp add: parties_known_def)
qed

theorem engine_refines_scheduler_witness:
  "\<exists>e. engine_sched_run sample_engine_env
      [Submit (abc_work ''u''), Submit (abc_work ''v''), Submit (abc_work ''x''), Finish ''u''] abc_engine = Ret e \<and>
    gkeys (en_workers e) = {''v'', ''x''} \<and> pending (en_requestQueue e) = []"
proof -
  let ?evs = "[Submit (abc_work ''u''), Submit (abc_work ''v''), Submit (abc_work ''x''), Finish ''u'']"
  have id: "wr_WorkId (abc_work i) = i" for i by (simp add: abc_work_def NewEcSigningRequest_def baseRequest_def)
  have sub: "submits ?evs = [abc_work ''u'', abc_work ''v'', abc_work ''x'']" by (simp add: submits_def)
  have st: "fold sched_step ?evs ({}, []) = ({''v'', ''x''}, [])" by (auto simp: id MaxWorker_def)
  have "\<exists>e. engine_sched_run sample_engine_env ?evs abc_engine = Ret e \<and>
    (gkeys (en_workers e), pending (en_requestQueue e)) = fold sched_step ?evs ({}, []) \<and>
    (pending (en_requestQueue e) \<noteq> [] \<longrightarrow> GetActiveWorkerCount e = MaxWorker)"
  proof (rule engine_refines_scheduler [where c = 80])
    show "growth (ee_grow sample_engine_env)" by (simp add: sample_engine_env_def go_growth.growth_axioms)
    show "\<forall>r \<in> set (submits ?evs). can_start sample_engine_env r \<and> GetPriority r = 80 \<and> parties_known abc_engine r"
      unfolding sub using abc_work_ready by simp
    show "distinct (map wr_WorkId (submits ?evs))" unfolding sub by (simp add: id)
    show "en_workers abc_engine = []" "en_requestQueue abc_engine = NewRequestQueue" "\<not> en_writer abc_engine"
      by (simp_all add: abc_engine_def AddNodes_def NewEngine_def)
  qed
  then show ?thesis unfolding st by auto
qed

subsection \<open>Overlapping calls\<close>

text \<open>
  \<open>AddRequest\<close> and the callbacks run in goroutines of their own; only the critical sections are
  atomic. A state holds the engine, the number of calls of \<open>startNextWork\<close> that have not begun yet, and
  the requests that were taken out of the queue but whose workers are not registered yet.
\<close>

record ('w, 'd) esys =
  es_engine :: "('w, 'd) Engine"
  es_calls :: nat
  es_taken :: "WorkRequest list"

inductive overlap :: "('w, 'a) engine_env \<Rightarrow> ('w, 'd) esys \<Rightarrow> ('w, 'd) esys \<Rightarrow> bool" for env where
  Submitted: "AddWork (ee_grow env) (en_requestQueue (es_engine s)) r = (q, True) \<Longrightarrow>
    overlap env s (s\<lparr>es_engine := (es_engine s)\<lparr>en_requestQueue := q\<rparr>, es_calls := es_calls s + 1\<rparr>)"
| Removed: "overlap env s (s\<lparr>es_engine := (es_engine s)\<lparr>en_workers := gdel i (en_workers (es_engine s))\<rparr>,
    es_calls := es_calls s + 1\<rparr>)"
| Took: "es_calls s = Suc n \<Longrightarrow> take_next (es_engine s) = (Some r, e') \<Longrightarrow>
    overlap env s (s\<lparr>es_engine := e', es_calls := n, es_taken := es_taken s @ [r]\<rparr>)"
| TookNothing: "es_calls s = Suc n \<Longrightarrow> take_next (es_engine s) = (None, e') \<Longrightarrow>
    overlap env s (s\<lparr>es_engine := e', es_calls := n\<rparr>)"
| Started: "es_taken s = pre @ r # post \<Longrightarrow> startWork env r (es_engine s) = Ret (acts, e') \<Longrightarrow>
    overlap env s (s\<lparr>es_engine := e', es_taken := pre @ post\<rparr>)"

inductive_cases overlap_elim: "overlap env s s'"

abbreviation overlaps :: "('w, 'a) engine_env \<Rightarrow> ('w, 'd) esys \<Rightarrow> ('w, 'd) esys \<Rightarrow> bool" where
  "overlaps env \<equiv> (overlap env)\<^sup>*\<^sup>*"

definition idle :: "('w, 'd) Engine \<Rightarrow> ('w, 'd) esys" where
  "idle e = \<lparr>es_engine = e, es_calls = 0, es_taken = []\<rparr>"

lemma overlap_submits:
  assumes "growth (ee_grow env)" and "rq_ok (en_requestQueue (es_engine s))"
    and "\<forall>r \<in> set (pending (en_requestQueue (es_engine s)) @ rs). GetPriority r = c"
    and "distinct (map wr_WorkId (pending (en_requestQueue (es_engine s)) @ rs))"
  shows "\<exists>q. overlaps env s (s\<lparr>es_engine := (es_engine s)\<lparr>en_requestQueue := q\<rparr>, es_calls := es_calls s + length rs\<rparr>) \<and>
    rq_ok q \<and> pending q = pending (en_requestQueue (es_engine s)) @ rs"
  using assms(2-4)
proof (induction rs arbitrary: s)
  case Nil
  then show ?case by (intro exI [of _ "en_requestQueue (es_engine s)"]) simp
next
  case (Cons r rs)
  let ?q0 = "en_requestQueue (es_engine s)"
  define q where "q = fst (AddWork (ee_grow env) ?q0 r)"
  have q: "AddWork (ee_grow env) ?q0 r = (q, True)" "rq_ok q" "pending q = pending ?q0 @ [r]"
    using growth.AddWork_pending [OF assms(1) Cons.prems(1), of r] add_pending_last [of "pending ?q0" r] Cons.prems(2,3)
    by (auto simp: q_def prod_eq_iff)
  let ?s = "s\<lparr>es_engine := (es_engine s)\<lparr>en_requestQueue := q\<rparr>, es_calls := es_calls s + 1\<rparr>"
  obtain q' where q': "overlaps env ?s (?s\<lparr>es_engine := (es_engine ?s)\<lparr>en_requestQueue := q'\<rparr>, es_calls := es_calls ?s + length rs\<rparr>)"
    "rq_ok q'" "pending q' = pending q @ rs"
    using Cons.IH [of ?s] q(2,3) Cons.prems(2,3) by auto
  have "overlaps env s (?s\<lparr>es_engine := (es_engine ?s)\<lparr>en_requestQueue := q'\<rparr>, es_calls := es_calls ?s + length rs\<rparr>)"
    using overlap.Submitted [OF q(1)] q'(1) by (rule converse_rtranclp_into_rtranclp)
  then show ?case using q' q(3) by (intro exI [of _ q']) simp
qed

lemma overlap_takes:
  assumes "length (en_workers (es_engine s)) < MaxWorker" and "rq_ok (en_requestQueue (es_engine s))"
    and "pending (en_requestQueue (es_engine s)) = rs" and "es_calls s = length rs"
  shows "\<exists>q. overlaps env s (s\<lparr>es_engine := (es_engine s)\<lparr>en_requestQueue := q\<rparr>, es_calls := 0, es_taken := es_taken s @ rs\<rparr>)"
  using assms
proof (induction rs arbitrary: s)
  case Nil
  then have "s\<lparr>es_calls := 0\<rparr> = s" by (cases s) simp
  then show ?case by (intro exI [of _ "en_requestQueue (es_engine s)"]) simp
next
  case (Cons r rs)
  let ?q = "fst (Pop (en_requestQueue (es_engine s)))"
  note pop = Pop_cases [OF Cons.prems(2)]
  have next_work: "take_next (es_engine s) = (Some r, (es_engine s)\<lparr>en_requestQueue := ?q\<rparr>)"
    using Cons.prems(1,3) pop(3) by (simp add: take_next_def split_beta)
  let ?s = "s\<lparr>es_engine := (es_engine s)\<lparr>en_requestQueue := ?q\<rparr>, es_calls := length rs, es_taken := es_taken s @ [r]\<rparr>"
  have "overlap env s ?s" using Cons.prems(4) next_work by (intro overlap.Took) simp_all
  moreover obtain q' where "overlaps env ?s
      (?s\<lparr>es_engine := (es_engine ?s)\<lparr>en_requestQueue := q'\<rparr>, es_calls := 0, es_taken := es_taken ?s @ rs\<rparr>)"
    using Cons.IH [of ?s] Cons.prems pop(1,2) by auto
  ultimately have "overlaps env s
      (?s\<lparr>es_engine := (es_engine ?s)\<lparr>en_requestQueue := q'\<rparr>, es_calls := 0, es_taken := es_taken ?s @ rs\<rparr>)"
    by (rule converse_rtranclp_into_rtranclp)
  then show ?case by (intro exI [of _ q']) simp
qed

lemma overlap_starts:
  assumes "\<forall>r \<in> set rs. can_start env r" and "es_taken s = rs" and "gmap_ok (en_workers (es_engine s))"
  shows "\<exists>s'. overlaps env s s' \<and> gmap_ok (en_workers (es_engine s')) \<and>
    gkeys (en_workers (es_engine s')) = gkeys (en_workers (es_engine s)) \<union> wr_WorkId ` set rs"
  using assms
proof (induction rs arbitrary: s)
  case (Cons r rs)
  obtain acts e' where st: "startWork env r (es_engine s) = Ret (acts, e')"
    using startWork_total [of env r "es_engine s"] Cons.prems(1) by (metis list.set_intros(1))
  let ?s = "s\<lparr>es_engine := e', es_taken := rs\<rparr>"
  have "overlap env s ?s" using overlap.Started [of s "[]" r rs env acts e'] Cons.prems(2) st by simp
  moreover obtain s' where "overlaps env ?s s'" "gmap_ok (en_workers (es_engine s'))"
    "gkeys (en_workers (es_engine s')) = gkeys (en_workers e') \<union> wr_WorkId ` set rs"
    using Cons.IH [of ?s] Cons.prems startWork_state(3) [OF st] by auto
  ultimately show ?case
    using startWork_state(1) [OF st]
    by (intro exI [of _ s']) (auto intro: converse_rtranclp_into_rtranclp)
qed auto

text \<open>
  The limit on the workers is not enforced: when any number of requests of one priority class
  arrive at an idle engine at the same time, there is an execution in which all of them get a worker,
  because the number of workers is checked before, not when, a worker is registered.
\<close>

theorem worker_limit_race:
  assumes "growth (ee_grow env)" and "\<forall>r \<in> set rs. can_start env r \<and> GetPriority r = c"
    and "distinct (map wr_WorkId rs)"
    and "en_workers e0 = []" and "en_requestQueue e0 = NewRequestQueue"
  shows "\<exists>s. overlaps env (idle e0) s \<and> GetActiveWorkerCount (es_engine s) = length rs"
proof -
  obtain q where q: "overlaps env (idle e0)
      ((idle e0)\<lparr>es_engine := e0\<lparr>en_requestQueue := q\<rparr>, es_calls := length rs\<rparr>)" "rq_ok q" "pending q = rs"
    using overlap_submits [OF assms(1), of "idle e0" rs c] assms(2,3,5) by (auto simp: idle_def)
  let ?s = "(idle e0)\<lparr>es_engine := e0\<lparr>en_requestQueue := q\<rparr>, es_calls := length rs\<rparr>"
  obtain q' where q': "overlaps env ?s (?s\<lparr>es_engine := (es_engine ?s)\<lparr>en_requestQueue := q'\<rparr>, es_calls := 0, es_taken := es_taken ?s @ rs\<rparr>)"
    using overlap_takes [of ?s rs env] q(2,3) assms(4) by (auto simp: idle_def MaxWorker_def)
  let ?t = "?s\<lparr>es_engine := (es_engine ?s)\<lparr>en_requestQueue := q'\<rparr>, es_calls := 0, es_taken := es_taken ?s @ rs\<rparr>"
  obtain s where s: "overlaps env ?t s" "gmap_ok (en_workers (es_engine s))"
    "gkeys (en_workers (es_engine s)) = wr_WorkId ` set rs"
    using overlap_starts [of rs env ?t] assms(2,4) by (auto simp: idle_def)
  have "GetActiveWorkerCount (es_engine s) = card (set (map wr_WorkId rs))"
    using s(2,3) by (simp add: GetActiveWorkerCount_def length_gmap)
  also have "\<dots> = length rs" using distinct_card [OF assms(3)] by simp
  finally show ?thesis using q(1) q' s(1) by (meson rtranclp_trans)
qed

theorem worker_limit_race_witness:
  "\<exists>s. overlaps sample_engine_env (idle abc_engine) s \<and> MaxWorker < GetActiveWorkerCount (es_engine s)"
proof -
  let ?rs = "[abc_work ''u'', abc_work ''v'', abc_work ''x'']"
  have id: "wr_WorkId (abc_work i) = i" for i by (simp add: abc_work_def NewEcSigningRequest_def baseRequest_def)
  have "\<exists>s. overlaps sample_engine_env (idle abc_engine) s \<and> GetActiveWorkerCount (es_engine s) = length ?rs"
  proof (rule worker_limit_race)
    show "growth (ee_grow sample_engine_env)" by (simp add: sample_engine_env_def go_growth.growth_axioms)
    show "\<forall>r \<in> set ?rs. can_start sample_engine_env r \<and> GetPriority r = 80" using abc_work_ready by simp
    show "distinct (map wr_WorkId ?rs)" by (simp add: id)
  qed (simp_all add: abc_engine_def AddNodes_def NewEngine_def)
  then show ?thesis by (auto simp: MaxWorker_def)
qed

end
