(* ===== verification/Engine_Messages.thy ===== *)
theory Engine_Messages
  imports Engine_Scheduling
begin

section \<open>How the engine handles messages\<close>

text \<open>
  What the engine owes the protocol: messages that arrive before a worker starts reach it, requests
  for missing messages are answered from the cache, signatures are reported in their wire format and
  work ids are unambiguous. And what one message to an unknown party does to the lock on the nodes.
\<close>

subsection \<open>Messages that arrive before the worker\<close>

fun deliver_to_engine ::
  "('w, 'a) engine_env \<Rightarrow> TssMessage list \<Rightarrow> ('w, 'd) Engine \<Rightarrow> ('w, 'd) Engine go" where
  "deliver_to_engine env [] e = Ret e"
| "deliver_to_engine env (m # ms) e =
     go_bind (engine_ProcessNewMessage env (Some m) e) (\<lambda>p. deliver_to_engine env ms (state_of p))"

lemma deliver_cached:
  assumes "\<forall>m \<in> set ms. tm_Type m \<noteq> ASK_MESSAGE_REQUEST" and "en_workers e = []"
  shows "deliver_to_engine env ms e = Ret (e\<lparr>en_preworkCache := fold (AddMessage (ee_grow env)) ms (en_preworkCache e)\<rparr>)"
  using assms by (induction ms arbitrary: e) (simp_all add: engine_ProcessNewMessage_def)

text \<open>
  C15. Early messages are not lost: the first worker of a new engine is started with, for every
  sender and in order of arrival, the messages of its work among the last 64 messages of any work
  that sender has sent before the start.
\<close>

theorem early_messages_reach_worker:
  fixes env :: "('w, 'a) engine_env" and d :: 'd
  assumes "growth (ee_grow env)" and "\<And>c. ranges (mc_cache c) (ee_popOrder env c)"
    and "\<forall>m \<in> set ms. tm_Type m \<noteq> ASK_MESSAGE_REQUEST" and "Validate r = None"
  shows "\<exists>e msgs w. deliver_to_engine env ms (NewEngine node d) = Ret e \<and>
    (\<forall>k. filter (\<lambda>m. tm_From m = k) msgs = filter (\<lambda>m. tm_WorkId m = wr_WorkId r) (last_n 64 (msgs_from k ms))) \<and>
    (\<forall>err acts w'. wk_Start (ee_worker env) msgs w = Ret (err, acts, w') \<longrightarrow>
      (\<exists>e'. startWork env r e = Ret (map (FromWorker (wr_WorkId r)) acts, e') \<and>
            gget (en_workers e') (wr_WorkId r) = Some w'))"
proof -
  let ?e = "(NewEngine node d :: ('w, 'd) Engine)\<lparr>en_preworkCache := add_messages (ee_grow env) ms\<rparr>"
  let ?c = "add_messages (ee_grow env) ms" and ?ops = "ee_worker env"
  let ?my = "NewPartyID (ee_lib env) (p_Id (nd_PartyId node)) (p_Moniker (nd_PartyId node)) (p_Key (nd_PartyId node))"
  let ?w = "if IsKeygen r then wk_NewKeygenWorker ?ops r ?my (ee_cfg env)
            else wk_NewSigningWorker ?ops r ?my (ee_cfg env) MaxBatchSize"
  obtain cache msgs where pop: "PopAllMessages (ee_grow env) (ee_popOrder env ?c) (wr_WorkId r) None ?c = (cache, msgs)"
    by (cases "PopAllMessages (ee_grow env) (ee_popOrder env ?c) (wr_WorkId r) None ?c")
  have e: "deliver_to_engine env ms (NewEngine node d) = Ret ?e"
    using deliver_cached [OF assms(3), of "NewEngine node d" env] by (simp add: NewEngine_def add_messages_def)
  have msgs: "filter (\<lambda>m. tm_From m = k) msgs = filter (\<lambda>m. tm_WorkId m = wr_WorkId r) (last_n 64 (msgs_from k ms))" for k
    using delivers_last_64 [OF assms(1,2) pop, of k] by (simp add: selects_def [abs_def])
  have kind: "IsKeygen r \<or> IsSigning r" using assms(4) by (simp add: Validate_None_iff del: Validate.simps)
  have "\<exists>e'. startWork env r ?e = Ret (map (FromWorker (wr_WorkId r)) acts, e') \<and>
      gget (en_workers e') (wr_WorkId r) = Some w'"
    if "wk_Start ?ops msgs ?w = Ret (err, acts, w')" for err acts w'
    using that kind pop
    by (cases "wr_WorkType r") (simp_all add: startWork_def Let_def IsKeygen_def IsSigning_def go_simps NewEngine_def)
  with e msgs show ?thesis by blast
qed

theorem early_messages_reach_worker_witness:
  "\<exists>e msgs w. deliver_to_engine sample_engine_env [one_part ''b'', one_part ''c''] (NewEngine (abc_nodes ! 0) (0 :: nat)) = Ret e \<and>
    filter (\<lambda>m. tm_From m = ''b'') msgs = [one_part ''b''] \<and>
    (\<forall>err acts w'. wk_Start (ee_worker sample_engine_env) msgs w = Ret (err, acts, w') \<longrightarrow>
      (\<exists>e'. startWork sample_engine_env abc_keygen e = Ret (map (FromWorker (wr_WorkId abc_keygen)) acts, e') \<and>
            gget (en_workers e') (wr_WorkId abc_keygen) = Some w'))"
proof -
  have id: "wr_WorkId abc_keygen = ''w''" by (simp add: abc_keygen_def NewEcKeygenRequest_def baseRequest_def)
  have "\<exists>e msgs w. deliver_to_engine sample_engine_env [one_part ''b'', one_part ''c''] (NewEngine (abc_nodes ! 0) (0 :: nat)) = Ret e \<and>
    (\<forall>k. filter (\<lambda>m. tm_From m = k) msgs =
      filter (\<lambda>m. tm_WorkId m = wr_WorkId abc_keygen) (last_n 64 (msgs_from k [one_part ''b'', one_part ''c'']))) \<and>
    (\<forall>err acts w'. wk_Start (ee_worker sample_engine_env) msgs w = Ret (err, acts, w') \<longrightarrow>
      (\<exists>e'. startWork sample_engine_env abc_keygen e = Ret (map (FromWorker (wr_WorkId abc_keygen)) acts, e') \<and>
            gget (en_workers e') (wr_WorkId abc_keygen) = Some w'))"
    by (rule early_messages_reach_worker)
      (simp_all add: sample_engine_env_def go_growth.growth_axioms one_part_def baseMessage_def abc_keygen_def
        NewEcKeygenRequest_def baseRequest_def)
  moreover have "filter (\<lambda>m. tm_WorkId m = wr_WorkId abc_keygen) (last_n 64 (msgs_from ''b'' [one_part ''b'', one_part ''c'']))
      = [one_part ''b'']"
    by (simp add: id one_part_def baseMessage_def msgs_from_def last_n_def)
  ultimately show ?thesis by metis
qed

subsection \<open>The lock on the nodes\<close>

lemma peer_ids_unknown:
  assumes "\<not> en_writer e" and "\<exists>p \<in> set ps. p_Id p \<noteq> p_Id (en_myPid e) \<and> gget (en_nodes e) (p_Id p) = None"
  shows "peer_ids (map Some ps) e = Ret (Done e (Inl ()))"
  using assms(2)
proof (induction ps)
  case (Cons p ps)
  show ?case
  proof (cases "p_Id p \<noteq> p_Id (en_myPid e) \<and> gget (en_nodes e) (p_Id p) = None")
    case True
    then show ?thesis using assms(1) by (simp add: go_simps then_do_def getNodeFromPeerId_def)
  next
    case False
    with Cons have "peer_ids (map Some ps) e = Ret (Done e (Inl ()))" by auto
    then show ?thesis
      using False assms(1) by (auto simp: go_simps then_do_def getNodeFromPeerId_def split: option.split)
  qed
qed simp

text \<open>
  C40. One message to an unknown party can freeze the engine. Sending it returns with the read lock
  held; the next \<open>AddNodes\<close> waits for ever, and from then on no request that names a party is accepted
  and no network message is handled.
\<close>

theorem unknown_party_freezes_engine:
  assumes "ee_MarshalSigned env msg = Inr bz" and "\<not> en_writer e"
    and "\<exists>p \<in> set ps. p_Id p \<noteq> p_Id (en_myPid e) \<and> gget (en_nodes e) (p_Id p) = None"
  shows "\<exists>e1 e2. sendSignMessaged env msg (map Some ps) e = Ret (Done e1 []) \<and> AddNodes env nodes e1 = Stuck e2 \<and>
    (\<forall>nodes'. AddNodes env nodes' e2 = Stuck e2) \<and>
    (\<forall>peer data. OnNetworkMessage env peer data e2 = Ret (Stuck e2)) \<and>
    (\<forall>r. Validate r = None \<longrightarrow> wr_AllParties r \<noteq> [] \<longrightarrow> AddRequest env r e2 = Ret (Stuck e2))"
proof (intro exI conjI allI impI)
  let ?e1 = "e\<lparr>en_leaked := en_leaked e + 1\<rparr>"
  let ?e2 = "?e1\<lparr>en_writer := True\<rparr>"
  show "sendSignMessaged env msg (map Some ps) e = Ret (Done ?e1 [])"
    using assms peer_ids_unknown [of e ps] by (simp add: sendSignMessaged_def then_do_def)
  show "AddNodes env nodes ?e1 = Stuck ?e2" and "\<And>nodes'. AddNodes env nodes' ?e2 = Stuck ?e2"
    by (simp_all add: AddNodes_def)
  show "OnNetworkMessage env peer data ?e2 = Ret (Stuck ?e2)" for peer data
    by (simp add: OnNetworkMessage_def then_do_def getNodeFromPeerId_def)
  show "AddRequest env r ?e2 = Ret (Stuck ?e2)" if "Validate r = None" "wr_AllParties r \<noteq> []" for r
    using that by (cases "wr_AllParties r") (simp_all add: AddRequest_def then_do_def getNodeFromPeerId_def del: Validate.simps)
qed

theorem unknown_party_freezes_engine_witness:
  "\<exists>e1 e2. sendSignMessaged sample_engine_env (sample_signed ''a'') [Some (abc ! 1)] (NewEngine (abc_nodes ! 0) 0) = Ret (Done e1 []) \<and>
    AddNodes sample_engine_env abc_nodes (e1 :: ((nat AvailablePresigns, unit) DefaultWorker, nat) Engine) = Stuck e2 \<and>
    OnNetworkMessage sample_engine_env ''b'' [] e2 = Ret (Stuck e2)"
  using unknown_party_freezes_engine [of sample_engine_env "sample_signed ''a''" "[]"
      "NewEngine (abc_nodes ! 0) 0 :: ((nat AvailablePresigns, unit) DefaultWorker, nat) Engine" "[abc ! 1]" abc_nodes]
  by (fastforce simp: sample_engine_env_def sample_signed_def NewEngine_def abc_nodes_def abc_def)

subsection \<open>Requests for missing messages\<close>

text \<open>\<open>nodes_keyed\<close>: every node is filed under its party id, as \<open>NewNode\<close> and \<open>AddNodes\<close> do.\<close>

definition nodes_keyed :: "('w, 'd) Engine \<Rightarrow> bool" where
  "nodes_keyed e \<longleftrightarrow> gmap_ok (en_nodes e) \<and> (\<forall>(k, node) \<in> set (en_nodes e). k = p_Id (nd_PartyId node))"

lemma party_of_node_found:
  assumes "nodes_keyed e" and "gget (en_nodes e) asker = Some node" and "ranges (en_nodes e) it"
  shows "party_of_node asker it = Some (nd_PartyId node)"
proof -
  have ok: "gmap_ok (en_nodes e)" and keyed: "\<forall>(k, n) \<in> set (en_nodes e). k = p_Id (nd_PartyId n)"
    using assms(1) by (auto simp: nodes_keyed_def)
  have only: "n = node" if "(k, n) \<in> set it" "p_Id (nd_PartyId n) = asker" for k n
    using that keyed ranges_set [OF assms(3)] assms(2) gget_Some_iff [OF ok, of k n] by fastforce
  have "fold (\<lambda>(_, n) dest. if p_Id (nd_PartyId n) = asker then Some (nd_PartyId n) else dest) xs acc =
      (if \<exists>(k, n) \<in> set xs. p_Id (nd_PartyId n) = asker then Some (nd_PartyId node) else acc)"
    if "set xs \<subseteq> set it" for xs acc
    using that
  proof (induction xs arbitrary: acc)
    case (Cons x xs)
    obtain k n where x: "x = (k, n)" by (cases x)
    show ?case
    proof (cases "p_Id (nd_PartyId n) = asker")
      case True
      then have "n = node" using only [of k n] Cons.prems by (simp add: x)
      then show ?thesis using Cons True by (simp add: x)
    next
      case False
      then show ?thesis using Cons by (simp add: x)
    qed
  qed simp
  moreover have "(asker, node) \<in> set it" using gget_in_set [OF assms(2)] ranges_set [OF assms(3)] by simp
  then have "\<exists>(k, n) \<in> set it. p_Id (nd_PartyId n) = asker"
    using keyed ranges_set [OF assms(3)] by fastforce
  ultimately show ?thesis by (simp add: party_of_node_def)
qed

lemma cached_message_found:
  assumes "wc_add_all kms (NewWorkMessageCache 64 me) = Ret c" and "length kms < 2 ^ 63"
    and "distinct (map fst (sent_by s kms))"
    and "(key, m) \<in> set (last_n (nat (cache_size 64 me s)) (sent_by s kms))"
  shows "WorkMessageCache_Get s key c = Some m"
proof -
  let ?w = "last_n (nat (cache_size 64 me s)) (sent_by s kms)"
  have "\<exists>c'. wc_add_all kms (NewWorkMessageCache 64 me) = Ret c' \<and> WorkMessageCache_Get s key c' = map_of ?w key"
    using cache_contents [of 64 kms me] assms(2,3) by (auto simp: Let_def)
  then have "WorkMessageCache_Get s key c = map_of ?w key" using assms(1) by simp
  moreover have "distinct (map fst ?w)"
    using assms(3) by (simp add: last_n_def drop_map [symmetric])
  ultimately show ?thesis using assms(4) by simp
qed

text \<open>
  A request for a missing message is answered with that message: if the engine has cached it,
  among the last 64 of its sender (320 of its own), and it was broadcast or addressed to the asking
  node, the reply to \<open>asker\<close> is one write of the stored bytes to that node, whatever else the cache
  holds and in whatever order the nodes are visited.
\<close>

lemma ask_reply:
  assumes cache: "wc_add_all kms (NewWorkMessageCache 64 me) = Ret (en_workCache e)" "length kms < 2 ^ 63"
    and sent: "distinct (map fst (sent_by s kms))"
      "(key, signedMsg) \<in> set (last_n (nat (cache_size 64 me s)) (sent_by s kms))"
    and key: "key = GetMessageKey work s to ty" "\<forall>x \<in> {work, s, to, ty}. separable ''__'' x"
    and msg: "sm_TssMessage signedMsg = Some m" "IsBroadcast m \<or> tm_To m = asker" "ee_MarshalSigned env signedMsg = Inr bz"
    and asker: "nodes_keyed e" "gget (en_nodes e) asker = Some node" "asker \<noteq> p_Id (en_myPid e)" "\<not> en_writer e"
    and order: "ranges (en_nodes e) (ee_nodeOrder env (en_nodes e))"
  shows "engine_ProcessNewMessage env (Some (NewRequestMessage asker dest work key)) e =
    Ret (Done e (None, [WriteToStream (nd_PeerId node) bz]))"
proof -
  have keys: "ExtractMessageKey key = Inr [work, s, to, ty]"
    unfolding key(1) using key(2) by (intro extract_key) auto
  have found: "WorkMessageCache_Get s key (en_workCache e) = Some signedMsg"
    using cached_message_found [OF cache sent] .
  have p: "party_of_node asker (ee_nodeOrder env (en_nodes e)) = Some (nd_PartyId node)"
    using party_of_node_found [OF asker(1,2) order] .
  have id: "p_Id (nd_PartyId node) = asker"
    using gget_in_set [OF asker(2)] asker(1) by (auto simp: nodes_keyed_def)
  have "sendSignMessaged env signedMsg [Some (nd_PartyId node)] e = Ret (Done e [WriteToStream (nd_PeerId node) bz])"
    using asker(2-4) id msg(3) by (simp add: sendSignMessaged_def then_do_def go_simps getNodeFromPeerId_def)
  then show ?thesis
    using keys found p msg(1,2)
    by (simp add: engine_ProcessNewMessage_def OnAskMessage_def NewRequestMessage_def baseMessage_def go_simps
      then_do_def)
qed

lemma abc_engine_nodes: "en_nodes abc_engine = zip [''a'', ''b'', ''c''] abc_nodes" "en_myPid abc_engine = abc ! 0"
  "en_writer abc_engine = False"
  by code_simp+

subsection \<open>Signatures on the wire\<close>

lemma ec_signatures_nth:
  assumes "ec_signatures sl data = Ret sigs" and "i < length data"
  shows "length sigs = length data \<and> (\<exists>g v. data ! i = Some g \<and> sg_SignatureRecovery sl g \<noteq> [] \<and> v = hd (sg_SignatureRecovery sl g) \<and>
    sigs ! i = PadToLengthBytesForSignature (sg_R sl g) (sl_BitSize sl div 8) @
      PadToLengthBytesForSignature (sg_S sl g) (sl_BitSize sl div 8) @ [v])"
  using assms
proof (induction data arbitrary: sigs i)
  case (Cons d data)
  from Cons.prems(1) obtain g v rest where d: "d = Some g" "go_index (sg_SignatureRecovery sl g) 0 = Ret v"
    "ec_signatures sl data = Ret rest"
    "sigs = (PadToLengthBytesForSignature (sg_R sl g) (sl_BitSize sl div 8) @
      PadToLengthBytesForSignature (sg_S sl g) (sl_BitSize sl div 8) @ [v]) # rest"
    by (auto simp: ret_iffs Let_def)
  have len: "length rest = length data"
  proof (cases data)
    case (Cons x xs)
    then show ?thesis using Cons.IH [OF d(3), of 0] by simp
  qed (use d(3) in simp)
  show ?case
  proof (cases i)
    case 0
    then show ?thesis using d len by (auto simp: go_index_def hd_conv_nth split: if_split_asm)
  next
    case (Suc j)
    then show ?thesis using Cons.IH [OF d(3), of j] Cons.prems(2) d(4) by simp
  qed
qed simp

text \<open>
  C36. An ECDSA signature is reported as 65 bytes from which its parts can be read back: on a curve
  with 256 bits and for \<open>R\<close> and \<open>S\<close> of at most 32 bytes, the callback gets one signature per message, in
  order, made of \<open>R\<close> and \<open>S\<close> as 32-byte big-endian numbers and the recovery byte.
\<close>

theorem ec_signature_layout:
  assumes "onEcSigningFinished sl request data e = Ret acts" and "sl_BitSize sl = 256"
    and "\<forall>g. length (sg_R sl g) \<le> 32 \<and> length (sg_S sl g) \<le> 32"
  shows "\<exists>result. acts = [CbSigningFinished request result] \<and> ks_Outcome result = OutcomeSuccess \<and>
    (data \<noteq> [] \<longrightarrow> length (ks_Signatures result) = length data) \<and>
    (\<forall>i < length data. \<exists>g. data ! i = Some g \<and>
      (let sig = ks_Signatures result ! i in
       length sig = 65 \<and> SetBytes (take 32 sig) = SetBytes (sg_R sl g) \<and>
       SetBytes (take 32 (drop 32 sig)) = SetBytes (sg_S sl g) \<and> sig ! 64 = hd (sg_SignatureRecovery sl g)))"
proof -
  obtain sigs where sigs: "ec_signatures sl data = Ret sigs"
    and acts: "acts = [CbSigningFinished request (zero_KeysignResult\<lparr>ks_Outcome := OutcomeSuccess, ks_Signatures := sigs\<rparr>)]"
    using assms(1) by (auto simp: onEcSigningFinished_def ret_iffs)
  have parts: "length sig = 65 \<and> SetBytes (take 32 sig) = SetBytes r \<and> SetBytes (take 32 (drop 32 sig)) = SetBytes s \<and> sig ! 64 = v"
    if "sig = PadToLengthBytesForSignature r 32 @ PadToLengthBytesForSignature s 32 @ [v]" "length r \<le> 32" "length s \<le> 32"
    for sig r s v
  proof -
    have "length (PadToLengthBytesForSignature r 32) = 32" "length (PadToLengthBytesForSignature s 32) = 32"
      using that(2,3) by (simp_all add: Pad_length)
    then show ?thesis unfolding that(1) by (simp add: Pad_value nth_append)
  qed
  have "\<exists>g. data ! i = Some g \<and> (let sig = sigs ! i in
       length sig = 65 \<and> SetBytes (take 32 sig) = SetBytes (sg_R sl g) \<and>
       SetBytes (take 32 (drop 32 sig)) = SetBytes (sg_S sl g) \<and> sig ! 64 = hd (sg_SignatureRecovery sl g))"
    if i: "i < length data" for i
  proof -
    obtain g where g: "data ! i = Some g" "sigs ! i = PadToLengthBytesForSignature (sg_R sl g) 32 @
        PadToLengthBytesForSignature (sg_S sl g) 32 @ [hd (sg_SignatureRecovery sl g)]"
      using ec_signatures_nth [OF sigs i] assms(2) by auto
    from parts [OF g(2)] assms(3) g(1) show ?thesis by (simp add: Let_def)
  qed
  moreover have "length sigs = length data" if "data \<noteq> []" using ec_signatures_nth [OF sigs, of 0] that by simp
  ultimately show ?thesis unfolding acts by (simp add: zero_KeysignResult_def)
qed

definition long_id_engine :: "(unit, nat) Engine" where
  "long_id_engine = NewEngine ((abc_nodes ! 0)\<lparr>nd_PartyId := (abc ! 0)\<lparr>p_Id := ''node-a''\<rparr>\<rparr>) 0"

theorem ec_signature_layout_witness:
  "\<exists>acts :: unit engine_action list. onEcSigningFinished ref_sig abc_signing [Some 9] long_id_engine = Ret acts \<and>
    (\<exists>result. acts = [CbSigningFinished abc_signing result] \<and> length (ks_Signatures result ! 0) = 65)"
proof -
  have "\<exists>acts :: unit engine_action list. onEcSigningFinished ref_sig abc_signing [Some 9] long_id_engine = Ret acts"
    by (simp add: onEcSigningFinished_def short_id_def long_id_engine_def NewEngine_def ref_sig_def go_simps Let_def)
  then obtain acts :: "unit engine_action list" where acts: "onEcSigningFinished ref_sig abc_signing [Some 9] long_id_engine = Ret acts"
    by blast
  then show ?thesis using ec_signature_layout [OF acts] by (auto simp: ref_sig_def Let_def)
qed

subsection \<open>Work ids of signing requests\<close>

lemma dec_of_nat_char: "c \<in> set (dec_of_nat n) \<Longrightarrow> 48 \<le> (of_char c :: nat) \<and> of_char c \<le> (57 :: nat)"
  using dec_of_nat_notin [of c n] by force

lemma Fprint_body:
  obtains body where "Fprint_bytes tx = CHR ''['' # body @ [CHR '']'']" and "CHR '']'' \<notin> set body"
    and "body = str_Join (map (\<lambda>b. dec_of_nat (unat b)) tx) '' ''"
proof -
  have "c \<in> set (str_Join xs '' '') \<Longrightarrow> c = CHR '' '' \<or> (\<exists>x \<in> set xs. c \<in> set x)" for c xs
    by (induction xs "'' ''" rule: str_Join.induct) auto
  then have "CHR '']'' \<notin> set (str_Join (map (\<lambda>b. dec_of_nat (unat b)) tx) '' '')"
    using dec_of_nat_char [of "CHR '']''"] by fastforce
  with that show ?thesis by (simp add: Fprint_bytes_def)
qed

lemma bytes_text_inj:
  assumes "str_Join (map (\<lambda>b. dec_of_nat (unat b)) tx) '' '' = str_Join (map (\<lambda>b. dec_of_nat (unat b)) ty) '' ''"
  shows "tx = (ty :: bytes)"
proof -
  let ?d = "\<lambda>b :: 8 word. dec_of_nat (unat b)"
  have blank: "CHR '' '' \<notin> set (?d b)" for b using dec_of_nat_char [of "CHR '' ''" "unat b"] by auto
  have sep: "separable '' '' (?d b)" for b
    unfolding separable_def
  proof (intro allI impI notI)
    fix i assume "prefix '' '' (drop i (?d b @ butlast '' ''))"
    then have "CHR '' '' \<in> set (drop i (?d b))" by (auto simp: prefix_def)
    with blank show False using in_set_dropD by metis
  qed
  have nonempty: "str_Join (map ?d zs) '' '' = [] \<longleftrightarrow> zs = []" for zs
    by (cases zs rule: list.exhaust; cases "tl zs") (auto simp: neq_Nil_conv)
  have split: "zs \<noteq> [] \<Longrightarrow> str_Split (str_Join (map ?d zs) '' '') '' '' = map ?d zs" for zs
    by (rule str_Split_Join) (simp_all add: sep)
  have "inj ?d" by (rule injI) (metis dec_of_nat_inj unsigned_word_eqI)
  moreover have "map ?d tx = map ?d ty"
  proof (cases "tx = []")
    case True
    then have "ty = []" using assms nonempty by metis
    with True show ?thesis by simp
  next
    case False
    then have "ty \<noteq> []" using assms nonempty by metis
    with False show ?thesis using assms split by metis
  qed
  ultimately show ?thesis by (simp add: inj_map_eq_map)
qed

lemma Fprint_concat_inj:
  "concat (map Fprint_bytes txs) = concat (map Fprint_bytes tys) \<Longrightarrow> txs = tys"
proof (induction txs arbitrary: tys)
  case Nil
  then show ?case by (cases tys) (auto simp: Fprint_bytes_def)
next
  case (Cons tx txs)
  then obtain ty tys' where tys: "tys = ty # tys'" by (cases tys) (auto simp: Fprint_bytes_def)
  obtain b where b: "Fprint_bytes tx = CHR ''['' # b @ [CHR '']'']" "CHR '']'' \<notin> set b"
    "b = str_Join (map (\<lambda>b. dec_of_nat (unat b)) tx) '' ''" by (rule Fprint_body)
  obtain b' where b': "Fprint_bytes ty = CHR ''['' # b' @ [CHR '']'']" "CHR '']'' \<notin> set b'"
    "b' = str_Join (map (\<lambda>b. dec_of_nat (unat b)) ty) '' ''" by (rule Fprint_body)
  have "b @ CHR '']'' # concat (map Fprint_bytes txs) = b' @ CHR '']'' # concat (map Fprint_bytes tys')"
    using Cons.prems b(1) b'(1) by (simp add: tys)
  from first_separator [OF this b(2) b'(2)] have "b = b'" "concat (map Fprint_bytes txs) = concat (map Fprint_bytes tys')"
    by simp_all
  then show ?case using Cons.IH bytes_text_inj b(3) b'(3) by (simp add: tys)
qed

lemma block_separator:
  assumes "dec_of_int x @ CHR ''-'' # r = dec_of_int y @ CHR ''-'' # r'"
  shows "x = y \<and> r = r'"
proof -
  have minus: "CHR ''-'' \<notin> set (dec_of_nat n)" for n using dec_of_nat_char [of "CHR ''-''" n] by fastforce
  have first: "dec_of_nat n \<noteq> CHR ''-'' # s" for n s using minus [of n] by auto
  obtain c s where y: "dec_of_nat (nat y) = c # s" "c \<noteq> CHR ''-''"
    using first by (metis dec_of_nat_nonempty neq_Nil_conv)
  obtain c' s' where x: "dec_of_nat (nat x) = c' # s'" "c' \<noteq> CHR ''-''"
    using first by (metis dec_of_nat_nonempty neq_Nil_conv)
  show ?thesis
  proof (cases "x < 0")
    case True
    then have "y < 0" using assms y by (auto simp: dec_of_int_def split: if_split_asm)
    then have "dec_of_nat (nat (- x)) @ CHR ''-'' # r = dec_of_nat (nat (- y)) @ CHR ''-'' # r'"
      using assms True by (simp add: dec_of_int_def)
    from first_separator [OF this minus minus] show ?thesis
      using dec_of_nat_inj True \<open>y < 0\<close> by (metis eq_nat_nat_iff neg_0_le_iff_le neg_equal_iff_equal not_le order_less_imp_le)
  next
    case False
    then have "\<not> y < 0" using assms x by (auto simp: dec_of_int_def split: if_split_asm)
    then have "dec_of_nat (nat x) @ CHR ''-'' # r = dec_of_nat (nat y) @ CHR ''-'' # r'"
      using assms False by (simp add: dec_of_int_def)
    from first_separator [OF this minus minus] show ?thesis
      using dec_of_nat_inj False \<open>\<not> y < 0\<close> by (metis eq_nat_nat_iff not_le)
  qed
qed

text \<open>
  Different signing requests get different work ids: two ids are equal only if work type, block,
  chain and all transactions are equal, also for chain names with dashes and negative blocks, unless
  the two transaction lists collide under the digest.
\<close>

theorem GetKeysignWorkId_inj:
  assumes "GetKeysignWorkId md5Hex t txs block chain = GetKeysignWorkId md5Hex t' txs' block' chain'"
    and "WorkType_IsSigning t" and "WorkType_IsSigning t'"
    and "\<And>s. CHR ''-'' \<notin> set (md5Hex s)"
    and "md5Hex (concat (map Fprint_bytes txs)) = md5Hex (concat (map Fprint_bytes txs')) \<Longrightarrow>
      concat (map Fprint_bytes txs) = concat (map Fprint_bytes txs')"
  shows "t = t' \<and> txs = txs' \<and> block = block' \<and> chain = chain'"
proof -
  have t: "t = t'" and eq: "dec_of_int block @ CHR ''-'' # chain @ CHR ''-'' # md5Hex (concat (map Fprint_bytes txs)) =
      dec_of_int block' @ CHR ''-'' # chain' @ CHR ''-'' # md5Hex (concat (map Fprint_bytes txs'))"
    using assms(1-3) by (auto simp: GetKeysignWorkId_def WorkType_IsSigning_def)
  have "block = block'" and rest: "chain @ CHR ''-'' # md5Hex (concat (map Fprint_bytes txs)) =
      chain' @ CHR ''-'' # md5Hex (concat (map Fprint_bytes txs'))"
    using block_separator [OF eq] by simp_all
  moreover have "chain = chain'" "md5Hex (concat (map Fprint_bytes txs)) = md5Hex (concat (map Fprint_bytes txs'))"
    using last_separator [OF rest assms(4) assms(4)] by simp_all
  ultimately show ?thesis using t assms(5) Fprint_concat_inj by blast
qed

theorem GetKeysignWorkId_inj_witness:
  "GetKeysignWorkId (\<lambda>s. ''h'') EcSigning [[1, 2]] 5 ''a-b'' \<noteq> GetKeysignWorkId (\<lambda>s. ''h'') EcSigning [[1, 2]] (-5) ''a-b''"
  using GetKeysignWorkId_inj [of "\<lambda>s. ''h''" EcSigning "[[1, 2]]" 5 "''a-b''" EcSigning "[[1, 2]]" "-5" "''a-b''"]
  by (auto simp: WorkType_IsSigning_def)

end
