(* ===== verification/Encrypted_Store.thy ===== *)
theory Encrypted_Store
  imports Work_Request
begin

section \<open>Encryption and the encrypted store: utils/crypto.go, store/store.go\<close>

unbundle bit_operations_syntax

text \<open>
  Both files seal data with AES in Galois counter mode. The mode itself (package \<open>crypto/cipher\<close>) is
  defined here: a counter-mode key stream and a tag computed by multiplication in the field of
  \<open>2 ^ 128\<close> elements. Only the block function of AES is a parameter, and no theorem needs to know
  anything about it.
\<close>

subsection \<open>Galois counter mode\<close>

definition block_of :: "bytes \<Rightarrow> 128 word" where
  "block_of bs = fold (\<lambda>b acc. push_bit 8 acc OR ucast b) (take 16 (bs @ replicate 16 0)) 0"

definition bytes_of :: "128 word \<Rightarrow> bytes" where
  "bytes_of w = map (\<lambda>i. ucast (drop_bit (8 * (15 - i)) w)) [0..<16]"

text \<open>Multiplication in the field: the leading bit is the coefficient of degree 0.\<close>

definition gf_half :: "128 word \<Rightarrow> 128 word" where
  "gf_half v = (if bit v 0 then drop_bit 1 v XOR push_bit 120 0xE1 else drop_bit 1 v)"

definition gf_mul :: "128 word \<Rightarrow> 128 word \<Rightarrow> 128 word" where
  "gf_mul x y = fst (fold (\<lambda>i (z, v). (if bit x (127 - i) then z XOR v else z, gf_half v)) [0..<128] (0, y))"

fun ghash :: "128 word \<Rightarrow> 128 word \<Rightarrow> bytes \<Rightarrow> 128 word" where
  "ghash h y [] = y"
| "ghash h y (b # bs) = ghash h (gf_mul (y XOR block_of (b # bs)) h) (drop 15 bs)"

text \<open>The counter block: the nonce, then a counter of 32 bits that wraps around.\<close>

definition counter_block :: "bytes \<Rightarrow> 32 word \<Rightarrow> 128 word" where
  "counter_block nonce c = push_bit 32 (block_of (replicate 4 0 @ nonce)) OR ucast c"

definition key_stream :: "(128 word \<Rightarrow> 128 word) \<Rightarrow> bytes \<Rightarrow> nat \<Rightarrow> bytes" where
  "key_stream aes nonce n =
     concat (map (\<lambda>i. bytes_of (aes (counter_block nonce (word_of_nat (i + 2))))) [0..<(n + 15) div 16])"

definition xor_bytes :: "bytes \<Rightarrow> bytes \<Rightarrow> bytes" where
  "xor_bytes xs ks = map2 (\<lambda>x k. x XOR k) xs ks"

definition gcm_tag :: "(128 word \<Rightarrow> 128 word) \<Rightarrow> bytes \<Rightarrow> bytes \<Rightarrow> bytes" where
  "gcm_tag aes nonce ct =
     (let h = aes 0;
          s = gf_mul (ghash h 0 ct XOR word_of_nat (8 * length ct)) h
      in bytes_of (aes (counter_block nonce 1) XOR s))"

text \<open>
  \<open>Seal\<close> and \<open>Open\<close> with no additional data and no destination prefix. A nonce of another length than 12 and
  a message of more than \<open>(2 ^ 32 - 2) * 16\<close> bytes panic.
\<close>

definition gcmNonceSize :: nat where "gcmNonceSize = 12"

definition gcmMaxLength :: int where "gcmMaxLength = (2 ^ 32 - 2) * 16"

definition gcm_Seal :: "(128 word \<Rightarrow> 128 word) \<Rightarrow> bytes \<Rightarrow> bytes \<Rightarrow> bytes go" where
  "gcm_Seal aes nonce plain =
     (if length nonce \<noteq> gcmNonceSize then Panic (Raised ''crypto/cipher: incorrect nonce length given to GCM'')
      else if gcmMaxLength < int (length plain) then Panic (Raised ''crypto/cipher: message too large for GCM'')
      else let ct = xor_bytes plain (key_stream aes nonce (length plain)) in Ret (ct @ gcm_tag aes nonce ct))"

definition gcm_Open :: "(128 word \<Rightarrow> 128 word) \<Rightarrow> bytes \<Rightarrow> bytes \<Rightarrow> bytes result go" where
  "gcm_Open aes nonce sealed =
     (if length nonce \<noteq> gcmNonceSize then Panic (Raised ''crypto/cipher: incorrect nonce length given to GCM'')
      else if length sealed < 16 \<or> gcmMaxLength + 16 < int (length sealed)
      then Ret (Inl ''cipher: message authentication failed'')
      else let ct = take (length sealed - 16) sealed in
           if drop (length sealed - 16) sealed \<noteq> gcm_tag aes nonce ct
           then Ret (Inl ''cipher: message authentication failed'')
           else Ret (Inr (xor_bytes ct (key_stream aes nonce (length ct)))))"

text \<open>\<open>aes.NewCipher\<close> accepts keys of 16, 24 and 32 bytes; \<open>cipher.NewGCM\<close> accepts every AES cipher.\<close>

definition NewCipher :: "(bytes \<Rightarrow> 128 word \<Rightarrow> 128 word) \<Rightarrow> bytes \<Rightarrow> (128 word \<Rightarrow> 128 word) result" where
  "NewCipher aes key =
     (if length key = 16 \<or> length key = 24 \<or> length key = 32 then Inr (aes key)
      else Inl (''crypto/aes: invalid key size '' @ dec_of_nat (length key)))"

subsection \<open>utils/crypto.go\<close>

text \<open>\<open>encrypted[:nonceSize]\<close> panics on a shorter input.\<close>

definition AESDecrypt :: "(bytes \<Rightarrow> 128 word \<Rightarrow> 128 word) \<Rightarrow> bytes \<Rightarrow> bytes \<Rightarrow> bytes result go" where
  "AESDecrypt aes encrypted key =
     (case NewCipher aes key of
        Inl err \<Rightarrow> Ret (Inl err)
      | Inr c \<Rightarrow>
          if length encrypted < gcmNonceSize then Panic IndexOutOfRange
          else gcm_Open c (take gcmNonceSize encrypted) (drop gcmNonceSize encrypted))"

text \<open>\<open>rnd n\<close> is the outcome of filling a slice of \<open>n\<close> bytes from the random source.\<close>

definition AESDEncrypt ::
  "(bytes \<Rightarrow> 128 word \<Rightarrow> 128 word) \<Rightarrow> (nat \<Rightarrow> bytes result) \<Rightarrow> bytes \<Rightarrow> bytes \<Rightarrow> bytes result go" where
  "AESDEncrypt aes rnd message key =
     (case NewCipher aes key of
        Inl err \<Rightarrow> Ret (Inl err)
      | Inr c \<Rightarrow>
          (case rnd gcmNonceSize of
             Inl err \<Rightarrow> Ret (Inl err)
           | Inr nonce \<Rightarrow> go_bind (gcm_Seal c nonce message) (\<lambda>sealed. Ret (Inr (nonce @ sealed)))))"

subsection \<open>store/store.go\<close>

text \<open>LevelDB is a parameter: opening a file, reading and writing a key.\<close>

record 'd leveldb =
  ldb_OpenFile :: "string \<Rightarrow> 'd result"
  ldb_Put :: "bytes \<Rightarrow> bytes \<Rightarrow> 'd \<Rightarrow> string option \<times> 'd"
  ldb_Get :: "bytes \<Rightarrow> 'd \<Rightarrow> bytes result"

record 'd DefaultStore =
  ds_db :: 'd
  ds_encryptedKey :: bytes
  ds_aesKey :: bytes

definition NewStore :: "'d leveldb \<Rightarrow> string \<Rightarrow> bytes \<Rightarrow> 'd DefaultStore result" where
  "NewStore ldb path aesKey =
     (case ldb_OpenFile ldb path of
        Inl err \<Rightarrow> Inl err
      | Inr db \<Rightarrow> Inr \<lparr>ds_db = db, ds_encryptedKey = [], ds_aesKey = aesKey\<rparr>)"

definition store_Put :: "'d leveldb \<Rightarrow> bytes \<Rightarrow> bytes \<Rightarrow> 'd DefaultStore \<Rightarrow> string option \<times> 'd DefaultStore" where
  "store_Put ldb key value s = (case ldb_Put ldb key value (ds_db s) of (err, db) \<Rightarrow> (err, s\<lparr>ds_db := db\<rparr>))"

definition store_Get :: "'d leveldb \<Rightarrow> bytes \<Rightarrow> 'd DefaultStore \<Rightarrow> bytes result" where
  "store_Get ldb key s = ldb_Get ldb key (ds_db s)"

definition PutEncrypted ::
  "'d leveldb \<Rightarrow> (bytes \<Rightarrow> 128 word \<Rightarrow> 128 word) \<Rightarrow> (nat \<Rightarrow> bytes result) \<Rightarrow> bytes \<Rightarrow> bytes \<Rightarrow> 'd DefaultStore \<Rightarrow>
   (string option \<times> 'd DefaultStore) go" where
  "PutEncrypted ldb aes rnd key value s =
     (case NewCipher aes (ds_aesKey s) of
        Inl err \<Rightarrow> Ret (Some err, s)
      | Inr c \<Rightarrow>
          (case rnd gcmNonceSize of
             Inl err \<Rightarrow> Ret (Some err, s)
           | Inr nonce \<Rightarrow> go_bind (gcm_Seal c nonce value) (\<lambda>sealed. Ret (store_Put ldb key (nonce @ sealed) s))))"

definition GetEncrypted ::
  "'d leveldb \<Rightarrow> (bytes \<Rightarrow> 128 word \<Rightarrow> 128 word) \<Rightarrow> bytes \<Rightarrow> 'd DefaultStore \<Rightarrow> bytes result go" where
  "GetEncrypted ldb aes key s =
     (case store_Get ldb key s of
        Inl err \<Rightarrow> Ret (Inl err)
      | Inr encryptedValue \<Rightarrow>
          (case NewCipher aes (ds_aesKey s) of
             Inl err \<Rightarrow> Ret (Inl err)
           | Inr c \<Rightarrow>
               if length encryptedValue < gcmNonceSize then Panic IndexOutOfRange
               else gcm_Open c (take gcmNonceSize encryptedValue) (drop gcmNonceSize encryptedValue)))"

subsection \<open>Opening is the inverse of sealing\<close>

lemma length_bytes_of [simp]: "length (bytes_of w) = 16"
  by (simp add: bytes_of_def)

lemma length_key_stream: "n \<le> length (key_stream aes nonce n)"
proof -
  have "length (key_stream aes nonce n) = 16 * ((n + 15) div 16)"
    by (simp add: key_stream_def length_concat comp_def sum_list_triv)
  then show ?thesis by simp
qed

lemma length_gcm_tag [simp]: "length (gcm_tag aes nonce ct) = 16"
  by (simp add: gcm_tag_def Let_def)

lemma length_xor_bytes [simp]: "length xs \<le> length ks \<Longrightarrow> length (xor_bytes xs ks) = length xs"
  by (simp add: xor_bytes_def)

lemma xor_bytes_twice: "length xs \<le> length ks \<Longrightarrow> xor_bytes (xor_bytes xs ks) ks = xs"
  by (rule nth_equalityI) (simp_all add: xor_bytes_def xor.assoc)

lemma gcm_Open_iff_Seal: "gcm_Open aes nonce sealed = Ret (Inr plain) \<longleftrightarrow> gcm_Seal aes nonce plain = Ret sealed"
proof
  assume opened: "gcm_Open aes nonce sealed = Ret (Inr plain)"
  define ct where "ct = take (length sealed - 16) sealed"
  have accepted: "length nonce = gcmNonceSize" "16 \<le> length sealed" "int (length sealed) \<le> gcmMaxLength + 16"
    "drop (length sealed - 16) sealed = gcm_tag aes nonce ct"
    "plain = xor_bytes ct (key_stream aes nonce (length ct))"
    using opened by (auto simp: gcm_Open_def ct_def Let_def split: if_splits)
  have size: "length plain = length ct" using accepted(5) length_key_stream by simp
  then have "xor_bytes plain (key_stream aes nonce (length plain)) = ct"
    using accepted(5) length_key_stream by (simp add: xor_bytes_twice)
  moreover have "sealed = ct @ gcm_tag aes nonce ct"
    using accepted(4) append_take_drop_id [of "length sealed - 16" sealed] by (simp add: ct_def)
  moreover have "int (length plain) \<le> gcmMaxLength"
    using accepted(2,3) size by (simp add: ct_def)
  ultimately show "gcm_Seal aes nonce plain = Ret sealed"
    using accepted(1) by (simp add: gcm_Seal_def Let_def)
next
  assume "gcm_Seal aes nonce plain = Ret sealed"
  then show "gcm_Open aes nonce sealed = Ret (Inr plain)"
    using length_key_stream [of "length plain" aes nonce]
    by (auto simp: gcm_Seal_def gcm_Open_def Let_def xor_bytes_twice split: if_splits)
qed

lemma gcm_Seal_nonce: "gcm_Seal aes nonce plain = Ret sealed \<Longrightarrow> length nonce = gcmNonceSize"
  by (simp add: gcm_Seal_def split: if_splits)

lemma decrypts_iff:
  "AESDecrypt aes encrypted key = Ret (Inr m) \<longleftrightarrow>
   (\<exists>nonce. AESDEncrypt aes (\<lambda>_. Inr nonce) m key = Ret (Inr encrypted))"
proof (cases "NewCipher aes key")
  case (Inl err)
  then show ?thesis by (simp add: AESDecrypt_def AESDEncrypt_def)
next
  case (Inr c)
  have "AESDecrypt aes encrypted key = Ret (Inr m) \<longleftrightarrow>
      gcmNonceSize \<le> length encrypted \<and>
      gcm_Seal c (take gcmNonceSize encrypted) m = Ret (drop gcmNonceSize encrypted)"
    by (auto simp: AESDecrypt_def Inr gcm_Open_iff_Seal)
  also have "\<dots> \<longleftrightarrow> (\<exists>nonce sealed. gcm_Seal c nonce m = Ret sealed \<and> encrypted = nonce @ sealed)"
  proof (intro iffI; elim exE conjE)
    assume "gcm_Seal c (take gcmNonceSize encrypted) m = Ret (drop gcmNonceSize encrypted)"
    then show "\<exists>nonce sealed. gcm_Seal c nonce m = Ret sealed \<and> encrypted = nonce @ sealed"
      by (metis append_take_drop_id)
  next
    fix nonce sealed assume "gcm_Seal c nonce m = Ret sealed" "encrypted = nonce @ sealed"
    then show "gcmNonceSize \<le> length encrypted \<and>
        gcm_Seal c (take gcmNonceSize encrypted) m = Ret (drop gcmNonceSize encrypted)"
      using gcm_Seal_nonce [of c nonce m sealed] by simp
  qed
  also have "\<dots> \<longleftrightarrow> (\<exists>nonce. AESDEncrypt aes (\<lambda>_. Inr nonce) m key = Ret (Inr encrypted))"
    by (auto simp: AESDEncrypt_def Inr ret_iffs)
  finally show ?thesis .
qed

text \<open>
  C19. What \<open>AESDecrypt\<close> accepts is exactly what \<open>AESDEncrypt\<close> can produce for the same key: it returns \<open>m\<close> for
  the given bytes if and only if some choice of the random nonce makes \<open>AESDEncrypt\<close> turn \<open>m\<close> into these
  bytes. Encryption therefore never loses a message (of at most the size the mode allows), and no
  altered ciphertext is accepted unless it is itself the encryption of the message returned. This
  holds for every block function.
\<close>

theorem AESDecrypt_exact:
  "AESDecrypt aes encrypted key = Ret (Inr m) \<longleftrightarrow>
   (\<exists>nonce. AESDEncrypt aes (\<lambda>_. Inr nonce) m key = Ret (Inr encrypted))"
  by (rule decrypts_iff)

subsection \<open>The store returns what was put\<close>

text \<open>The documented behaviour of LevelDB that is used: a successful write is read back, other keys keep their values.\<close>

definition leveldb_ok :: "'d leveldb \<Rightarrow> bool" where
  "leveldb_ok ldb \<longleftrightarrow>
     (\<forall>k v d d'. ldb_Put ldb k v d = (None, d') \<longrightarrow>
        ldb_Get ldb k d' = Inr v \<and> (\<forall>k'. k' \<noteq> k \<longrightarrow> ldb_Get ldb k' d' = ldb_Get ldb k' d))"

text \<open>
  A value that \<open>PutEncrypted\<close> stored without an error is what \<open>GetEncrypted\<close> returns for its key, and
  every other key still gives the same outcome. What the database holds is the nonce followed by the
  sealed value.
\<close>

lemma PutEncrypted_stored:
  assumes "leveldb_ok ldb" and "PutEncrypted ldb aes rnd key value s = Ret (None, s')"
  shows "GetEncrypted ldb aes key s' = Ret (Inr value) \<and>
    (\<forall>other. other \<noteq> key \<longrightarrow> GetEncrypted ldb aes other s' = GetEncrypted ldb aes other s) \<and>
    (\<exists>nonce sealed. rnd gcmNonceSize = Inr nonce \<and> store_Get ldb key s' = Inr (nonce @ sealed) \<and>
       length sealed = length value + 16)"
proof -
  obtain c nonce sealed where c: "NewCipher aes (ds_aesKey s) = Inr c" and nonce: "rnd gcmNonceSize = Inr nonce"
    and sealed: "gcm_Seal c nonce value = Ret sealed" and stored: "store_Put ldb key (nonce @ sealed) s = (None, s')"
    using assms(2) by (auto simp: PutEncrypted_def ret_iffs)
  obtain db where db: "ldb_Put ldb key (nonce @ sealed) (ds_db s) = (None, db)" "s' = s\<lparr>ds_db := db\<rparr>"
    using stored by (auto simp: store_Put_def split: prod.splits)
  have read: "store_Get ldb key s' = Inr (nonce @ sealed)"
    and others: "other \<noteq> key \<Longrightarrow> store_Get ldb other s' = store_Get ldb other s" for other
    using assms(1) db by (auto simp: leveldb_ok_def store_Get_def)
  have "GetEncrypted ldb aes key s' = Ret (Inr value)"
    using read c sealed gcm_Seal_nonce [OF sealed] db(2) by (simp add: GetEncrypted_def gcm_Open_iff_Seal)
  moreover have "length sealed = length value + 16"
    using sealed length_key_stream [of "length value" c nonce] by (auto simp: gcm_Seal_def Let_def split: if_splits)
  moreover have "GetEncrypted ldb aes other s' = GetEncrypted ldb aes other s" if "other \<noteq> key" for other
  proof -
    have "ds_aesKey s' = ds_aesKey s" using db(2) by simp
    then show ?thesis using others [OF that] by (simp only: GetEncrypted_def)
  qed
  ultimately show ?thesis
    using read nonce by blast
qed

text \<open>
  The contract of the Go interface \<open>Store\<close>, for stores \<open>'s\<close>: what a look-up returns after a write that
  succeeded. \<open>'r\<close> is the random input of one write. A client that writes many values reads back, for
  each key, the value written last.
\<close>

fun put_all ::
  "('r \<Rightarrow> bytes \<Rightarrow> bytes \<Rightarrow> 's \<Rightarrow> (string option \<times> 's) go) \<Rightarrow> ('r \<times> bytes \<times> bytes) list \<Rightarrow> 's \<Rightarrow> (string option \<times> 's) go" where
  "put_all put [] s = Ret (None, s)"
| "put_all put ((r, k, v) # ws) s =
     go_bind (put r k v s) (\<lambda>(err, s'). case err of None \<Rightarrow> put_all put ws s' | Some e \<Rightarrow> Ret (Some e, s'))"

locale secret_store =
  fixes put :: "'r \<Rightarrow> bytes \<Rightarrow> bytes \<Rightarrow> 's \<Rightarrow> (string option \<times> 's) go"
    and look :: "bytes \<Rightarrow> 's \<Rightarrow> bytes result go"
  assumes look_same: "put r k v s = Ret (None, s') \<Longrightarrow> look k s' = Ret (Inr v)"
    and look_other: "put r k v s = Ret (None, s') \<Longrightarrow> k' \<noteq> k \<Longrightarrow> look k' s' = look k' s"
begin

lemma look_after_puts:
  "put_all put ws s = Ret (None, s') \<Longrightarrow>
   look k s' = (case map_of (rev (map snd ws)) k of Some v \<Rightarrow> Ret (Inr v) | None \<Rightarrow> look k s)"
proof (induction ws arbitrary: s)
  case (Cons w ws)
  obtain r k1 v where w: "w = (r, k1, v)" by (cases w)
  then obtain s1 where s1: "put r k1 v s = Ret (None, s1)" "put_all put ws s1 = Ret (None, s')"
    using Cons.prems by (auto simp: ret_iffs split: prod.splits option.splits)
  show ?case
    using Cons.IH [OF s1(2)] look_same [OF s1(1)] look_other [OF s1(1), of k]
    by (auto simp: w map_of_append map_add_def split: option.splits)
qed simp

end

text \<open>A LevelDB gives such a store: the contract holds for \<open>PutEncrypted\<close> and \<open>GetEncrypted\<close>.\<close>

locale level_db =
  fixes ldb :: "'d leveldb"
  assumes ok: "leveldb_ok ldb"

sublocale level_db \<subseteq> enc: secret_store "PutEncrypted ldb aes" "GetEncrypted ldb aes" for aes
  by unfold_locales (use PutEncrypted_stored [OF ok] in blast)+

context level_db begin

lemmas reads_last = enc.look_after_puts

end

text \<open>
  C20. The encrypted store behaves as a map: after any sequence of \<open>PutEncrypted\<close> calls that report no error,
  each with random bytes of its own, \<open>GetEncrypted\<close> returns for every key the value written to it last, and for
  a key that was not written what it returned before.
\<close>

theorem PutEncrypted_GetEncrypted:
  assumes "leveldb_ok ldb" and "put_all (PutEncrypted ldb aes) ws s = Ret (None, s')"
  shows "GetEncrypted ldb aes key s' =
    (case map_of (rev (map snd ws)) key of Some value \<Rightarrow> Ret (Inr value) | None \<Rightarrow> GetEncrypted ldb aes key s)"
  using level_db.intro [OF assms(1)] assms(2) by (rule level_db.reads_last)

text \<open>A database that is a finite map, and a block function, for evaluation.\<close>

definition map_ldb :: "(bytes, bytes) gmap leveldb" where
  "map_ldb = \<lparr>ldb_OpenFile = (\<lambda>_. Inr []), ldb_Put = (\<lambda>k v d. (None, gput k v d)),
     ldb_Get = (\<lambda>k d. case gget d k of None \<Rightarrow> Inl ''leveldb: not found'' | Some v \<Rightarrow> Inr v)\<rparr>"

definition xor_cipher :: "bytes \<Rightarrow> 128 word \<Rightarrow> 128 word" where
  "xor_cipher key b = b XOR block_of key"

definition one_nonce :: bytes where "one_nonce = replicate 12 1"

lemma map_ldb_ok: "leveldb_ok map_ldb"
  by (simp add: leveldb_ok_def map_ldb_def)

interpretation map_db: level_db map_ldb
  by unfold_locales (rule map_ldb_ok)

theorem PutEncrypted_GetEncrypted_witness:
  "\<exists>s s'. NewStore map_ldb ''db'' (replicate 32 7) = Inr s \<and>
     put_all (PutEncrypted map_ldb xor_cipher) [(\<lambda>_. Inr one_nonce, [1], [42]), (\<lambda>_. Inr (replicate 12 2), [1], [43])] s = Ret (None, s') \<and>
     GetEncrypted map_ldb xor_cipher [1] s' = Ret (Inr [43])"
proof -
  let ?ws = "[(\<lambda>_. Inr one_nonce, [1], [42]), (\<lambda>_. Inr (replicate 12 2), [1], [43])]"
  define s where "s = \<lparr>ds_db = ([] :: (bytes, bytes) gmap), ds_encryptedKey = [], ds_aesKey = replicate 32 7\<rparr>"
  have new: "NewStore map_ldb ''db'' (replicate 32 7) = Inr s"
    by (simp add: NewStore_def map_ldb_def s_def)
  obtain s' where put: "put_all (PutEncrypted map_ldb xor_cipher) ?ws s = Ret (None, s')"
    by (simp add: PutEncrypted_def NewCipher_def s_def gcm_Seal_def gcmNonceSize_def gcmMaxLength_def one_nonce_def
        store_Put_def map_ldb_def Let_def)
  show ?thesis
    using new put PutEncrypted_GetEncrypted [OF map_ldb_ok put, of "[1]"] by auto
qed

text \<open>A ciphertext shorter than the nonce makes \<open>AESDecrypt\<close> panic instead of returning an error.\<close>

lemma AESDecrypt_short_panics:
  assumes "length key = 32" and "length encrypted < 12"
  shows "AESDecrypt aes encrypted key = Panic IndexOutOfRange"
  using assms by (simp add: AESDecrypt_def NewCipher_def gcmNonceSize_def)

end
