(* ===== verification/Stream_Frames.thy ===== *)
theory Stream_Frames
  imports Work_Request
begin

section \<open>Messages on a stream: p2p/helper.go\<close>

unbundle bit_operations_syntax

text \<open>
  A message travels as four bytes of length, little endian, and its bytes. A stream that is read is
  the list of the pieces in which the transport delivers it: one call of \<open>Read\<close> returns bytes of the
  first piece only. The buffered reader and writer of package \<open>bufio\<close> are part of the model, because
  the functions create a new one for every message.
\<close>

definition HeaderLength :: nat where "HeaderLength = 4"

definition MaxPayload :: "32 word" where "MaxPayload = 20000000"

definition bufio_size :: nat where "bufio_size = 4096"

definition PutUint32 :: "32 word \<Rightarrow> bytes" where
  "PutUint32 v = [ucast v, ucast (drop_bit 8 v), ucast (drop_bit 16 v), ucast (drop_bit 24 v)]"

definition Uint32 :: "bytes \<Rightarrow> 32 word" where
  "Uint32 b = ucast (b ! 0) OR push_bit 8 (ucast (b ! 1)) OR push_bit 16 (ucast (b ! 2)) OR push_bit 24 (ucast (b ! 3))"

subsection \<open>Reading\<close>

text \<open>The buffer of a \<open>bufio.Reader\<close> and the pieces still to come.\<close>

record reader =
  rd_buf :: bytes
  rd_chunks :: "bytes list"

definition push_back :: "bytes \<Rightarrow> bytes list \<Rightarrow> bytes list" where
  "push_back c cs = (if c = [] then cs else c # cs)"

text \<open>
  \<open>bufio.Reader.Read\<close> for \<open>n\<close> bytes, \<open>0 < n\<close>: from the buffer when there is something in it; else one
  \<open>Read\<close> of the stream, straight into the caller's slice when that is at least as large as the buffer.
  \<open>None\<close> is the end of the stream.
\<close>

definition bufio_Read :: "nat \<Rightarrow> reader \<Rightarrow> (bytes \<times> reader) option" where
  "bufio_Read n r =
     (if rd_buf r \<noteq> [] then Some (take n (rd_buf r), r\<lparr>rd_buf := drop n (rd_buf r)\<rparr>)
      else case rd_chunks r of
             [] \<Rightarrow> None
           | c # cs \<Rightarrow>
               if bufio_size \<le> n then Some (take n c, r\<lparr>rd_chunks := push_back (drop n c) cs\<rparr>)
               else Some (take n c, \<lparr>rd_buf = drop n (take bufio_size c), rd_chunks = push_back (drop bufio_size c) cs\<rparr>))"

definition bytes_left :: "reader \<Rightarrow> nat" where
  "bytes_left r = length (rd_buf r) + sum_list (map (\<lambda>c. length c + 1) (rd_chunks r))"

lemma bytes_left_push_back: "sum_list (map (\<lambda>c. length c + 1) (push_back c cs)) \<le> length c + 1 + sum_list (map (\<lambda>c. length c + 1) cs)"
  by (simp add: push_back_def)

lemma bufio_Read_left:
  assumes "bufio_Read n r = Some (got, r')" and "0 < n"
  shows "bytes_left r' < bytes_left r" and "length got + bytes_left r' \<le> bytes_left r" and "length got \<le> n"
proof -
  show "bytes_left r' < bytes_left r" "length got + bytes_left r' \<le> bytes_left r" "length got \<le> n"
    using assms by (auto simp: bufio_Read_def bytes_left_def push_back_def bufio_size_def split: if_splits list.splits)
qed

text \<open>\<open>io.ReadFull\<close>: reads until \<open>n\<close> bytes are there; \<open>Inl\<close> carries the number of bytes read before the end.\<close>

function ReadFull :: "nat \<Rightarrow> reader \<Rightarrow> (nat + bytes) \<times> reader" where
  "ReadFull n r =
     (if n = 0 then (Inr [], r)
      else case bufio_Read n r of
             None \<Rightarrow> (Inl 0, r)
           | Some (got, r') \<Rightarrow>
               (case ReadFull (n - length got) r' of
                  (Inl k, r'') \<Rightarrow> (Inl (length got + k), r'')
                | (Inr rest, r'') \<Rightarrow> (Inr (got @ rest), r'')))"
  by pat_completeness auto
termination
  by (relation "measure (\<lambda>(n, r). bytes_left r)") (auto dest: bufio_Read_left)

declare ReadFull.simps [simp del]

definition eof_error :: "nat \<Rightarrow> string" where
  "eof_error n = (if n = 0 then ''EOF'' else ''unexpected EOF'')"

text \<open>The reader is dropped when the function returns: what its buffer still holds is lost.\<close>

definition ReadStreamWithBuffer :: "bytes list \<Rightarrow> bytes result \<times> bytes list" where
  "ReadStreamWithBuffer stream =
     (case ReadFull HeaderLength \<lparr>rd_buf = [], rd_chunks = stream\<rparr> of
        (Inl n, r) \<Rightarrow> (Inl (''error in read the message head '' @ eof_error n), rd_chunks r)
      | (Inr lengthBytes, r) \<Rightarrow>
          (let len = Uint32 lengthBytes in
           if MaxPayload < len
           then (Inl (''payload length:'' @ dec_of_nat (unat len) @ '' exceed max payload length:'' @ dec_of_nat (unat MaxPayload)),
                 rd_chunks r)
           else case ReadFull (unat len) r of
                  (Inl n, r') \<Rightarrow>
                    (Inl (''short read err('' @ eof_error n @ ''), we would like to read: '' @ dec_of_nat (unat len) @
                       '', however we only read: '' @ dec_of_nat n), rd_chunks r')
                | (Inr dataBuf, r') \<Rightarrow> (Inr dataBuf, rd_chunks r')))"

subsection \<open>Writing\<close>

text \<open>
  The stream's \<open>Write\<close> is a function of its state; a write that returns no error has written everything,
  as \<open>io.Writer\<close> documents. \<open>bufio.Writer.Write\<close> fills its buffer, flushes it when it is full, and writes
  what does not fit into an empty buffer directly.
\<close>

function bufio_Write ::
  "(bytes \<Rightarrow> 's \<Rightarrow> string option \<times> 's) \<Rightarrow> bytes \<Rightarrow> bytes \<Rightarrow> 's \<Rightarrow> string option \<times> bytes \<times> 's" where
  "bufio_Write wr p buf s =
     (if length p \<le> bufio_size - length buf then (None, buf @ p, s)
      else if buf = [] then (case wr p s of (err, s') \<Rightarrow> (err, [], s'))
      else case wr (buf @ take (bufio_size - length buf) p) s of
             (Some err, s') \<Rightarrow> (Some err, buf, s')
           | (None, s') \<Rightarrow> bufio_Write wr (drop (bufio_size - length buf) p) [] s')"
  by pat_completeness auto
termination
  by (relation "measure (\<lambda>(wr, p, buf, s). length buf)") auto

declare bufio_Write.simps [simp del]

definition bufio_Flush :: "(bytes \<Rightarrow> 's \<Rightarrow> string option \<times> 's) \<Rightarrow> bytes \<Rightarrow> 's \<Rightarrow> string option \<times> 's" where
  "bufio_Flush wr buf s = (if buf = [] then (None, s) else wr buf s)"

text \<open>\<open>uint32(len(msg))\<close> wraps around.\<close>

definition WriteStreamWithBuffer ::
  "(bytes \<Rightarrow> 's \<Rightarrow> string option \<times> 's) \<Rightarrow> bytes \<Rightarrow> 's \<Rightarrow> string option \<times> 's" where
  "WriteStreamWithBuffer wr msg s =
     (case bufio_Write wr (PutUint32 (word_of_nat (length msg))) [] s of
        (Some err, buf, s1) \<Rightarrow> (Some (''fail to write head: '' @ err), s1)
      | (None, buf, s1) \<Rightarrow>
          (case bufio_Write wr msg buf s1 of
             (Some err, buf', s2) \<Rightarrow> (Some err, s2)
           | (None, buf', s2) \<Rightarrow> bufio_Flush wr buf' s2))"

subsection \<open>A message is read back from its frame\<close>

definition frame :: "bytes \<Rightarrow> bytes" where
  "frame msg = PutUint32 (word_of_nat (length msg)) @ msg"

lemma Uint32_PutUint32: "Uint32 (PutUint32 v) = v"
proof (rule bit_word_eqI)
  fix n assume "n < LENGTH(32)"
  then consider "n < 8" | "8 \<le> n" "n < 16" | "16 \<le> n" "n < 24" | "24 \<le> n" "n < 32" by fastforce
  then show "bit (Uint32 (PutUint32 v)) n \<longleftrightarrow> bit v n"
    by cases (auto simp: Uint32_def PutUint32_def bit_simps)
qed

lemma length_PutUint32 [simp]: "length (PutUint32 v) = HeaderLength"
  by (simp add: PutUint32_def HeaderLength_def)

text \<open>One read takes a prefix of what the buffer and the pieces of this message hold, and leaves later pieces alone.\<close>

lemma bufio_Read_prefix:
  assumes "rd_chunks r = cs @ rest" and "0 < n" and "n \<le> length (rd_buf r @ concat cs)"
  obtains got r' cs' where "bufio_Read n r = Some (got, r')" "rd_chunks r' = cs' @ rest"
    "rd_buf r @ concat cs = got @ rd_buf r' @ concat cs'" "length got \<le> n"
proof (cases "rd_buf r = []")
  case False
  then show ?thesis
    using assms by (intro that [of "take n (rd_buf r)" "r\<lparr>rd_buf := drop n (rd_buf r)\<rparr>" cs]) (auto simp: bufio_Read_def)
next
  case True
  then obtain c ds where cs: "cs = c # ds" using assms by (cases cs) auto
  have pushed: "push_back x (ds @ rest) = push_back x ds @ rest" "concat (push_back x ds) = x @ concat ds" for x
    by (simp_all add: push_back_def)
  show ?thesis
  proof (cases "bufio_size \<le> n")
    case large: True
    show ?thesis
      by (rule that [of "take n c" "r\<lparr>rd_chunks := push_back (drop n c) (ds @ rest)\<rparr>" "push_back (drop n c) ds"])
        (use True large assms cs in \<open>simp_all add: bufio_Read_def pushed\<close>)
  next
    case small: False
    have "take n c @ drop n (take bufio_size c) = take bufio_size c"
      using append_take_drop_id [of n "take bufio_size c"] small by (simp add: take_take min_absorb1)
    then have "c = take n c @ drop n (take bufio_size c) @ drop bufio_size c"
      by (metis append_assoc append_take_drop_id)
    then show ?thesis
      by (intro that [of "take n c" "\<lparr>rd_buf = drop n (take bufio_size c), rd_chunks = push_back (drop bufio_size c) (ds @ rest)\<rparr>"
            "push_back (drop bufio_size c) ds"])
        (use True small assms cs in \<open>simp_all add: bufio_Read_def pushed\<close>)
  qed
qed

lemma ReadFull_prefix:
  assumes "rd_chunks r = cs @ rest" and "n \<le> length (rd_buf r @ concat cs)"
  shows "\<exists>r' cs'. ReadFull n r = (Inr (take n (rd_buf r @ concat cs)), r') \<and> rd_chunks r' = cs' @ rest \<and>
    rd_buf r' @ concat cs' = drop n (rd_buf r @ concat cs)"
  using assms
proof (induction n r arbitrary: cs rule: ReadFull.induct)
  case (1 n r)
  show ?case
  proof (cases "n = 0")
    case True
    then show ?thesis using "1.prems" by (auto simp: ReadFull.simps)
  next
    case False
    obtain got r' cs' where one: "bufio_Read n r = Some (got, r')" "rd_chunks r' = cs' @ rest"
      "rd_buf r @ concat cs = got @ rd_buf r' @ concat cs'" "length got \<le> n"
      using bufio_Read_prefix "1.prems" False by (metis gr0I)
    then have "n - length got \<le> length (rd_buf r' @ concat cs')"
      using "1.prems"(2) by (simp del: length_append add: one(3)) simp
    from "1.IH" [OF False one(1) refl one(2) this] obtain r'' cs'' where
      "ReadFull (n - length got) r' = (Inr (take (n - length got) (rd_buf r' @ concat cs')), r'')"
      "rd_chunks r'' = cs'' @ rest" "rd_buf r'' @ concat cs'' = drop (n - length got) (rd_buf r' @ concat cs')"
      by blast
    then show ?thesis
      using one False by (subst ReadFull.simps) simp
  qed
qed

lemma ReadStream_frame:
  assumes "concat cs = frame msg" and "length msg \<le> unat MaxPayload"
  shows "\<exists>es. ReadStreamWithBuffer (cs @ rest) = (Inr msg, es @ rest) \<and> concat es = []"
proof -
  let ?len = "word_of_nat (length msg) :: 32 word"
  obtain r cs1 where header: "ReadFull HeaderLength \<lparr>rd_buf = [], rd_chunks = cs @ rest\<rparr> = (Inr (PutUint32 ?len), r)"
    "rd_chunks r = cs1 @ rest" "rd_buf r @ concat cs1 = msg"
    using ReadFull_prefix [of "\<lparr>rd_buf = [], rd_chunks = cs @ rest\<rparr>" cs rest HeaderLength] assms(1)
    by (auto simp: frame_def)
  have len: "unat ?len = length msg" "\<not> MaxPayload < ?len"
    using assms(2) by (simp_all add: MaxPayload_def unat_of_nat word_less_nat_alt take_bit_nat_def)
  obtain r' cs2 where "ReadFull (length msg) r = (Inr msg, r')" "rd_chunks r' = cs2 @ rest" "rd_buf r' @ concat cs2 = []"
    using ReadFull_prefix [OF header(2), of "length msg"] header(3) by auto
  then show ?thesis
    using header(1) len by (auto simp: ReadStreamWithBuffer_def Uint32_PutUint32 Let_def)
qed

text \<open>What a call writes, for a stream that records its writes: the frame, in one piece or two.\<close>

definition record_write :: "bytes \<Rightarrow> bytes list \<Rightarrow> string option \<times> bytes list" where
  "record_write bs log = (None, log @ [bs])"

lemma WriteStream_frame:
  "\<exists>cs. WriteStreamWithBuffer record_write msg log = (None, log @ cs) \<and> concat cs = frame msg"
  by (auto simp: WriteStreamWithBuffer_def bufio_Write.simps [of _ "PutUint32 _"] bufio_Write.simps [of _ msg]
      bufio_Write.simps [of _ "drop _ msg"]
      bufio_Flush_def record_write_def frame_def bufio_size_def HeaderLength_def)

text \<open>Frames that arrive in one piece: the new reader of the next call does not see what the first one has buffered.\<close>

lemma ReadStream_drops_buffered:
  assumes "length (frame msg @ later) \<le> bufio_size"
  shows "ReadStreamWithBuffer ((frame msg @ later) # rest) = (Inr msg, rest)"
proof -
  let ?len = "word_of_nat (length msg) :: 32 word"
  have small: "length msg + 4 \<le> 4096" using assms by (simp add: frame_def bufio_size_def HeaderLength_def)
  have header: "ReadFull HeaderLength \<lparr>rd_buf = [], rd_chunks = (frame msg @ later) # rest\<rparr> =
      (Inr (PutUint32 ?len), \<lparr>rd_buf = msg @ later, rd_chunks = rest\<rparr>)"
    using assms by (simp add: ReadFull.simps [of 4] ReadFull.simps [of 0] bufio_Read_def frame_def push_back_def
        bufio_size_def HeaderLength_def)
  have len: "unat ?len = length msg" "\<not> MaxPayload < ?len"
    using small by (simp_all add: MaxPayload_def unat_of_nat word_less_nat_alt take_bit_nat_def)
  have "ReadFull (length msg) \<lparr>rd_buf = msg @ later, rd_chunks = rest\<rparr> = (Inr msg, r) \<Longrightarrow> rd_chunks r = rest" for r
    by (cases "msg = []") (auto simp: ReadFull.simps [of "length msg"] ReadFull.simps [of 0] bufio_Read_def)
  moreover have "\<exists>r. ReadFull (length msg) \<lparr>rd_buf = msg @ later, rd_chunks = rest\<rparr> = (Inr msg, r)"
    using ReadFull_prefix [of "\<lparr>rd_buf = msg @ later, rd_chunks = rest\<rparr>" "[]" rest "length msg"] by auto
  ultimately show ?thesis
    using header len by (auto simp: ReadStreamWithBuffer_def Uint32_PutUint32 Let_def)
qed

end
