(* ===== verification/Connection_Manager.thy ===== *)
theory Connection_Manager
  imports Stream_Frames Database
begin

section \<open>Connections to the other nodes: p2p/connection.go, p2p/connection\_manager.go\<close>

text \<open>
  libp2p (hosts, streams, multi-addresses, discovery) is a parameter. A host has a state \<open>'h\<close>, an open stream
  a state \<open>'s\<close>; \<open>'l\<close> are the listeners. A multi-address is its text, a private key is opaque.
\<close>

record ('h, 's) p2p_lib =
  pl_UnmarshalSecp256k1PrivateKey :: "bytes \<Rightarrow> opaque result"
  pl_UnmarshalEd25519PrivateKey :: "bytes \<Rightarrow> opaque result"
  pl_NewMultiaddr :: "string \<Rightarrow> string result"
  pl_New :: "string \<Rightarrow> opaque option \<Rightarrow> 'h result"
  pl_SetStreamHandler :: "string \<Rightarrow> 'h \<Rightarrow> 'h"
  pl_RemoveStreamHandler :: "string \<Rightarrow> 'h \<Rightarrow> 'h"
  pl_dht_New :: "'h \<Rightarrow> opaque result"
  pl_dht_Bootstrap :: "opaque \<Rightarrow> string option"
  pl_Advertise :: "opaque \<Rightarrow> string \<Rightarrow> 'h \<Rightarrow> 'h"
  pl_AddrInfoFromP2pAddr :: "string option \<Rightarrow> bytes option"
  pl_Connect :: "bytes \<Rightarrow> 'h \<Rightarrow> string option \<times> 'h"
  pl_NewStream :: "bytes \<Rightarrow> string \<Rightarrow> 'h \<Rightarrow> 's result \<times> 'h"
  pl_Write :: "bytes \<Rightarrow> 's \<Rightarrow> string option \<times> 's"
  pl_Reset :: "'s \<Rightarrow> 's"
  pl_idString :: "bytes \<Rightarrow> string"

record P2PMessage =
  pm_FromPeerId :: string
  pm_Data :: bytes

record ConnectionsConfig =
  cc_Host :: string
  cc_Port :: int
  cc_Rendezvous :: string
  cc_Protocol :: string
  cc_Peers :: "Peer list"
  cc_PrivateKeyType :: string

definition TSSProtocolID :: string where "TSSProtocolID = ''/p2p-tss''"

definition PingProtocolID :: string where "PingProtocolID = ''/p2p-ping''"

subsection \<open>One connection\<close>

record 's Connection =
  cn_peerId :: bytes
  cn_addr :: "string option"
  cn_streams :: "(string, 's) gmap"

definition NewConnection :: "bytes \<Rightarrow> string option \<Rightarrow> 's Connection" where
  "NewConnection pID addr = \<lparr>cn_peerId = pID, cn_addr = addr, cn_streams = []\<rparr>"

definition ReleaseStream :: "('h, 's) p2p_lib \<Rightarrow> 's Connection \<Rightarrow> 's Connection" where
  "ReleaseStream pl con = con\<lparr>cn_streams := map (\<lambda>(k, s). (k, pl_Reset pl s)) (cn_streams con)\<rparr>"

definition createStream ::
  "('h, 's) p2p_lib \<Rightarrow> string \<Rightarrow> 's Connection \<Rightarrow> 'h \<Rightarrow> 's result \<times> 's Connection \<times> 'h" where
  "createStream pl protocolId con h =
     (case pl_NewStream pl (cn_peerId con) protocolId h of
        (Inl err, h') \<Rightarrow>
          (Inl (''fail to create new stream to peer: '' @ pl_idString pl (cn_peerId con) @ '', '' @ err), con, h')
      | (Inr stream, h') \<Rightarrow> (Inr stream, con\<lparr>cn_streams := gput protocolId stream (cn_streams con)\<rparr>, h'))"

definition writeToStream ::
  "('h, 's) p2p_lib \<Rightarrow> bytes \<Rightarrow> string \<Rightarrow> 's Connection \<Rightarrow> 'h \<Rightarrow> string option \<times> 's Connection \<times> 'h" where
  "writeToStream pl msg protocolId con h =
     (case (case gget (cn_streams con) protocolId of
              Some stream \<Rightarrow> (Inr stream, con, h)
            | None \<Rightarrow> createStream pl protocolId con h) of
        (Inl err, con1, h1) \<Rightarrow> (Some err, con1, h1)
      | (Inr stream, con1, h1) \<Rightarrow>
          (case WriteStreamWithBuffer (pl_Write pl) msg stream of
             (err, stream') \<Rightarrow> (err, con1\<lparr>cn_streams := gput protocolId stream' (cn_streams con1)\<rparr>, h1)))"

subsection \<open>The manager\<close>

record ('h, 's, 'l) ConnectionManager =
  cm_config :: ConnectionsConfig
  cm_host :: "'h option"
  cm_rendezvous :: string
  cm_bootstrapPeers :: "string option list"
  cm_connections :: "(bytes, 's Connection) gmap"
  cm_protocolListener :: "(string, 'l) gmap"
  cm_ready :: bool

definition NewConnectionManager :: "ConnectionsConfig \<Rightarrow> ('h, 's, 'l) ConnectionManager" where
  "NewConnectionManager config =
     \<lparr>cm_config = config, cm_host = None, cm_rendezvous = cc_Rendezvous config, cm_bootstrapPeers = [],
      cm_connections = [], cm_protocolListener = [], cm_ready = False\<rparr>"

definition IsReady :: "('h, 's, 'l) ConnectionManager \<Rightarrow> bool" where
  "IsReady cm = cm_ready cm"

definition AddListener :: "string \<Rightarrow> 'l \<Rightarrow> ('h, 's, 'l) ConnectionManager \<Rightarrow> ('h, 's, 'l) ConnectionManager" where
  "AddListener protocol listener cm = cm\<lparr>cm_protocolListener := gput protocol listener (cm_protocolListener cm)\<rparr>"

definition RemoveListener ::
  "('h, 's) p2p_lib \<Rightarrow> string \<Rightarrow> ('h, 's, 'l) ConnectionManager \<Rightarrow> ('h, 's, 'l) ConnectionManager" where
  "RemoveListener pl protocol cm =
     cm\<lparr>cm_protocolListener := gdel protocol (cm_protocolListener cm),
        cm_host := map_option (pl_RemoveStreamHandler pl protocol) (cm_host cm)\<rparr>"

definition getListener :: "string \<Rightarrow> ('h, 's, 'l) ConnectionManager \<Rightarrow> 'l option" where
  "getListener protocol cm = gget (cm_protocolListener cm) protocol"

text \<open>The connection of a peer is created for every bootstrap peer; a malformed address gives a nil \<open>addrInfo\<close>.\<close>

fun add_connections ::
  "('h, 's) p2p_lib \<Rightarrow> string option list \<Rightarrow> (bytes, 's Connection) gmap \<Rightarrow> (bytes, 's Connection) gmap go" where
  "add_connections pl [] conns = Ret conns"
| "add_connections pl (peerAddr # rest) conns =
     go_bind (go_deref (pl_AddrInfoFromP2pAddr pl peerAddr)) (\<lambda>addrInfo.
       add_connections pl rest (gput addrInfo (NewConnection addrInfo peerAddr) conns))"

text \<open>At most \<open>n\<close> attempts to connect; the loop stops at the first one that succeeds.\<close>

fun connect_retry :: "('h, 's) p2p_lib \<Rightarrow> nat \<Rightarrow> bytes \<Rightarrow> 'h \<Rightarrow> 'h" where
  "connect_retry pl 0 peerinfo h = h"
| "connect_retry pl (Suc n) peerinfo h =
     (case pl_Connect pl peerinfo h of
        (Some err, h') \<Rightarrow> connect_retry pl n peerinfo h'
      | (None, h') \<Rightarrow> h')"

text \<open>
  One goroutine per peer, taken one after the other: they share nothing but the host and the flag \<open>ready\<close>, which
  each of them sets when its attempts are over.
\<close>

fun connect_all :: "('h, 's) p2p_lib \<Rightarrow> string option list \<Rightarrow> 'h \<times> bool \<Rightarrow> ('h \<times> bool) go" where
  "connect_all pl [] (h, ready) = Ret (h, ready)"
| "connect_all pl (peerAddr # rest) (h, ready) =
     go_bind (go_deref (pl_AddrInfoFromP2pAddr pl peerAddr)) (\<lambda>peerinfo.
       connect_all pl rest (connect_retry pl 50 peerinfo h, True))"

definition createConnections ::
  "('h, 's) p2p_lib \<Rightarrow> ('h, 's, 'l) ConnectionManager \<Rightarrow> ('h, 's, 'l) ConnectionManager go" where
  "createConnections pl cm =
     go_bind (add_connections pl (cm_bootstrapPeers cm) (cm_connections cm)) (\<lambda>conns.
     go_bind (go_deref (cm_host cm)) (\<lambda>h.
     go_bind (connect_all pl (cm_bootstrapPeers cm) (h, cm_ready cm)) (\<lambda>(h', ready).
       Ret (cm\<lparr>cm_connections := conns, cm_host := Some h', cm_ready := ready\<rparr>))))"

definition discover :: "('h, 's) p2p_lib \<Rightarrow> ('h, 's, 'l) ConnectionManager \<Rightarrow> 'h \<Rightarrow> string option \<times> 'h" where
  "discover pl cm host =
     (case pl_dht_New pl host of
        Inl err \<Rightarrow> (Some (''Failed to create DHT: '' @ err), host)
      | Inr kademliaDHT \<Rightarrow>
          (case pl_dht_Bootstrap pl kademliaDHT of
             Some err \<Rightarrow> (Some (''Failed to bootstrap DHT: '' @ err), host)
           | None \<Rightarrow> (None, pl_Advertise pl kademliaDHT (cm_rendezvous cm) host)))"

text \<open>The loop that fills \<open>bootstrapPeers\<close>: after an error the rest of the slice stays nil.\<close>

fun parse_peers :: "('h, 's) p2p_lib \<Rightarrow> Peer list \<Rightarrow> string option list \<times> string option" where
  "parse_peers pl [] = ([], None)"
| "parse_peers pl (peer # rest) =
     (case pl_NewMultiaddr pl (pr_Address peer) of
        Inl err \<Rightarrow> (replicate (Suc (length rest)) None, Some err)
      | Inr addr \<Rightarrow> (case parse_peers pl rest of (addrs, err) \<Rightarrow> (Some addr # addrs, err)))"

definition cm_Start ::
  "('h, 's) p2p_lib \<Rightarrow> bytes \<Rightarrow> string \<Rightarrow> ('h, 's, 'l) ConnectionManager \<Rightarrow>
   (string option \<times> ('h, 's, 'l) ConnectionManager) go" where
  "cm_Start pl privKeyBytes keyType cm =
     (case (if keyType = ''secp256k1'' then map_sum id Some (pl_UnmarshalSecp256k1PrivateKey pl privKeyBytes)
            else if keyType = ''ed25519'' then map_sum id Some (pl_UnmarshalEd25519PrivateKey pl privKeyBytes)
            else Inr None) of
        Inl err \<Rightarrow> Ret (Some err, cm)
      | Inr p2pPriKey \<Rightarrow>
          (case pl_NewMultiaddr pl (''/ip4/'' @ cc_Host (cm_config cm) @ ''/tcp/'' @ dec_of_int (cc_Port (cm_config cm))) of
             Inl err \<Rightarrow> Ret (Some err, cm)
           | Inr listenAddr \<Rightarrow>
               (case parse_peers pl (cc_Peers (cm_config cm)) of (addrs, err) \<Rightarrow>
                  let cm1 = cm\<lparr>cm_bootstrapPeers := addrs\<rparr> in
                  if err \<noteq> None then Ret (err, cm1)
                  else case pl_New pl listenAddr p2pPriKey of
                         Inl err \<Rightarrow> Ret (Some err, cm1)
                       | Inr host \<Rightarrow>
                           (case discover pl cm1 (pl_SetStreamHandler pl PingProtocolID
                                   (pl_SetStreamHandler pl TSSProtocolID host)) of
                              (Some err, host') \<Rightarrow> Ret (Some err, cm1\<lparr>cm_host := Some host'\<rparr>)
                            | (None, host') \<Rightarrow>
                                go_bind (createConnections pl (cm1\<lparr>cm_host := Some host'\<rparr>)) (\<lambda>cm2. Ret (None, cm2))))))"

text \<open>
  A connection is only created by \<open>createConnections\<close>, after the host: the nil host of an earlier call is
  never reached.
\<close>

definition WriteToStream_cm ::
  "('h, 's) p2p_lib \<Rightarrow> bytes \<Rightarrow> string \<Rightarrow> bytes \<Rightarrow> ('h, 's, 'l) ConnectionManager \<Rightarrow>
   (string option \<times> ('h, 's, 'l) ConnectionManager) go" where
  "WriteToStream_cm pl pID protocolId msg cm =
     (case gget (cm_connections cm) pID of
        None \<Rightarrow> Ret (Some ''pID not found'', cm)
      | Some conn \<Rightarrow>
          go_bind (go_deref (cm_host cm)) (\<lambda>h.
            case writeToStream pl msg protocolId conn h of
              (err, conn', h') \<Rightarrow>
                Ret (err, cm\<lparr>cm_connections := gput pID conn' (cm_connections cm), cm_host := Some h'\<rparr>)))"

subsection \<open>Receiving\<close>

lemma ReadFull_left:
  "ReadFull n r = (Inr xs, r') \<Longrightarrow> length xs = n \<and> n + bytes_left r' \<le> bytes_left r"
proof (induction n r arbitrary: xs r' rule: ReadFull.induct)
  case (1 n r)
  show ?case
  proof (cases "n = 0")
    case True
    then show ?thesis using "1.prems" by (simp add: ReadFull.simps)
  next
    case False
    then obtain got r1 rest where one: "bufio_Read n r = Some (got, r1)"
      and two: "ReadFull (n - length got) r1 = (Inr rest, r')" and "xs = got @ rest"
      using "1.prems" by (auto simp: ReadFull.simps [of n] split: option.splits prod.splits sum.splits)
    then show ?thesis
      using bufio_Read_left(2,3) [OF one] "1.IH" [OF False one refl two] False by auto
  qed
qed

definition stream_left :: "bytes list \<Rightarrow> nat" where
  "stream_left cs = bytes_left \<lparr>rd_buf = [], rd_chunks = cs\<rparr>"

text \<open>Every message read uses up at least its header.\<close>

lemma ReadStream_left:
  assumes "ReadStreamWithBuffer cs = (Inr msg, cs')"
  shows "stream_left cs' < stream_left cs"
proof -
  obtain header r r' where "ReadFull HeaderLength \<lparr>rd_buf = [], rd_chunks = cs\<rparr> = (Inr header, r)"
    "ReadFull (unat (Uint32 header)) r = (Inr msg, r')" "cs' = rd_chunks r'"
    using assms by (auto simp: ReadStreamWithBuffer_def Let_def split: prod.splits sum.splits if_splits)
  then have "HeaderLength + bytes_left r' \<le> stream_left cs" "stream_left cs' \<le> bytes_left r'"
    by (auto simp: stream_left_def bytes_left_def dest!: ReadFull_left)
  then show ?thesis by (simp add: HeaderLength_def)
qed

text \<open>
  \<open>handleStream\<close> returns the goroutines it launches, in the order of the launches, each a call of
  \<open>OnNetworkMessage\<close> of a listener. They run concurrently: the order in which the calls reach the listener is
  any order of them (\<open>scheduled\<close>). An empty message is not nil and is passed on too.
\<close>

function handleStream ::
  "('h, 's, 'l) ConnectionManager \<Rightarrow> string \<Rightarrow> string \<Rightarrow> bytes list \<Rightarrow> ('l \<times> P2PMessage) list" where
  "handleStream cm peerIDString protocol stream =
     (case ReadStreamWithBuffer stream of
        (Inl err, stream') \<Rightarrow> []
      | (Inr dataBuf, stream') \<Rightarrow>
          (case getListener protocol cm of
             None \<Rightarrow> []
           | Some listener \<Rightarrow>
               (listener, \<lparr>pm_FromPeerId = peerIDString, pm_Data = dataBuf\<rparr>) # handleStream cm peerIDString protocol stream'))"
  by pat_completeness auto
termination
  by (relation "measure (\<lambda>(cm, p, pr, cs). stream_left cs)") (auto dest: ReadStream_left [OF sym])

declare handleStream.simps [simp del]

definition scheduled :: "'g list \<Rightarrow> 'g list \<Rightarrow> bool" where
  "scheduled launched calls \<longleftrightarrow> mset calls = mset launched"

lemma scheduled_map:
  assumes "scheduled (map f xs) calls" and "\<And>x. g (f x) = x"
  shows "calls = map f (map g calls)" and "mset (map g calls) = mset xs"
proof -
  have eq: "mset calls = mset (map f xs)" using assms(1) by (simp add: scheduled_def)
  from mset_eq_setD [OF this] show "calls = map f (map g calls)"
    using assms(2) by (auto simp: map_idI intro!: map_idI [symmetric])
  have "mset (map g calls) = image_mset g (mset (map f xs))" using eq by simp
  then show "mset (map g calls) = mset xs" by (simp add: assms(2) multiset.map_comp comp_def)
qed

subsection \<open>What a listener receives\<close>

lemma handleStream_empty: "concat es = [] \<Longrightarrow> handleStream cm from proto es = []"
proof -
  assume "concat es = []"
  then have "ReadFull HeaderLength \<lparr>rd_buf = [], rd_chunks = es\<rparr> = (Inr xs, r) \<Longrightarrow> False" for xs r
  proof (induction es arbitrary: xs r)
    case (Cons e es)
    then show ?case
      by (subst (asm) ReadFull.simps)
        (auto simp: HeaderLength_def bufio_Read_def bufio_size_def push_back_def split: prod.splits sum.splits)
  qed (simp add: ReadFull.simps bufio_Read_def HeaderLength_def)
  then show ?thesis
    by (subst handleStream.simps) (auto simp: ReadStreamWithBuffer_def split: prod.splits sum.splits)
qed

lemma frames_handled:
  assumes "getListener proto cm = Some l"
  shows "\<lbrakk>list_all2 (\<lambda>cs m. concat cs = frame m) css msgs; \<forall>m \<in> set msgs. length m \<le> unat MaxPayload; concat es = []\<rbrakk> \<Longrightarrow>
    handleStream cm from proto (es @ concat css) = map (\<lambda>m. (l, \<lparr>pm_FromPeerId = from, pm_Data = m\<rparr>)) msgs"
proof (induction css msgs arbitrary: es rule: list_all2_induct)
  case Nil
  then show ?case by (simp add: handleStream_empty)
next
  case (Cons cs css m msgs)
  have "concat (es @ cs) = frame m" using Cons.hyps(1) Cons.prems(2) by simp
  then obtain es' where "ReadStreamWithBuffer (es @ cs @ concat css) = (Inr m, es' @ concat css)" "concat es' = []"
    using ReadStream_frame [of "es @ cs" m "concat css"] Cons.prems(1) by auto
  then show ?case
    using Cons.IH [of es'] Cons.prems(1) assms by (subst handleStream.simps) simp
qed

text \<open>
  C17. Messages of at most \<open>MaxPayload\<close> bytes written by \<open>WriteStreamWithBuffer\<close> one after the other reach the listener
  of the protocol complete, unchanged and once each, with the peer id of the sender, however the transport
  cuts each frame into pieces, provided that no piece holds bytes of two messages. Their goroutines are launched in the
  order in which the messages were written; the listener may be called in any order of them.
\<close>

theorem sent_messages_delivered:
  assumes "getListener proto cm = Some l"
    and "\<forall>m \<in> set msgs. length m \<le> unat MaxPayload"
    and "list_all2 (\<lambda>pieces m. concat pieces = concat (snd (WriteStreamWithBuffer record_write m []))) css msgs"
  shows "handleStream cm from proto (concat css) = map (\<lambda>m. (l, \<lparr>pm_FromPeerId = from, pm_Data = m\<rparr>)) msgs \<and>
    (\<forall>calls. scheduled (handleStream cm from proto (concat css)) calls \<longrightarrow>
      (\<exists>ms. calls = map (\<lambda>m. (l, \<lparr>pm_FromPeerId = from, pm_Data = m\<rparr>)) ms \<and> mset ms = mset msgs))"
proof -
  have "concat (snd (WriteStreamWithBuffer record_write m [])) = frame m" for m
    using WriteStream_frame [of m "[]"] by auto
  then have launched: "handleStream cm from proto (concat css) = map (\<lambda>m. (l, \<lparr>pm_FromPeerId = from, pm_Data = m\<rparr>)) msgs"
    using frames_handled [OF assms(1), of css msgs "[]"] assms(2,3) by simp
  show ?thesis
    unfolding launched using scheduled_map [where f = "\<lambda>m. (l, \<lparr>pm_FromPeerId = from, pm_Data = m\<rparr>)" and g = "\<lambda>c. pm_Data (snd c)"]
    by (metis (no_types, lifting) P2PMessage.select_convs(2) snd_conv)
qed

definition listening :: "(unit, bytes list, string) ConnectionManager" where
  "listening = AddListener TSSProtocolID ''engine'' (NewConnectionManager
     \<lparr>cc_Host = ''0.0.0.0'', cc_Port = 28300, cc_Rendezvous = ''rv'', cc_Protocol = [], cc_Peers = [], cc_PrivateKeyType = ''ed25519''\<rparr>)"

lemma listening_engine: "getListener TSSProtocolID listening = Some ''engine''"
  by (simp add: listening_def getListener_def AddListener_def NewConnectionManager_def)

theorem sent_messages_delivered_witness:
  "handleStream listening ''a'' TSSProtocolID [[3], [0, 0, 0, 7, 8], [9], [0, 0, 0, 0]] =
     [(''engine'', \<lparr>pm_FromPeerId = ''a'', pm_Data = [7, 8, 9]\<rparr>), (''engine'', \<lparr>pm_FromPeerId = ''a'', pm_Data = []\<rparr>)] \<and>
   scheduled (handleStream listening ''a'' TSSProtocolID [[3], [0, 0, 0, 7, 8], [9], [0, 0, 0, 0]])
     [(''engine'', \<lparr>pm_FromPeerId = ''a'', pm_Data = []\<rparr>), (''engine'', \<lparr>pm_FromPeerId = ''a'', pm_Data = [7, 8, 9]\<rparr>)]"
proof -
  have "list_all2 (\<lambda>pieces m. concat pieces = concat (snd (WriteStreamWithBuffer record_write m [])))
      [[[3], [0, 0, 0, 7, 8], [9]], [[0, 0, 0, 0]]] [[7, 8, 9], []]"
    using WriteStream_frame [of "[7, 8, 9]" "[]"] WriteStream_frame [of "[]" "[]"]
    by (auto simp: frame_def PutUint32_def)
  from sent_messages_delivered [OF listening_engine _ this, of "''a''"] show ?thesis
    by (simp add: MaxPayload_def scheduled_def)
qed

text \<open>
  Messages that the transport hands over in one piece of at most 4096 bytes are lost, all but the first: the reader
  made for the first message takes the whole piece into its buffer and is then dropped with it.
\<close>

theorem coalesced_messages_lost:
  assumes "getListener proto cm = Some l" and "length (concat (map frame (m # ms))) \<le> bufio_size"
  shows "handleStream cm from proto [concat (map frame (m # ms))] = [(l, \<lparr>pm_FromPeerId = from, pm_Data = m\<rparr>)]"
  using assms ReadStream_drops_buffered [of m "concat (map frame ms)" "[]"] handleStream_empty [of "[]" cm "from" proto]
  by (subst handleStream.simps) simp

theorem coalesced_messages_lost_witness:
  "handleStream listening ''a'' TSSProtocolID [[1, 0, 0, 0, 7, 1, 0, 0, 0, 8]] =
     [(''engine'', \<lparr>pm_FromPeerId = ''a'', pm_Data = [7]\<rparr>)]"
  using coalesced_messages_lost [OF listening_engine, of "[7]" "[[8]]" "''a''"]
  by (simp add: frame_def PutUint32_def bufio_size_def)

text \<open>
  The writer does not know the limit of the reader: a message of more than \<open>MaxPayload\<close> bytes is written without an
  error, and the receiver closes the stream on its header, delivering neither this message nor any later one.
\<close>

theorem oversized_message_closes_stream:
  assumes "unat MaxPayload < length m" and "length m < 2 ^ 32" and "concat pieces = frame m"
  shows "fst (WriteStreamWithBuffer record_write m log) = None \<and> handleStream cm from proto (pieces @ later) = []"
proof
  show "fst (WriteStreamWithBuffer record_write m log) = None" using WriteStream_frame [of m log] by auto
  let ?len = "word_of_nat (length m) :: 32 word"
  have "MaxPayload < ?len"
    using assms(1,2) by (simp add: word_less_nat_alt unat_of_nat take_bit_nat_def)
  moreover obtain r where "ReadFull HeaderLength \<lparr>rd_buf = [], rd_chunks = pieces @ later\<rparr> = (Inr (PutUint32 ?len), r)"
    using ReadFull_prefix [of "\<lparr>rd_buf = [], rd_chunks = pieces @ later\<rparr>" pieces later HeaderLength] assms(3)
    by (auto simp: frame_def)
  ultimately show "handleStream cm from proto (pieces @ later) = []"
    by (subst handleStream.simps) (simp add: ReadStreamWithBuffer_def Uint32_PutUint32 Let_def)
qed

theorem oversized_message_closes_stream_witness:
  "\<exists>pieces. concat pieces = frame (replicate 20000001 0) \<and> handleStream listening ''a'' TSSProtocolID (pieces @ [frame [1]]) = []"
  using oversized_message_closes_stream [of "replicate 20000001 0" "[frame (replicate 20000001 0)]" "[]" listening "''a''" TSSProtocolID "[frame [1]]"]
  by (intro exI [of _ "[frame (replicate 20000001 0)]"]) (simp add: MaxPayload_def)

subsection \<open>Being ready and broken streams\<close>

text \<open>
  The flag \<open>ready\<close> only says that there are bootstrap peers: it is set when the attempts are over, whether or not one of
  them succeeded, and never when there is no peer to connect to.
\<close>

lemma connect_all_ready: "connect_all pl peers (h, ready) = Ret (h', ready') \<Longrightarrow> ready' \<longleftrightarrow> ready \<or> peers \<noteq> []"
  by (induction peers arbitrary: h ready) (auto simp: go_bind_eq_Ret_iff)

lemma createConnections_ready:
  "createConnections pl cm = Ret cm' \<Longrightarrow> IsReady cm' \<longleftrightarrow> IsReady cm \<or> cm_bootstrapPeers cm \<noteq> []"
  by (auto simp: createConnections_def IsReady_def go_bind_eq_Ret_iff dest!: connect_all_ready)

text \<open>
  A stream that broke is never replaced: once a write on it fails, and as long as the stream keeps failing, every message
  to this peer fails, although a new stream could be opened.
\<close>

lemma broken_stream_kept:
  assumes "gget (cn_streams con) proto = Some dead"
    and dead: "\<And>bs. \<exists>err. pl_Write pl bs dead = (Some err, dead)"
  shows "\<exists>err. writeToStream pl msg proto con h = (Some err, con\<lparr>cn_streams := gput proto dead (cn_streams con)\<rparr>, h)"
proof -
  obtain err where err: "\<And>bs. pl_Write pl bs dead = (Some (err bs), dead)" using dead by metis
  have "PutUint32 v \<noteq> []" for v by (simp add: PutUint32_def)
  then have "\<exists>e. WriteStreamWithBuffer (pl_Write pl) msg dead = (Some e, dead)"
    by (auto simp: WriteStreamWithBuffer_def bufio_Write.simps [of _ "PutUint32 _"] bufio_Write.simps [of _ msg]
        bufio_Flush_def bufio_size_def HeaderLength_def err)
  then show ?thesis
    using assms(1) by (auto simp: writeToStream_def)
qed

end
