(* ===== verification/Hex_Hash.thy ===== *)
theory Hex_Hash
  imports Work_Request
begin

section \<open>Hexadecimal text and hashes: package encoding/hex, utils/misc.go\<close>

text \<open>
  Encoding and decoding of hexadecimal text, which other theories use for keys and hashes, the hash that
  names a piece of work, and the address of a Cardano key.
\<close>

definition hex_char :: "nat \<Rightarrow> char" where
  "hex_char n = (if n < 10 then char_of (48 + n) else char_of (87 + n))"

definition unhex :: "char \<Rightarrow> nat option" where
  "unhex c = (let n = (of_char c :: nat) in
     if 48 \<le> n \<and> n \<le> 57 then Some (n - 48)
     else if 97 \<le> n \<and> n \<le> 102 then Some (n - 87)
     else if 65 \<le> n \<and> n \<le> 70 then Some (n - 55) else None)"

definition hex_EncodeToString :: "bytes \<Rightarrow> string" where
  "hex_EncodeToString bs = concat (map (\<lambda>b. [hex_char (unat b div 16), hex_char (unat b mod 16)]) bs)"

text \<open>The text of an invalid byte's error leaves out the byte.\<close>

fun hex_DecodeString :: "string \<Rightarrow> bytes result" where
  "hex_DecodeString [] = Inr []"
| "hex_DecodeString [c] =
     (if unhex c = None then Inl ''encoding/hex: invalid byte'' else Inl ''encoding/hex: odd length hex string'')"
| "hex_DecodeString (c # d # s) =
     (case (unhex c, unhex d) of
        (Some a, Some b) \<Rightarrow> map_sum id ((#) (word_of_nat (16 * a + b))) (hex_DecodeString s)
      | _ \<Rightarrow> Inl ''encoding/hex: invalid byte'')"

text \<open>The Keccak hash of \<open>golang.org/x/crypto\<close> is a parameter.\<close>

definition KeccakHash32 :: "(string \<Rightarrow> bytes) \<Rightarrow> string \<Rightarrow> string" where
  "KeccakHash32 keccak256 s =
     (let encoded = hex_EncodeToString (keccak256 s) in if 32 < length encoded then take 32 encoded else encoded)"

text \<open>The hash and the addresses of the Cardano library are parameters; a key credential is its hash. A zero address is \<open>zero\<close>.\<close>

definition GetAddressFromCardanoPubkey ::
  "(bytes \<Rightarrow> bytes result) \<Rightarrow> (nat \<Rightarrow> bytes \<Rightarrow> 'addr result) \<Rightarrow> 'addr \<Rightarrow> bytes \<Rightarrow> 'addr \<times> string option" where
  "GetAddressFromCardanoPubkey Blake224Hash NewEnterpriseAddress zero pubkey =
     (case Blake224Hash pubkey of
        Inl err \<Rightarrow> (zero, Some err)
      | Inr keyHash \<Rightarrow>
          (case NewEnterpriseAddress 0 keyHash of
             Inl err \<Rightarrow> (zero, Some err)
           | Inr enterpriseAddr \<Rightarrow> (enterpriseAddr, None)))"

lemma unhex_hex_char [simp]: "n < 16 \<Longrightarrow> unhex (hex_char n) = Some n"
  by (auto simp: unhex_def hex_char_def Let_def)

lemma hex_roundtrip: "hex_DecodeString (hex_EncodeToString bs) = Inr bs"
proof (induction bs)
  case (Cons b bs)
  have "unat b < 256" using unsigned_less [of b] by simp
  then have "unat b div 16 < 16" "unat b mod 16 < 16" by auto
  moreover have "word_of_nat (16 * (unat b div 16) + unat b mod 16) = b"
    by (simp only: mult_div_mod_eq) simp
  ultimately show ?case
    using Cons.IH by (simp add: hex_EncodeToString_def)
qed (simp add: hex_EncodeToString_def)

lemma KeccakHash32_length: "length (KeccakHash32 keccak256 s) \<le> 32"
  by (simp add: KeccakHash32_def Let_def)

end
