(* ===== verification/Heart.thy ===== *)
theory Heart
  imports Engine Connection_Manager Encrypted_Store Hex_Hash
begin

section \<open>The heart: core/heart.go, core/preparams\_dev.go, core/signer/signer.go\<close>

text \<open>
  The heart is the part Sisu talks to: it receives the private key, starts the connection manager
  and the engine, turns keygen and keysign calls into work requests for the engine, and posts the
  engine's results to Sisu. The state of the database is an argument of the operations that use it.
  Parameters are the libraries of the keys (\<open>he_PubKey\<close>, \<open>he_PrivSign\<close>), of the curves, of libp2p, and the
  hash function.
\<close>

record DbConfig =
  dc_Host :: string
  dc_Port :: int
  dc_Username :: string
  dc_Password :: string
  dc_Schema :: string
  dc_InMemory :: bool

text \<open>The settings of the log service are left out.\<close>

record HeartConfig =
  hc_HomeDir :: string
  hc_UseOnMemory :: bool
  hc_ShortcutPreparams :: bool
  hc_SisuServerUrl :: string
  hc_Port :: int
  hc_Db :: DbConfig
  hc_Connection :: ConnectionsConfig
  hc_AesKey :: bytes

record PrivKey =
  sk_Type :: string
  sk_Bytes :: bytes

record ('w, 'a, 'd, 'h, 's) heart_env =
  he_engine :: "('w, 'a) engine_env"
  he_codec :: peer_codec
  he_chain :: libchain
  he_db :: "'d Database"
  he_p2p :: "('h, 's) p2p_lib"
  he_aes :: "bytes \<Rightarrow> 128 word \<Rightarrow> 128 word"
  he_keccak :: "string \<Rightarrow> bytes"
  he_PubKey :: "PrivKey \<Rightarrow> PubKey go"
  he_PrivSign :: "PrivKey \<Rightarrow> bytes \<Rightarrow> bytes result"
  he_GeneratePreParams :: "opaque result"
  he_UnmarshalPreparams :: "nat \<Rightarrow> opaque result"

subsection \<open>The signer\<close>

record DefaultSigner =
  dsg_privateKey :: PrivKey

definition NewDefaultSigner :: "PrivKey \<Rightarrow> DefaultSigner" where
  "NewDefaultSigner privateKey = \<lparr>dsg_privateKey = privateKey\<rparr>"

definition signer_Sign :: "('w, 'a, 'd, 'h, 's) heart_env \<Rightarrow> DefaultSigner \<Rightarrow> bytes \<Rightarrow> bytes result" where
  "signer_Sign he signer msg = he_PrivSign he (dsg_privateKey signer) msg"

definition signer_PubKey :: "('w, 'a, 'd, 'h, 's) heart_env \<Rightarrow> DefaultSigner \<Rightarrow> PubKey go" where
  "signer_PubKey he signer = he_PubKey he (dsg_privateKey signer)"

subsection \<open>State\<close>

text \<open>The listener of the connection manager is the engine of the heart, a single value. Nil is \<open>None\<close>.\<close>

record ('w, 'd, 'h, 's) Heart =
  ht_config :: HeartConfig
  ht_cm :: "('h, 's, unit) ConnectionManager option"
  ht_engine :: "('w, 'd) Engine option"
  ht_valPubkeys :: "PubKey list option"
  ht_ready :: bool
  ht_privateKey :: "PrivKey option"
  ht_aesKey :: bytes
  ht_keysignRequests :: "(string, KeysignRequest) gmap"

datatype client_call =
    PostKeygenResult KeygenResult
  | PostKeysignResult KeysignResult

definition ErrDheartNotReady :: string where
  "ErrDheartNotReady = ''dheart is not ready''"

definition NewHeart :: "HeartConfig \<Rightarrow> ('w, 'd, 'h, 's) Heart" where
  "NewHeart config =
     \<lparr>ht_config = config, ht_cm = None, ht_engine = None, ht_valPubkeys = None, ht_ready = False, ht_privateKey = None,
      ht_aesKey = hc_AesKey config, ht_keysignRequests = []\<rparr>"

text \<open>The environment of the engine once the private key is known: \<open>NewEngine\<close> gets the signer and the default timeouts.\<close>

definition engine_env_of :: "('w, 'a, 'd, 'h, 's) heart_env \<Rightarrow> ('w, 'd, 'h, 's) Heart \<Rightarrow> ('w, 'a) engine_env" where
  "engine_env_of he h =
     (case ht_privateKey h of
        None \<Rightarrow> he_engine he
      | Some sk \<Rightarrow> (he_engine he)\<lparr>ee_Sign := signer_Sign he (NewDefaultSigner sk), ee_cfg := NewDefaultTimeoutConfig,
                      ee_idString := id_String (he_codec he)\<rparr>)"

definition on_engine ::
  "(('w, 'd) Engine \<Rightarrow> (('w, 'd) Engine, 'b) progress go) \<Rightarrow> ('w, 'd, 'h, 's) Heart \<Rightarrow>
   (('w, 'd, 'h, 's) Heart, 'b) progress go" where
  "on_engine f h =
     go_bind (go_deref (ht_engine h)) (\<lambda>e. go_bind (f e) (\<lambda>r.
       Ret (case r of Done e' b \<Rightarrow> Done (h\<lparr>ht_engine := Some e'\<rparr>) b | Stuck e' \<Rightarrow> Stuck (h\<lparr>ht_engine := Some e'\<rparr>))))"

subsection \<open>Start\<close>

text \<open>
  \<open>attempts i\<close> is the outcome of the \<open>i\<close>-th call of \<open>createDb\<close>: an error or none with the database, or a
  panic, which ends the loop (theory \<open>Database_Init\<close> has the attempts that \<open>createDb\<close> makes). The
  loop may never end: then it has no value.
\<close>

partial_function (option) create_db_loop :: "(nat \<Rightarrow> (string option \<times> 'd) go) \<Rightarrow> nat \<Rightarrow> 'd go option" where
  "create_db_loop attempts i =
     (case attempts i of
        Ret (None, d) \<Rightarrow> Some (Ret d)
      | Ret (Some err, d) \<Rightarrow> create_db_loop attempts (Suc i)
      | Panic p \<Rightarrow> Some (Panic p)
      | Hang \<Rightarrow> None)"

definition preparams_index :: "string \<Rightarrow> nat" where
  "preparams_index schema =
     (case map_of (map (\<lambda>i. (''dheart'' @ dec_of_nat i, i)) [0..<10]) schema of None \<Rightarrow> 0 | Some i \<Rightarrow> i)"

definition preloadPreparams :: "('w, 'a, 'd, 'h, 's) heart_env \<Rightarrow> HeartConfig \<Rightarrow> 'd \<Rightarrow> 'd go" where
  "preloadPreparams he cfg d =
     (case he_UnmarshalPreparams he (preparams_index (dc_Schema (hc_Db cfg))) of
        Inl err \<Rightarrow> Panic (Raised err)
      | Inr preparams \<Rightarrow> Ret (snd (db_SavePreparams (he_db he) (Some preparams) d)))"

definition prepare_params ::
  "('w, 'a, 'd, 'h, 's) heart_env \<Rightarrow> ('w, 'd, 'h, 's) Heart \<Rightarrow> 'd \<Rightarrow> (string option \<times> 'd) go" where
  "prepare_params he h d =
     (if hc_ShortcutPreparams (ht_config h)
      then go_bind (preloadPreparams he (ht_config h) d) (\<lambda>d'. Ret (None, d'))
      else case db_LoadPreparams (he_db he) d of
             Inr preparams \<Rightarrow> Ret (None, d)
           | Inl err \<Rightarrow>
               if err = ErrNotFound
               then case he_GeneratePreParams he of
                      Inl err \<Rightarrow> Ret (Some err, d)
                    | Inr preparams \<Rightarrow> Ret (db_SavePreparams (he_db he) (Some preparams) d)
               else Ret (Some err, d))"

definition heart_Start ::
  "('w, 'a, 'd, 'h, 's) heart_env \<Rightarrow> (nat \<Rightarrow> (string option \<times> 'd) go) \<Rightarrow> ('w, 'd, 'h, 's) Heart \<Rightarrow>
   (string option \<times> 'd) go option" where
  "heart_Start he attempts h = map_option (\<lambda>db. go_bind db (prepare_params he h)) (create_db_loop attempts 0)"

subsection \<open>Becoming part of the network\<close>

fun peer_pubkeys :: "Peer list \<Rightarrow> PubKey list go" where
  "peer_pubkeys [] = Ret []"
| "peer_pubkeys (peer # peers) =
     (case hex_DecodeString (pr_PubKey peer) of
        Inl err \<Rightarrow> peer_pubkeys peers
      | Inr bz \<Rightarrow>
          go_bind (GetCosmosPubKey (pr_PubKeyType peer) bz) (\<lambda>r.
            case r of
              Inl err \<Rightarrow> peer_pubkeys peers
            | Inr pubkey \<Rightarrow> go_bind (peer_pubkeys peers) (\<lambda>pubkeys. Ret (pubkey # pubkeys))))"

definition add_nodes ::
  "('w, 'a, 'd, 'h, 's) heart_env \<Rightarrow> PubKey list \<Rightarrow> ('w, 'd, 'h, 's) Heart \<Rightarrow> (('w, 'd, 'h, 's) Heart, Node list) progress go" where
  "add_nodes he keys h =
     go_bind (NewNodes (ee_lib (he_engine he)) (he_codec he) keys) (\<lambda>nodes.
       then_do (on_engine (\<lambda>e. Ret (AddNodes (engine_env_of he h) nodes e)) h) (\<lambda>h' _. Ret (Done h' nodes)))"

definition loadPeers ::
  "('w, 'a, 'd, 'h, 's) heart_env \<Rightarrow> 'd \<Rightarrow> ('w, 'd, 'h, 's) Heart \<Rightarrow> (('w, 'd, 'h, 's) Heart, 'd) progress go" where
  "loadPeers he d h =
     (let stored = db_LoadPeers (he_db he) d;
          configured = cc_Peers (hc_Connection (ht_config h));
          (peers, d') = (if stored = [] \<and> configured \<noteq> [] then (configured, snd (db_SavePeers (he_db he) configured d))
                         else (stored, d))
      in go_bind (peer_pubkeys peers) (\<lambda>pubkeys.
         then_do (add_nodes he pubkeys (h\<lparr>ht_valPubkeys := Some pubkeys\<rparr>)) (\<lambda>h' _. Ret (Done h' d'))))"

definition initConnectionManager ::
  "('w, 'a, 'd, 'h, 's) heart_env \<Rightarrow> 'd \<Rightarrow> ('w, 'd, 'h, 's) Heart \<Rightarrow>
   (('w, 'd, 'h, 's) Heart, string option \<times> 'd) progress go" where
  "initConnectionManager he d h =
     go_bind (go_deref (ht_privateKey h)) (\<lambda>privateKey.
     go_bind (he_PubKey he privateKey) (\<lambda>pubKey.
     go_bind (go_deref (NewNode (ee_lib (he_engine he)) (he_codec he) pubKey)) (\<lambda>myNode.
       let h1 = h\<lparr>ht_cm := Some (NewConnectionManager (hc_Connection (ht_config h))), ht_engine := Some (NewEngine myNode d)\<rparr> in
       then_do (case ht_valPubkeys h1 of
                  None \<Rightarrow> Ret (Done h1 [])
                | Some keys \<Rightarrow> add_nodes he keys h1) (\<lambda>h2 _.
       then_do (on_engine (\<lambda>e. go_bind (engine_Init (he_db he) e) (\<lambda>(err, e'). Ret (Done e' err))) h2) (\<lambda>h3 err.
         case err of
           Some err \<Rightarrow> Ret (Done h3 (Some err, d))
         | None \<Rightarrow>
             then_do (loadPeers he d h3) (\<lambda>h4 d'.
               go_bind (go_deref (ht_cm h4)) (\<lambda>cm.
               go_bind (cm_Start (he_p2p he) (sk_Bytes privateKey) (sk_Type privateKey) cm) (\<lambda>(err, cm').
                 Ret (Done (h4\<lparr>ht_cm := Some cm'\<rparr>) (err, d'))))))))))"

subsection \<open>Callbacks of the engine\<close>

definition heart_OnWorkKeygenFinished ::
  "KeygenResult \<Rightarrow> ('w, 'd, 'h, 's) Heart \<Rightarrow> client_call list \<times> ('w, 'd, 'h, 's) Heart" where
  "heart_OnWorkKeygenFinished result h = ([PostKeygenResult result], h)"

definition heart_OnWorkSigningFinished ::
  "WorkRequest \<Rightarrow> KeysignResult \<Rightarrow> ('w, 'd, 'h, 's) Heart \<Rightarrow> client_call list \<times> ('w, 'd, 'h, 's) Heart" where
  "heart_OnWorkSigningFinished request result h =
     (let clientRequest = gget (ht_keysignRequests h) (wr_WorkId request)
      in ([PostKeysignResult (result\<lparr>ks_Request := clientRequest\<rparr>)],
          h\<lparr>ht_keysignRequests := gdel (wr_WorkId request) (ht_keysignRequests h)\<rparr>))"

definition heart_OnWorkFailed ::
  "WorkRequest \<Rightarrow> party list \<Rightarrow> ('w, 'd, 'h, 's) Heart \<Rightarrow> client_call list \<times> ('w, 'd, 'h, 's) Heart" where
  "heart_OnWorkFailed request culprits h =
     (let clientRequest = gget (ht_keysignRequests h) (wr_WorkId request)
      in case wr_WorkType request of
           OtherWork \<Rightarrow> ([], h)
         | EcKeygen \<Rightarrow> ([PostKeygenResult (zero_KeygenResult\<lparr>kg_KeyType := wr_KeygenType request,
                           kg_Outcome := OutcomeFailure, kg_Culprits := culprits\<rparr>)], h)
         | EdKeygen \<Rightarrow> ([PostKeygenResult (zero_KeygenResult\<lparr>kg_KeyType := wr_KeygenType request,
                           kg_Outcome := OutcomeFailure, kg_Culprits := culprits\<rparr>)], h)
         | _ \<Rightarrow> ([PostKeysignResult (zero_KeysignResult\<lparr>ks_Request := clientRequest,
                   ks_Outcome := OutcomeFailure, ks_Culprits := culprits\<rparr>)], h))"

text \<open>How the heart reacts to one action of the engine; messages and the workers' own actions do not concern it.\<close>

fun heart_react :: "'a engine_action \<Rightarrow> ('w, 'd, 'h, 's) Heart \<Rightarrow> client_call list \<times> ('w, 'd, 'h, 's) Heart" where
  "heart_react (CbKeygenFinished result) h = heart_OnWorkKeygenFinished result h"
| "heart_react (CbSigningFinished request result) h = heart_OnWorkSigningFinished request result h"
| "heart_react (CbWorkFailed request culprits) h = heart_OnWorkFailed request culprits h"
| "heart_react (WriteToStream _ _) h = ([], h)"
| "heart_react (FromWorker _ _) h = ([], h)"

subsection \<open>Server API\<close>

text \<open>
  The argument of \<open>SetSisuReady\<close> is only logged. The flag is stored before the connection manager is
  used: on a heart without one the call panics and leaves the flag set, so the outcome comes with the
  state that the call leaves.
\<close>

definition heart_SetSisuReady :: "bool \<Rightarrow> ('w, 'd, 'h, 's) Heart \<Rightarrow> unit go \<times> ('w, 'd, 'h, 's) Heart" where
  "heart_SetSisuReady isReady h =
     (let h1 = h\<lparr>ht_ready := True\<rparr> in
      case ht_cm h1 of
        None \<Rightarrow> (Panic NilDereference, h1)
      | Some cm \<Rightarrow> (Ret (), h1\<lparr>ht_cm := Some (AddListener TSSProtocolID () cm)\<rparr>))"

definition SetBootstrappedKeys :: "PubKey list \<Rightarrow> ('w, 'd, 'h, 's) Heart \<Rightarrow> ('w, 'd, 'h, 's) Heart" where
  "SetBootstrappedKeys tPubKeys h = (if ht_valPubkeys h = None then h\<lparr>ht_valPubkeys := Some tPubKeys\<rparr> else h)"

definition heart_SetPrivKey ::
  "('w, 'a, 'd, 'h, 's) heart_env \<Rightarrow> string \<Rightarrow> string \<Rightarrow> 'd \<Rightarrow> ('w, 'd, 'h, 's) Heart \<Rightarrow>
   (('w, 'd, 'h, 's) Heart, string option \<times> 'd) progress go" where
  "heart_SetPrivKey he encryptedKey tendermintKeyType d h =
     (case hex_DecodeString encryptedKey of
        Inl err \<Rightarrow> Ret (Done h (Some err, d))
      | Inr encrypted \<Rightarrow>
          go_bind (AESDecrypt (he_aes he) encrypted (ht_aesKey h)) (\<lambda>r.
            case r of
              Inl err \<Rightarrow> Ret (Done h (Some err, d))
            | Inr decrypted \<Rightarrow>
                (case ht_privateKey h of
                   Some privateKey \<Rightarrow>
                     if decrypted \<noteq> sk_Bytes privateKey then Ret (Done h (Some ''The private key has been set!'', d))
                     else Ret (Done h (None, d))
                 | None \<Rightarrow>
                     if tendermintKeyType = ''ed25519'' \<or> tendermintKeyType = ''secp256k1''
                     then then_do (initConnectionManager he d
                                     (h\<lparr>ht_privateKey := Some \<lparr>sk_Type = tendermintKeyType, sk_Bytes = decrypted\<rparr>\<rparr>))
                            (\<lambda>h' (err, d'). Ret (Done h' (map_option (\<lambda>m. ''Failed to start heart, err = '' @ m) err, d')))
                     else Ret (Done h (Some (''Unsupported key type: '' @ tendermintKeyType), d)))))"

text \<open>The work request of a keygen; an unknown key type leaves a nil pointer.\<close>

definition keygen_request ::
  "('w, 'a, 'd, 'h, 's) heart_env \<Rightarrow> string \<Rightarrow> string \<Rightarrow> nat \<Rightarrow> Node list \<Rightarrow> WorkRequest option" where
  "keygen_request he workId keyType n nodes =
     (let lib = ee_lib (he_engine he); srt = SortPartyIDs lib (map nd_PartyId nodes) in
      if keyType = KEY_TYPE_ECDSA (he_chain he) then Some (NewEcKeygenRequest lib keyType workId srt (GetThreshold n) None)
      else if keyType = KEY_TYPE_EDDSA (he_chain he) then Some (NewEdKeygenRequest lib workId srt (GetThreshold n))
      else None)"

definition heart_Keygen ::
  "('w, 'a, 'd, 'h, 's) heart_env \<Rightarrow> string \<Rightarrow> string \<Rightarrow> PubKey list \<Rightarrow> ('w, 'd, 'h, 's) Heart \<Rightarrow>
   (('w, 'd, 'h, 's) Heart, string option \<times> 'a engine_action list) progress go" where
  "heart_Keygen he keygenId keyType tPubKeys h =
     (if \<not> ht_ready h then Ret (Done h (Some ErrDheartNotReady, []))
      else then_do (add_nodes he tPubKeys (h\<lparr>ht_valPubkeys := Some tPubKeys\<rparr>)) (\<lambda>h' nodes.
             go_bind (go_deref (keygen_request he keygenId keyType (length tPubKeys) nodes)) (\<lambda>request.
               on_engine (AddRequest (engine_env_of he h') request) h')))"

definition getKey :: "string \<Rightarrow> string \<Rightarrow> string \<Rightarrow> string" where
  "getKey requestType chain workdId = requestType @ ''__'' @ chain @ ''__'' @ workdId"

text \<open>The loop that hashes the ids of the messages into the work id.\<close>

definition keysign_work_id :: "('w, 'a, 'd, 'h, 's) heart_env \<Rightarrow> KeysignMessage list \<Rightarrow> string" where
  "keysign_work_id he msgs = fold (\<lambda>msg workId. KeccakHash32 (he_keccak he) (workId @ km_Id msg)) msgs ''''"

text \<open>
  The request of a keysign: \<open>Inl\<close> is an early return with its error, which is nil when the EdDSA key cannot be
  loaded; \<open>Inr None\<close> is the nil pointer of an unknown key type.
\<close>

definition keysign_request ::
  "('w, 'a, 'd, 'h, 's) heart_env \<Rightarrow> KeysignRequest \<Rightarrow> Node list \<Rightarrow> 'd \<Rightarrow> string option + WorkRequest option" where
  "keysign_request he req nodes d =
     (let lib = ee_lib (he_engine he); pids = map nd_PartyId nodes; workId = keysign_work_id he (kq_KeysignMessages req);
          signMessages = map km_BytesToSign (kq_KeysignMessages req); chns = map km_OutChain (kq_KeysignMessages req)
      in if kq_KeyType req = KEY_TYPE_ECDSA (he_chain he)
         then case db_LoadEcKeygen (he_db he) (kq_KeyType req) d of
                Inl err \<Rightarrow> Inl (Some err)
              | Inr presignInput \<Rightarrow>
                  Inr (Some (NewEcSigningRequest lib workId pids (GetThreshold (length pids)) (Some signMessages) (Some chns) presignInput))
         else if kq_KeyType req = KEY_TYPE_EDDSA (he_chain he)
         then case db_LoadEdKeygen (he_db he) (kq_KeyType req) d of
                Inl err \<Rightarrow> Inl None
              | Inr keygenData \<Rightarrow>
                  Inr (Some (NewEdSigningRequest lib workId pids (GetThreshold (length pids)) (Some signMessages) (Some chns) keygenData))
         else Inr None)"

definition heart_Keysign ::
  "('w, 'a, 'd, 'h, 's) heart_env \<Rightarrow> KeysignRequest \<Rightarrow> PubKey list \<Rightarrow> 'd \<Rightarrow> ('w, 'd, 'h, 's) Heart \<Rightarrow>
   (('w, 'd, 'h, 's) Heart, string option \<times> 'a engine_action list) progress go" where
  "heart_Keysign he req tPubKeys d h =
     (if \<not> ht_ready h then Ret (Done h (Some ErrDheartNotReady, []))
      else then_do (add_nodes he tPubKeys h) (\<lambda>h1 nodes.
             case keysign_request he req nodes d of
               Inl err \<Rightarrow> Ret (Done h1 (err, []))
             | Inr workRequest \<Rightarrow>
                 go_bind (go_deref workRequest) (\<lambda>workRequest.
                   then_do (on_engine (AddRequest (engine_env_of he h1) workRequest) h1) (\<lambda>h2 (err, acts).
                     Ret (Done (h2\<lparr>ht_keysignRequests := gput (wr_WorkId workRequest) req (ht_keysignRequests h2)\<rparr>)
                            (err, acts))))))"

text \<open>Presigning at the end of a block is switched off: the call returns at once.\<close>

definition heart_BlockEnd :: "int \<Rightarrow> ('w, 'd, 'h, 's) Heart \<Rightarrow> string option" where
  "heart_BlockEnd blockHeight h = None"

definition doPresign ::
  "('w, 'a, 'd, 'h, 's) heart_env \<Rightarrow> int \<Rightarrow> 'd \<Rightarrow> ('w, 'd, 'h, 's) Heart \<Rightarrow>
   (('w, 'd, 'h, 's) Heart, 'a engine_action list) progress go" where
  "doPresign he blockHeight d h =
     (let lib = ee_lib (he_engine he) in
      go_bind (NewNodes lib (he_codec he) (case ht_valPubkeys h of None \<Rightarrow> [] | Some keys \<Rightarrow> keys)) (\<lambda>nodes.
        let srt = SortPartyIDs lib (map nd_PartyId nodes);
            presignInput = (case db_LoadEcKeygen (he_db he) ''ecdsa'' d of Inl err \<Rightarrow> None | Inr x \<Rightarrow> x)
        in go_bind (go_deref (ht_engine h)) (\<lambda>e.
           if GetActiveWorkerCount e < MaxWorker
           then then_do (on_engine (AddRequest (engine_env_of he h)
                  (NewEcSigningRequest lib (''presign_'' @ ''ecdsa'' @ ''_'' @ dec_of_int blockHeight) srt
                     (GetThreshold (length srt)) None None presignInput)) h) (\<lambda>h' (err, acts). Ret (Done h' acts))
           else Ret (Done h []))))"

end
