(* ===== verification/Heart_Api.thy ===== *)
theory Heart_Api
  imports Heart Engine_Scheduling
begin

section \<open>What the heart guarantees to Sisu\<close>

text \<open>
  Requests built by different nodes agree; the private key is set once; every client request is
  answered once by a signing result; \<open>Start\<close> waits for the database.
\<close>

subsection \<open>Requests of different nodes agree\<close>

text \<open>The heart after it has told its engine about the nodes of a call.\<close>

definition with_nodes ::
  "('w, 'a, 'd, 'h, 's) heart_env \<Rightarrow> Node list \<Rightarrow> ('w, 'd, 'h, 's) Heart \<Rightarrow> ('w, 'd, 'h, 's) Heart" where
  "with_nodes he nodes h =
     h\<lparr>ht_engine := map_option (\<lambda>e. state_of (AddNodes (engine_env_of he h) nodes e)) (ht_engine h)\<rparr>"

definition engine_free :: "('w, 'd, 'h, 's) Heart \<Rightarrow> bool" where
  "engine_free h \<longleftrightarrow> (\<exists>e. ht_engine h = Some e \<and> en_leaked e = 0 \<and> \<not> en_writer e)"

lemma engine_env_of_cong: "ht_privateKey h' = ht_privateKey h \<Longrightarrow> engine_env_of he h' = engine_env_of he h"
  by (simp add: engine_env_of_def)

lemma with_nodes_sel [simp]:
  "ht_privateKey (with_nodes he nodes h) = ht_privateKey h"
  "ht_keysignRequests (with_nodes he nodes h) = ht_keysignRequests h"
  by (simp_all add: with_nodes_def)

lemma add_nodes_free:
  assumes "engine_free h" and "NewNodes (ee_lib (he_engine he)) (he_codec he) keys = Ret nodes"
  shows "add_nodes he keys h = Ret (Done (with_nodes he nodes h) nodes)"
  using assms by (auto simp: engine_free_def add_nodes_def on_engine_def then_do_def AddNodes_def with_nodes_def go_simps)

lemma heart_Keygen_eq:
  assumes "ht_ready h" and "engine_free h" and "NewNodes (ee_lib (he_engine he)) (he_codec he) keys = Ret nodes"
    and "keygen_request he keygenId keyType (length keys) nodes = Some r"
  shows "heart_Keygen he keygenId keyType keys h =
    on_engine (AddRequest (engine_env_of he h) r) (with_nodes he nodes (h\<lparr>ht_valPubkeys := Some keys\<rparr>))"
proof -
  have "engine_free (h\<lparr>ht_valPubkeys := Some keys\<rparr>)" using assms(2) by (simp add: engine_free_def)
  from add_nodes_free [OF this assms(3)] show ?thesis
    using assms(1,4) engine_env_of_cong [of "with_nodes he nodes (h\<lparr>ht_valPubkeys := Some keys\<rparr>)" h he]
    by (simp add: heart_Keygen_def then_do_def go_simps)
qed

lemma baseRequest_parties:
  assumes "tss_parties lib"
  shows "map p_Index (wr_AllParties (baseRequest lib wt wid n t ps b)) = map int [0..<length ps]"
    and "mset (map p_Id (wr_AllParties (baseRequest lib wt wid n t ps b))) = mset (map p_Id ps)"
proof -
  let ?qs = "map (\<lambda>pid. NewPartyID lib (p_Id pid) (p_Moniker pid) (p_Key pid)) ps"
  show "map p_Index (wr_AllParties (baseRequest lib wt wid n t ps b)) = map int [0..<length ps]"
    by (rule nth_equalityI) (simp_all add: baseRequest_def tss_parties.sort_index [OF assms] tss_parties.sort_length [OF assms])
  have "p_Id (NewPartyID lib i mo k) = i" for i mo k
    using tss_parties.new_person [OF assms, of i mo k] by (simp add: person_def)
  then show "mset (map p_Id (wr_AllParties (baseRequest lib wt wid n t ps b))) = mset (map p_Id ps)"
    using tss_parties.sort_ids [OF assms, of ?qs] by (simp add: baseRequest_def comp_def)
qed

lemma threshold_range: "1 \<le> n \<Longrightarrow> 0 \<le> GetThreshold n \<and> GetThreshold n < int n"
  unfolding GetThreshold_def by (auto simp: algebra_simps)

definition same_network :: "('w, 'a, 'd, 'h, 's) heart_env \<Rightarrow> ('w, 'a, 'd, 'h, 's) heart_env \<Rightarrow> bool" where
  "same_network he he' \<longleftrightarrow>
     ee_lib (he_engine he') = ee_lib (he_engine he) \<and> he_codec he' = he_codec he \<and> he_chain he' = he_chain he \<and>
     he_keccak he' = he_keccak he"

lemma keygen_request_network: "same_network he he' \<Longrightarrow> keygen_request he' = keygen_request he"
proof -
  assume "same_network he he'"
  then have lib: "ee_lib (he_engine he') = ee_lib (he_engine he)" and chain: "he_chain he' = he_chain he"
    by (simp_all add: same_network_def)
  show "keygen_request he' = keygen_request he" by (intro ext) (simp only: keygen_request_def lib chain Let_def cong: if_cong)
qed

text \<open>
  C6. A keygen is the same work on every node. Two nodes that are ready, whose engine locks are free, and
  that are told the same keys, in any order, for a key type they know (ECDSA or EdDSA), hand their
  engines the same request: the same work id, the same \<open>n\<close> parties numbered from 0, one for each key, and
  the same threshold \<open>t\<close>, the one \<open>GetThreshold\<close> gives for \<open>n\<close>, with \<open>0 \<le> t < n\<close>. The keys have
  pairwise different values, there is at least one, and each of them makes a node; both nodes use the
  same libraries.
\<close>

theorem Keygen_agree:
  assumes lib: "tss_parties (ee_lib (he_engine he))" and net: "same_network he he'"
    and nodes: "NewNodes (ee_lib (he_engine he)) (he_codec he) keys = Ret nodes"
    and keys: "mset keys' = mset keys" "distinct (map (\<lambda>k. SetBytes (pk_Bytes k)) keys)" "keys \<noteq> []"
    and kt: "keyType = KEY_TYPE_ECDSA (he_chain he) \<or> keyType = KEY_TYPE_EDDSA (he_chain he)"
    and h: "ht_ready h" "engine_free h" and h': "ht_ready h'" "engine_free h'"
  shows "\<exists>r. heart_Keygen he keygenId keyType keys h =
        on_engine (AddRequest (engine_env_of he h) r) (with_nodes he nodes (h\<lparr>ht_valPubkeys := Some keys\<rparr>)) \<and>
      heart_Keygen he' keygenId keyType keys' h' =
        on_engine (AddRequest (engine_env_of he' h') r) (with_nodes he' nodes (h'\<lparr>ht_valPubkeys := Some keys'\<rparr>)) \<and>
      IsKeygen r \<and> wr_WorkId r = keygenId \<and> wr_N r = int (length keys) \<and>
      map p_Index (wr_AllParties r) = map int [0..<length keys] \<and>
      mset (map p_Id (wr_AllParties r)) = mset (map (\<lambda>n. p_Id (nd_PartyId n)) nodes) \<and>
      mset (map nd_PubKey nodes) = mset keys \<and>
      wr_Threshold r = GetThreshold (length keys) \<and> 0 \<le> wr_Threshold r \<and> wr_Threshold r < wr_N r"
proof -
  let ?lib = "ee_lib (he_engine he)"
  let ?srt = "SortPartyIDs ?lib (map nd_PartyId nodes)"
  note agree = nodes_agree [OF lib nodes keys(1,2)]
  have len: "length keys' = length keys" "length nodes = length keys"
    using keys(1) agree by (metis mset_eq_length, metis length_map mset_eq_length)
  obtain r where r: "keygen_request he keygenId keyType (length keys) nodes = Some r"
    and ident: "wr_WorkId r = keygenId" "wr_N r = int (length keys)" "wr_Threshold r = GetThreshold (length keys)" "IsKeygen r"
    and parties: "\<exists>wt b. wr_AllParties r = wr_AllParties (baseRequest ?lib wt keygenId (int (length keys)) (GetThreshold (length keys)) ?srt b)"
  proof
    define r where "r = the (keygen_request he keygenId keyType (length keys) nodes)"
    show "keygen_request he keygenId keyType (length keys) nodes = Some r"
      using kt by (auto simp: r_def keygen_request_def Let_def)
    show "wr_WorkId r = keygenId" "wr_N r = int (length keys)" "wr_Threshold r = GetThreshold (length keys)" "IsKeygen r"
      using kt len(2) by (auto simp: r_def keygen_request_def Let_def NewEcKeygenRequest_def NewEdKeygenRequest_def
          baseRequest_def IsKeygen_def tss_parties.sort_length [OF lib])
    show "\<exists>wt b. wr_AllParties r = wr_AllParties (baseRequest ?lib wt keygenId (int (length keys)) (GetThreshold (length keys)) ?srt b)"
      using kt by (auto simp: r_def keygen_request_def Let_def NewEcKeygenRequest_def NewEdKeygenRequest_def baseRequest_def)
  qed
  have r': "keygen_request he' keygenId keyType (length keys') nodes = Some r"
    and nodes': "NewNodes (ee_lib (he_engine he')) (he_codec he') keys' = Ret nodes"
    using r net len agree keygen_request_network [OF net] by (simp_all add: same_network_def)
  have "map p_Index (wr_AllParties r) = map int [0..<length keys]"
    "mset (map p_Id (wr_AllParties r)) = mset (map p_Id ?srt)"
    using parties baseRequest_parties [OF lib] len(2) tss_parties.sort_length [OF lib] by auto
  moreover have "mset (map p_Id ?srt) = mset (map (\<lambda>n. p_Id (nd_PartyId n)) nodes)"
    using tss_parties.sort_ids [OF lib, of "map nd_PartyId nodes"] by (simp add: comp_def)
  moreover have "1 \<le> length keys" using keys(3) by (cases keys) auto
  note threshold_range [OF this]
  ultimately show ?thesis
    using heart_Keygen_eq [OF h nodes r] heart_Keygen_eq [OF h' nodes' r'] ident agree by (intro exI [of _ r]) simp
qed

subsection \<open>An idle node starts the work\<close>

lemma number_nodes_ids:
  "n \<in> set (number_nodes nodes srt) \<Longrightarrow> \<exists>m \<in> set nodes. nd_PeerId n = nd_PeerId m \<and> p_Id (nd_PartyId n) = p_Id (nd_PartyId m)"
proof (induction nodes arbitrary: srt)
  case (Cons a nodes)
  show ?case
  proof (cases "find (\<lambda>p. person p = person (nd_PartyId a)) srt")
    case None
    then show ?thesis using Cons by auto
  next
    case (Some p)
    then have "p_Id p = p_Id (nd_PartyId a)" using find_SomeD [OF Some] by (simp add: person_def)
    then show ?thesis using Cons Some by fastforce
  qed
qed simp

lemma NewNodes_ids:
  assumes "tss_parties lib" and "NewNodes lib kc keys = Ret nodes" and "n \<in> set nodes"
  shows "p_Id (nd_PartyId n) = id_String kc (nd_PeerId n)"
proof -
  obtain ns where ns: "new_nodes lib kc keys = Ret ns"
    and "nodes = sort_key (\<lambda>node. p_Index (nd_PartyId node)) (number_nodes ns (SortPartyIDs lib (map nd_PartyId ns)))"
    using assms(2) by (auto simp: NewNodes_def go_bind_eq_Ret_iff)
  then obtain m where m: "m \<in> set ns" "nd_PeerId n = nd_PeerId m" "p_Id (nd_PartyId n) = p_Id (nd_PartyId m)"
    using assms(3) number_nodes_ids by fastforce
  have "Some m \<in> set (map (NewNode lib kc) keys)"
    using m(1) ns by (metis image_eqI list.set_map new_nodes_Ret)
  then obtain k where "NewNode lib kc k = Some m" by auto
  from NewNode_fields(2) [OF this] have "person (nd_PartyId m) = (id_String kc (nd_PeerId m), '''', int (SetBytes (pk_Bytes k)))"
    using tss_parties.new_person [OF assms(1)] by metis
  then show ?thesis using m(2,3) by (simp add: person_def)
qed

lemma gget_fold_gput: "n \<in> set ns \<or> gget m (f n) \<noteq> None \<Longrightarrow> gget (fold (\<lambda>x. gput (f x) x) ns m) (f n) \<noteq> None"
  by (induction ns arbitrary: m) (auto split: if_splits)

lemma AddRequest_idle:
  assumes "growth (ee_grow env)" and ok: "engine_ok e" and "\<not> en_writer e"
    and idle: "pending (en_requestQueue e) = []" "length (en_workers e) < MaxWorker"
    and start: "can_start env r" and known: "parties_known e r"
  obtains acts e' where "AddRequest env r e = Ret (Done e' (None, acts))"
    and "gkeys (en_workers e') = insert (wr_WorkId r) (gkeys (en_workers e))" and "pending (en_requestQueue e') = []"
proof -
  have wk: "gmap_ok (en_workers e)" "rq_ok (en_requestQueue e)" using ok by (simp_all add: engine_ok_def)
  define q where "q = fst (AddWork (ee_grow env) (en_requestQueue e) r)"
  have add: "AddWork (ee_grow env) (en_requestQueue e) r = (q, True)" "rq_ok q" "pending q = [r]"
    using growth.AddWork_pending [OF assms(1) wk(2), of r] add_pending_last [of "[]" r] idle(1)
    by (auto simp: q_def prod_eq_iff)
  have "engine_ok (e\<lparr>en_requestQueue := q\<rparr>)" using ok add(2) by (simp add: engine_ok_def)
  moreover have "\<forall>r \<in> set (pending (en_requestQueue (e\<lparr>en_requestQueue := q\<rparr>))). can_start env r" using add(3) start by simp
  ultimately obtain acts e' where e': "startNextWork env (e\<lparr>en_requestQueue := q\<rparr>) = Ret (acts, e')"
    "(gkeys (en_workers e'), pending (en_requestQueue e')) = (insert (wr_WorkId r) (gkeys (en_workers e)), [])"
    by (rule startNextWork_spec) (use idle(2) length_gmap [OF wk(1)] add(3) in \<open>auto split: if_splits\<close>)
  have "Validate r = None" using start by (simp add: can_start_def del: Validate.simps)
  then have "AddRequest env r e = Ret (Done e' (None, acts))"
    using add(1) e'(1) unknown_party_known [OF known assms(3)] by (simp add: AddRequest_def then_do_def del: Validate.simps)
  with that e'(2) show thesis by simp
qed

definition idle_heart :: "('w, 'd, 'h, 's) Heart \<Rightarrow> bool" where
  "idle_heart h \<longleftrightarrow> ht_ready h \<and> engine_free h \<and> ht_privateKey h \<noteq> None \<and>
     (\<forall>e. ht_engine h = Some e \<longrightarrow> engine_ok e \<and> pending (en_requestQueue e) = [] \<and> length (en_workers e) < MaxWorker)"

text \<open>Whatever request names the parties of the nodes just added is started.\<close>

lemma submit_idle:
  assumes lib: "tss_parties (ee_lib (he_engine he))" and nodes: "NewNodes (ee_lib (he_engine he)) (he_codec he) keys = Ret nodes"
    and env: "growth (ee_grow (he_engine he))" "ee_worker (he_engine he) = default_worker_ops wenv ord now m"
    and h: "idle_heart h" and r: "Validate r = None" "wr_AllParties r \<noteq> []"
      "set (map p_Id (wr_AllParties r)) \<subseteq> set (map (\<lambda>n. p_Id (nd_PartyId n)) nodes)"
  obtains h' e' acts where "on_engine (AddRequest (engine_env_of he h) r) (with_nodes he nodes h) = Ret (Done h' (None, acts))"
    and "ht_engine h' = Some e'" and "wr_WorkId r \<in> gkeys (en_workers e')" and "pending (en_requestQueue e') = []"
proof -
  let ?env = "engine_env_of he h"
  obtain e where e: "ht_engine h = Some e" "en_leaked e = 0" "\<not> en_writer e" and ok: "engine_ok e"
    and idle: "pending (en_requestQueue e) = []" "length (en_workers e) < MaxWorker"
    using h by (auto simp: idle_heart_def engine_free_def)
  have envs: "ee_grow ?env = ee_grow (he_engine he)" "ee_worker ?env = ee_worker (he_engine he)"
    "ee_idString ?env = id_String (he_codec he)"
    using h by (auto simp: engine_env_of_def idle_heart_def)
  define e1 where "e1 = e\<lparr>en_nodes := fold (\<lambda>node. gput (ee_idString ?env (nd_PeerId node)) node) nodes (en_nodes e)\<rparr>"
  have with_e1: "with_nodes he nodes h = h\<lparr>ht_engine := Some e1\<rparr>"
    using e by (simp add: with_nodes_def AddNodes_def e1_def)
  have known: "parties_known e1 r"
    unfolding parties_known_def
  proof
    fix p assume "p \<in> set (wr_AllParties r)"
    then have "p_Id p \<in> (\<lambda>n. p_Id (nd_PartyId n)) ` set nodes" using r(3) by auto
    then obtain n where n: "n \<in> set nodes" "p_Id p = p_Id (nd_PartyId n)" by blast
    have "p_Id p = ee_idString ?env (nd_PeerId n)"
      unfolding n(2) envs(3) by (rule NewNodes_ids [OF lib nodes n(1)])
    then show "gget (en_nodes e1) (p_Id p) \<noteq> None \<or> p_Id p = p_Id (en_myPid e1)"
      using n(1) gget_fold_gput [of n nodes "en_nodes e" "\<lambda>n. ee_idString ?env (nd_PeerId n)"] by (simp add: e1_def)
  qed
  have start: "can_start ?env r" by (rule default_can_start [OF _ r(1,2)]) (simp add: envs(2) env(2))
  have still: "engine_ok e1" "\<not> en_writer e1" "pending (en_requestQueue e1) = []" "length (en_workers e1) < MaxWorker"
    using ok e(3) idle by (simp_all add: e1_def engine_ok_def)
  have "growth (ee_grow ?env)" using env(1) envs(1) by simp
  from AddRequest_idle [OF this still start known] obtain acts e' where "AddRequest ?env r e1 = Ret (Done e' (None, acts))"
    "gkeys (en_workers e') = insert (wr_WorkId r) (gkeys (en_workers e1))" "pending (en_requestQueue e') = []" .
  then show thesis using that with_e1 by (auto simp: on_engine_def go_simps)
qed

lemma NewNodes_length: "NewNodes lib kc keys = Ret nodes \<Longrightarrow> length nodes = length keys"
proof -
  assume "NewNodes lib kc keys = Ret nodes"
  then obtain ns where ns: "map Some ns = map (NewNode lib kc) keys"
    and "nodes = sort_key (\<lambda>node. p_Index (nd_PartyId node)) (number_nodes ns (SortPartyIDs lib (map nd_PartyId ns)))"
    by (auto simp: NewNodes_def go_bind_eq_Ret_iff new_nodes_Ret)
  moreover have "length (number_nodes ns srt) = length ns" for srt
    by (induction ns arbitrary: srt) (auto split: option.splits)
  moreover have "length ns = length keys" using ns by (metis length_map)
  ultimately show "length nodes = length keys" by simp
qed

lemma baseRequest_nodes:
  assumes "tss_parties lib" and "nodes \<noteq> []"
    and "wr_AllParties r = wr_AllParties (baseRequest lib wt wid n t ps b)"
    and "mset (map p_Id ps) = mset (map (\<lambda>n. p_Id (nd_PartyId n)) nodes)"
  shows "wr_AllParties r \<noteq> []" and "set (map p_Id (wr_AllParties r)) \<subseteq> set (map (\<lambda>n. p_Id (nd_PartyId n)) nodes)"
proof -
  have "mset (map p_Id (wr_AllParties r)) = mset (map (\<lambda>n. p_Id (nd_PartyId n)) nodes)"
    unfolding assms(3) baseRequest_parties(2) [OF assms(1)] assms(4) ..
  from mset_eq_setD [OF this] show "wr_AllParties r \<noteq> []"
    "set (map p_Id (wr_AllParties r)) \<subseteq> set (map (\<lambda>n. p_Id (nd_PartyId n)) nodes)"
    using assms(2) by auto
qed

lemma keygen_request_parties:
  assumes lib: "tss_parties (ee_lib (he_engine he))" and "nodes \<noteq> []"
    and "keyType = KEY_TYPE_ECDSA (he_chain he) \<or> keyType = KEY_TYPE_EDDSA (he_chain he)"
  obtains r where "keygen_request he keygenId keyType n nodes = Some r" "Validate r = None" "wr_WorkId r = keygenId"
    "wr_AllParties r \<noteq> []" "set (map p_Id (wr_AllParties r)) \<subseteq> set (map (\<lambda>n. p_Id (nd_PartyId n)) nodes)"
proof -
  let ?lib = "ee_lib (he_engine he)"
  define r where "r = the (keygen_request he keygenId keyType n nodes)"
  have r: "keygen_request he keygenId keyType n nodes = Some r" "Validate r = None" "wr_WorkId r = keygenId"
    "\<exists>wt b t m. wr_AllParties r =
       wr_AllParties (baseRequest ?lib wt keygenId m t (SortPartyIDs ?lib (map nd_PartyId nodes)) b)"
    using assms(3)
    by (auto simp: r_def keygen_request_def Let_def NewEcKeygenRequest_def NewEdKeygenRequest_def baseRequest_def)
  have "mset (map p_Id (SortPartyIDs ?lib (map nd_PartyId nodes))) = mset (map (\<lambda>n. p_Id (nd_PartyId n)) nodes)"
    using tss_parties.sort_ids [OF lib, of "map nd_PartyId nodes"] by (simp add: comp_def)
  with r that baseRequest_nodes [OF lib assms(2)] show thesis by blast
qed

lemma ec_keysign_request:
  assumes lib: "tss_parties (ee_lib (he_engine he))" and "nodes \<noteq> []"
    and "kq_KeyType q = KEY_TYPE_ECDSA (he_chain he)" and "db_LoadEcKeygen (he_db he) (kq_KeyType q) d = Inr share"
  obtains r where "keysign_request he q nodes d = Inr (Some r)" "Validate r = None"
    "wr_WorkId r = keysign_work_id he (kq_KeysignMessages q)"
    "wr_AllParties r \<noteq> []" "set (map p_Id (wr_AllParties r)) \<subseteq> set (map (\<lambda>n. p_Id (nd_PartyId n)) nodes)"
proof -
  let ?r = "NewEcSigningRequest (ee_lib (he_engine he)) (keysign_work_id he (kq_KeysignMessages q)) (map nd_PartyId nodes)
    (GetThreshold (length nodes)) (Some (map km_BytesToSign (kq_KeysignMessages q))) (Some (map km_OutChain (kq_KeysignMessages q))) share"
  have r: "keysign_request he q nodes d = Inr (Some ?r)" "Validate ?r = None"
    "wr_WorkId ?r = keysign_work_id he (kq_KeysignMessages q)"
    "\<exists>wt b t n. wr_AllParties ?r = wr_AllParties (baseRequest (ee_lib (he_engine he)) wt
       (keysign_work_id he (kq_KeysignMessages q)) n t (map nd_PartyId nodes) b)"
    using assms(3,4) by (auto simp: keysign_request_def Let_def NewEcSigningRequest_def baseRequest_def)
  have "mset (map p_Id (map nd_PartyId nodes)) = mset (map (\<lambda>n. p_Id (nd_PartyId n)) nodes)" by (simp add: comp_def)
  with r that baseRequest_nodes [OF lib assms(2)] show thesis by blast
qed

lemma idle_starts:
  assumes lib: "tss_parties (ee_lib (he_engine he))" and nodes: "NewNodes (ee_lib (he_engine he)) (he_codec he) keys = Ret nodes"
    and env: "growth (ee_grow (he_engine he))" "ee_worker (he_engine he) = default_worker_ops wenv ord now m"
    and h: "idle_heart h" and keys: "keys \<noteq> []"
    and kt: "keyType = KEY_TYPE_ECDSA (he_chain he) \<or> keyType = KEY_TYPE_EDDSA (he_chain he)"
    and q: "kq_KeyType q = KEY_TYPE_ECDSA (he_chain he)" "db_LoadEcKeygen (he_db he) (kq_KeyType q) d = Inr share"
  shows "(\<exists>h' e' acts. heart_Keygen he keygenId keyType keys h = Ret (Done h' (None, acts)) \<and>
        ht_engine h' = Some e' \<and> keygenId \<in> gkeys (en_workers e')) \<and>
     (\<exists>h' e' acts. heart_Keysign he q keys d h = Ret (Done h' (None, acts)) \<and>
        ht_engine h' = Some e' \<and> keysign_work_id he (kq_KeysignMessages q) \<in> gkeys (en_workers e') \<and>
        pending (en_requestQueue e') = [])"
proof
  have nonempty: "nodes \<noteq> []" using NewNodes_length [OF nodes] keys by auto
  have free: "ht_ready h" "engine_free h" using h by (simp_all add: idle_heart_def)
  obtain r where r: "keygen_request he keygenId keyType (length keys) nodes = Some r" "Validate r = None" "wr_WorkId r = keygenId"
    "wr_AllParties r \<noteq> []" "set (map p_Id (wr_AllParties r)) \<subseteq> set (map (\<lambda>n. p_Id (nd_PartyId n)) nodes)"
    using keygen_request_parties [OF lib nonempty kt] .
  let ?h = "h\<lparr>ht_valPubkeys := Some keys\<rparr>"
  have "idle_heart ?h" using h by (simp add: idle_heart_def engine_free_def)
  from submit_idle [OF lib nodes env this r(2,4,5)]
  show "\<exists>h' e' acts. heart_Keygen he keygenId keyType keys h = Ret (Done h' (None, acts)) \<and>
      ht_engine h' = Some e' \<and> keygenId \<in> gkeys (en_workers e')"
    using heart_Keygen_eq [OF free nodes r(1)] r(3) engine_env_of_cong [of ?h h he] by (metis Heart.select_convs(6) Heart.surjective Heart.update_convs(4))
next
  have nonempty: "nodes \<noteq> []" using NewNodes_length [OF nodes] keys by auto
  have free: "ht_ready h" "engine_free h" using h by (simp_all add: idle_heart_def)
  obtain r where r: "keysign_request he q nodes d = Inr (Some r)" "Validate r = None"
    "wr_WorkId r = keysign_work_id he (kq_KeysignMessages q)"
    "wr_AllParties r \<noteq> []" "set (map p_Id (wr_AllParties r)) \<subseteq> set (map (\<lambda>n. p_Id (nd_PartyId n)) nodes)"
    using ec_keysign_request [OF lib nonempty q] .
  obtain h' e' acts where "on_engine (AddRequest (engine_env_of he h) r) (with_nodes he nodes h) = Ret (Done h' (None, acts))"
    "ht_engine h' = Some e'" "wr_WorkId r \<in> gkeys (en_workers e')" "pending (en_requestQueue e') = []"
    using submit_idle [OF lib nodes env h r(2,4,5)] .
  then show "\<exists>h' e' acts. heart_Keysign he q keys d h = Ret (Done h' (None, acts)) \<and>
      ht_engine h' = Some e' \<and> keysign_work_id he (kq_KeysignMessages q) \<in> gkeys (en_workers e') \<and>
        pending (en_requestQueue e') = []"
    using add_nodes_free [OF free(2) nodes] free(1) r(1,3) engine_env_of_cong [of "with_nodes he nodes h" h he]
    by (simp add: heart_Keysign_def then_do_def go_simps)
qed

text \<open>
  C10. A node that is ready, has its private key, whose engine has a free worker and nothing waiting and whose
  engine lock is free (no call has returned with it, no writer waits for it), and that runs the default
  workers, starts the work it is asked for: a keygen call of a known key type, and an ECDSA keysign
  call when the key share can be loaded, both with a non-empty list of keys that make nodes, return
  without an error and leave a worker with the work id running. No panic and no unknown party stops
  them.
\<close>

theorem idle_node_starts_work:
  assumes lib: "tss_parties (ee_lib (he_engine he))" and nodes: "NewNodes (ee_lib (he_engine he)) (he_codec he) keys = Ret nodes"
    and env: "growth (ee_grow (he_engine he))" "ee_worker (he_engine he) = default_worker_ops wenv ord now m"
    and h: "idle_heart h" and keys: "keys \<noteq> []"
    and kt: "keyType = KEY_TYPE_ECDSA (he_chain he) \<or> keyType = KEY_TYPE_EDDSA (he_chain he)"
    and q: "kq_KeyType q = KEY_TYPE_ECDSA (he_chain he)" "db_LoadEcKeygen (he_db he) (kq_KeyType q) d = Inr share"
  shows "(\<exists>h' e' acts. heart_Keygen he keygenId keyType keys h = Ret (Done h' (None, acts)) \<and>
        ht_engine h' = Some e' \<and> keygenId \<in> gkeys (en_workers e')) \<and>
     (\<exists>h' e' acts. heart_Keysign he q keys d h = Ret (Done h' (None, acts)) \<and>
        ht_engine h' = Some e' \<and> keysign_work_id he (kq_KeysignMessages q) \<in> gkeys (en_workers e'))"
  using idle_starts [OF assms] by blast

subsection \<open>The private key is set once\<close>

definition same_key :: "('w, 'd, 'h, 's) Heart \<Rightarrow> ('w, 'd, 'h, 's) Heart \<Rightarrow> bool" where
  "same_key h h' \<longleftrightarrow> ht_privateKey h' = ht_privateKey h \<and> ht_aesKey h' = ht_aesKey h"

lemma same_key_trans: "same_key a b \<Longrightarrow> same_key b c \<Longrightarrow> same_key a c"
  by (simp add: same_key_def)

lemma same_key_updates [simp]:
  "same_key h (h\<lparr>ht_valPubkeys := v\<rparr>)" "same_key h (h\<lparr>ht_cm := c\<rparr>)"
  "same_key h (h\<lparr>ht_cm := c, ht_engine := e\<rparr>)" "same_key h h"
  by (simp_all add: same_key_def)

lemma same_key_fresh: "same_key (h\<lparr>ht_cm := c, ht_engine := e\<rparr>) x \<Longrightarrow> same_key h x"
  by (simp add: same_key_def)

lemma on_engine_state: "on_engine f h = Ret r \<Longrightarrow> \<exists>e'. state_of r = h\<lparr>ht_engine := Some e'\<rparr>"
proof -
  assume "on_engine f h = Ret r"
  then obtain x where "r = (case x of Done e' b \<Rightarrow> Done (h\<lparr>ht_engine := Some e'\<rparr>) b | Stuck e' \<Rightarrow> Stuck (h\<lparr>ht_engine := Some e'\<rparr>))"
    by (auto simp: on_engine_def go_bind_eq_Ret_iff)
  then show "\<exists>e'. state_of r = h\<lparr>ht_engine := Some e'\<rparr>" by (cases x) auto
qed

lemma same_key_on_engine: "on_engine f h = Ret r \<Longrightarrow> same_key h (state_of r)"
  by (auto simp: same_key_def dest!: on_engine_state)

lemma same_key_then:
  assumes "then_do m f = Ret r" and "\<And>x. m = Ret x \<Longrightarrow> same_key h (state_of x)"
    and "\<And>h1 b. m = Ret (Done h1 b) \<Longrightarrow> f h1 b = Ret r \<Longrightarrow> same_key h1 (state_of r)"
  shows "same_key h (state_of r)"
  using assms(1) assms(2) [of "Stuck _"] assms(2) [of "Done _ _"] assms(3) unfolding then_do_Ret
  by (auto intro: same_key_trans)

lemma same_key_add_nodes: "add_nodes he keys h = Ret r \<Longrightarrow> same_key h (state_of r)"
  by (auto simp: add_nodes_def go_bind_eq_Ret_iff elim!: same_key_then dest: same_key_on_engine)

lemma same_key_loadPeers: "loadPeers he d h = Ret r \<Longrightarrow> same_key h (state_of r)"
  by (auto simp: loadPeers_def Let_def go_bind_eq_Ret_iff split: if_split_asm elim!: same_key_then dest!: same_key_add_nodes
      intro: same_key_trans [OF same_key_updates(1)])

lemma same_key_init: "initConnectionManager he d h = Ret r \<Longrightarrow> same_key h (state_of r)"
  by (auto simp: initConnectionManager_def Let_def ret_iffs split: option.split_asm elim!: same_key_then
      dest!: same_key_add_nodes same_key_on_engine same_key_loadPeers same_key_fresh)
lemma SetPrivKey_decrypted:
  assumes "AESDEncrypt (he_aes he) (\<lambda>_. Inr nonce) key (ht_aesKey h) = Ret (Inr enc)"
  shows "hex_DecodeString (hex_EncodeToString enc) = Inr enc \<and> AESDecrypt (he_aes he) enc (ht_aesKey h) = Ret (Inr key)"
  using assms decrypts_iff by (auto simp: hex_roundtrip)

text \<open>
  C18. Sisu's private key arrives and is set once. When Sisu sends the key encrypted with the shared AES
  key and in hexadecimal, and the heart comes up (\<open>initConnectionManager\<close> returns), the heart has
  this very key, of the type Sisu named. From then on the key does not change: the same key sent
  again, with whatever nonce and type, is accepted and changes nothing, even when the first call
  had returned an error and the network was never started; another key is refused.
\<close>

theorem SetPrivKey_once:
  assumes fresh: "ht_privateKey h = None" and kt: "keyType = ''ed25519'' \<or> keyType = ''secp256k1''"
    and enc: "AESDEncrypt (he_aes he) (\<lambda>_. Inr nonce) key (ht_aesKey h) = Ret (Inr enc)"
    and up: "initConnectionManager he d (h\<lparr>ht_privateKey := Some \<lparr>sk_Type = keyType, sk_Bytes = key\<rparr>\<rparr>) = Ret (Done h1 (err, d1))"
    and again: "AESDEncrypt (he_aes he) (\<lambda>_. Inr nonce') key' (ht_aesKey h) = Ret (Inr enc')"
  shows "heart_SetPrivKey he (hex_EncodeToString enc) keyType d h =
        Ret (Done h1 (map_option ((@) ''Failed to start heart, err = '') err, d1)) \<and>
      ht_privateKey h1 = Some \<lparr>sk_Type = keyType, sk_Bytes = key\<rparr> \<and>
      heart_SetPrivKey he (hex_EncodeToString enc') keyType' d2 h1 =
        Ret (Done h1 (if key' = key then None else Some ''The private key has been set!'', d2))"
proof -
  have kept: "ht_privateKey h1 = Some \<lparr>sk_Type = keyType, sk_Bytes = key\<rparr>" "ht_aesKey h1 = ht_aesKey h"
    using same_key_init [OF up] by (simp_all add: same_key_def)
  show ?thesis
    using SetPrivKey_decrypted [OF enc] SetPrivKey_decrypted [OF again] kept fresh kt up
    by (simp add: heart_SetPrivKey_def then_do_def)
qed

subsection \<open>Starting\<close>

text \<open>An attempt that ended with an error, after which the loop sleeps and tries again.\<close>

fun failed_attempt :: "(string option \<times> 'd) go \<Rightarrow> bool" where
  "failed_attempt (Ret (err, d)) \<longleftrightarrow> err \<noteq> None"
| "failed_attempt (Panic p) \<longleftrightarrow> False"
| "failed_attempt Hang \<longleftrightarrow> False"

definition first_settled :: "(nat \<Rightarrow> (string option \<times> 'd) go) \<Rightarrow> nat \<Rightarrow> bool" where
  "first_settled attempts i \<longleftrightarrow> \<not> failed_attempt (attempts i) \<and> (\<forall>j < i. failed_attempt (attempts j))"

fun settled :: "(string option \<times> 'd) go \<Rightarrow> 'd go option" where
  "settled (Ret (err, d)) = Some (Ret d)"
| "settled (Panic p) = Some (Panic p)"
| "settled Hang = None"

lemma create_db_loop_failed: "failed_attempt (attempts i) \<Longrightarrow> create_db_loop attempts i = create_db_loop attempts (Suc i)"
  by (subst create_db_loop.simps) (cases "attempts i" rule: failed_attempt.cases, auto)

lemma create_db_loop_settled: "\<not> failed_attempt (attempts i) \<Longrightarrow> create_db_loop attempts i = settled (attempts i)"
  by (subst create_db_loop.simps) (cases "attempts i" rule: failed_attempt.cases, auto)

lemma create_db_loop_first:
  "\<not> failed_attempt (attempts (i + k)) \<Longrightarrow> \<forall>j < k. failed_attempt (attempts (i + j)) \<Longrightarrow>
   create_db_loop attempts i = settled (attempts (i + k))"
proof (induction k arbitrary: i)
  case (Suc k)
  have "failed_attempt (attempts i)" using Suc.prems(2) by force
  moreover have "create_db_loop attempts (Suc i) = settled (attempts (Suc i + k))"
    using Suc.prems by (intro Suc.IH) auto
  ultimately show ?case by (simp add: create_db_loop_failed)
qed (simp add: create_db_loop_settled)

lemma create_db_loop_ends:
  assumes "create_db_loop attempts i = Some r"
  shows "\<exists>k. \<not> failed_attempt (attempts (i + k))"
proof (rule create_db_loop.raw_induct [of "\<lambda>attempts i r. \<exists>k. \<not> failed_attempt (attempts (i + k))", OF _ assms])
  fix loop :: "(nat \<Rightarrow> (string option \<times> 'a) go) \<Rightarrow> nat \<Rightarrow> 'a go option" and attempts i r
  assume step: "\<And>attempts i r. loop attempts i = Some r \<Longrightarrow> \<exists>k. \<not> failed_attempt (attempts (i + k))"
    and body: "(case attempts i of Ret (None, d) \<Rightarrow> Some (Ret d) | Ret (Some err, d) \<Rightarrow> loop attempts (Suc i)
      | Panic p \<Rightarrow> Some (Panic p) | Hang \<Rightarrow> None) = Some r"
  show "\<exists>k. \<not> failed_attempt (attempts (i + k))"
  proof (cases "failed_attempt (attempts i)")
    case True
    then have "loop attempts (Suc i) = Some r" using body by (cases "attempts i" rule: failed_attempt.cases) auto
    from step [OF this] obtain k where "\<not> failed_attempt (attempts (Suc i + k))" by blast
    then show ?thesis by (intro exI [of _ "Suc k"]) simp
  qed (intro exI [of _ 0], simp)
qed

lemma create_db_loop_cases:
  obtains (never) "\<forall>i. failed_attempt (attempts i)" "create_db_loop attempts 0 = None"
  | (ends) i where "first_settled attempts i" "create_db_loop attempts 0 = settled (attempts i)"
proof (cases "\<forall>i. failed_attempt (attempts i)")
  case True
  then have "create_db_loop attempts 0 = None" using create_db_loop_ends [of attempts 0] by fastforce
  with True show thesis by (rule never)
next
  case False
  define i where "i = (LEAST i. \<not> failed_attempt (attempts i))"
  have "\<not> failed_attempt (attempts i)" using False LeastI_ex [of "\<lambda>i. \<not> failed_attempt (attempts i)"] by (simp add: i_def)
  moreover have "\<forall>j < i. failed_attempt (attempts j)" using not_less_Least by (fastforce simp: i_def)
  ultimately show thesis using ends [of i] create_db_loop_first [of attempts 0 i] by (simp add: first_settled_def)
qed

lemma first_settled_unique: "first_settled attempts i \<Longrightarrow> first_settled attempts j \<Longrightarrow> i = j"
  unfolding first_settled_def by (metis linorder_neqE_nat)

text \<open>No attempt ever ends the loop: all of them fail, or one of them does not return.\<close>

definition db_never_answers :: "(nat \<Rightarrow> (string option \<times> 'd) go) \<Rightarrow> bool" where
  "db_never_answers attempts \<longleftrightarrow> (\<forall>i. failed_attempt (attempts i)) \<or> (\<exists>i. first_settled attempts i \<and> attempts i = Hang)"

lemma create_db_loop_iffs:
  "create_db_loop attempts 0 = None \<longleftrightarrow> db_never_answers attempts"
  "create_db_loop attempts 0 = Some (Ret d) \<longleftrightarrow> (\<exists>i. first_settled attempts i \<and> attempts i = Ret (None, d))"
  "create_db_loop attempts 0 = Some (Panic p) \<longleftrightarrow> (\<exists>i. first_settled attempts i \<and> attempts i = Panic p)"
  "create_db_loop attempts 0 \<noteq> Some Hang"
proof -
  have "(create_db_loop attempts 0 = None \<longleftrightarrow> db_never_answers attempts) \<and>
    (create_db_loop attempts 0 = Some (Ret d) \<longleftrightarrow> (\<exists>i. first_settled attempts i \<and> attempts i = Ret (None, d))) \<and>
    (create_db_loop attempts 0 = Some (Panic p) \<longleftrightarrow> (\<exists>i. first_settled attempts i \<and> attempts i = Panic p)) \<and>
    create_db_loop attempts 0 \<noteq> Some Hang"
  proof (cases rule: create_db_loop_cases [of attempts])
    case never
    then show ?thesis by (auto simp: db_never_answers_def first_settled_def)
  next
    case (ends i)
    have only: "first_settled attempts j \<longleftrightarrow> j = i" for j using ends(1) first_settled_unique by metis
    have "\<not> failed_attempt (attempts i)" using ends(1) by (simp add: first_settled_def)
    then have "\<exists>i. \<not> failed_attempt (attempts i)" by blast
    with \<open>\<not> failed_attempt (attempts i)\<close> show ?thesis
      using ends(2) unfolding db_never_answers_def only
      by (cases "attempts i" rule: failed_attempt.cases) simp_all
  qed
  then show "create_db_loop attempts 0 = None \<longleftrightarrow> db_never_answers attempts"
    "create_db_loop attempts 0 = Some (Ret d) \<longleftrightarrow> (\<exists>i. first_settled attempts i \<and> attempts i = Ret (None, d))"
    "create_db_loop attempts 0 = Some (Panic p) \<longleftrightarrow> (\<exists>i. first_settled attempts i \<and> attempts i = Panic p)"
    "create_db_loop attempts 0 \<noteq> Some Hang" by blast+
qed

lemma prepare_params_returns: "prepare_params he h d \<noteq> Hang"
  by (simp add: prepare_params_def preloadPreparams_def split: sum.split)

text \<open>
  C21. \<open>Start\<close> tries to create the database until an attempt does not end with an error, however many do.
  It waits forever exactly when every attempt ends with an error (or one never returns). It returns
  exactly when the first attempt that does not fail succeeds and the preparams step after it does not
  panic, and then with the outcome of that step; a panic of that attempt or of the preparams step is a
  panic of \<open>Start\<close>.
\<close>

theorem Start_returns_iff:
  "(heart_Start he attempts h = None \<longleftrightarrow> db_never_answers attempts) \<and>
   (heart_Start he attempts h = Some (Ret r) \<longleftrightarrow>
      (\<exists>i d. first_settled attempts i \<and> attempts i = Ret (None, d) \<and> prepare_params he h d = Ret r)) \<and>
   (heart_Start he attempts h = Some (Panic p) \<longleftrightarrow>
      (\<exists>i. first_settled attempts i \<and> attempts i = Panic p) \<or>
      (\<exists>i d. first_settled attempts i \<and> attempts i = Ret (None, d) \<and> prepare_params he h d = Panic p)) \<and>
   heart_Start he attempts h \<noteq> Some Hang"
proof (cases rule: create_db_loop_cases [of attempts])
  case never
  then show ?thesis
    using create_db_loop_iffs(1) [of attempts] by (auto simp: heart_Start_def first_settled_def)
next
  case (ends i)
  have only: "first_settled attempts j \<longleftrightarrow> j = i" for j using ends(1) first_settled_unique by metis
  have "\<not> failed_attempt (attempts i)" using ends(1) by (simp add: first_settled_def)
  moreover note create_db_loop_iffs(1) [of attempts]
  ultimately show ?thesis
    using ends(2) prepare_params_returns [of he h] unfolding heart_Start_def only
    by (cases "attempts i" rule: failed_attempt.cases) auto
qed

subsection \<open>Every client request is answered once\<close>

fun heart_reacts :: "'a engine_action list \<Rightarrow> ('w, 'd, 'h, 's) Heart \<Rightarrow> client_call list \<times> ('w, 'd, 'h, 's) Heart" where
  "heart_reacts [] h = ([], h)"
| "heart_reacts (a # acts) h =
     (case heart_react a h of (calls, h1) \<Rightarrow> case heart_reacts acts h1 of (calls', h2) \<Rightarrow> (calls @ calls', h2))"

definition answers :: "KeysignRequest \<Rightarrow> client_call list \<Rightarrow> client_call list" where
  "answers q calls = filter (\<lambda>c. case c of PostKeysignResult r \<Rightarrow> ks_Request r = Some q | _ \<Rightarrow> False) calls"

fun signing_results :: "string \<Rightarrow> 'a engine_action list \<Rightarrow> KeysignResult list" where
  "signing_results w [] = []"
| "signing_results w (CbSigningFinished r res # acts) =
     (if wr_WorkId r = w then res # signing_results w acts else signing_results w acts)"
| "signing_results w (_ # acts) = signing_results w acts"

definition no_failure :: "string \<Rightarrow> 'a engine_action list \<Rightarrow> bool" where
  "no_failure w acts \<longleftrightarrow> (\<forall>r cs. CbWorkFailed r cs \<in> set acts \<longrightarrow> wr_WorkId r \<noteq> w)"

definition keysigns_ok :: "('w, 'a, 'd, 'h, 's) heart_env \<Rightarrow> ('w, 'd, 'h, 's) Heart \<Rightarrow> bool" where
  "keysigns_ok he h \<longleftrightarrow>
     (\<forall>w q. gget (ht_keysignRequests h) w = Some q \<longrightarrow> w = keysign_work_id he (kq_KeysignMessages q))"

lemmas react_defs = heart_OnWorkKeygenFinished_def heart_OnWorkSigningFinished_def heart_OnWorkFailed_def Let_def

lemma keysigns_ok_react: "keysigns_ok he h \<Longrightarrow> keysigns_ok he (snd (heart_react a h))"
  by (cases a) (auto simp: keysigns_ok_def react_defs split: if_splits WorkType.splits)

lemma answers_append: "answers q (xs @ ys) = answers q xs @ answers q ys"
  by (simp add: answers_def)

lemma react_answers:
  "answers q (fst (heart_react a h)) =
    (case a of CbSigningFinished r res \<Rightarrow>
         if gget (ht_keysignRequests h) (wr_WorkId r) = Some q then [PostKeysignResult (res\<lparr>ks_Request := Some q\<rparr>)] else []
     | CbWorkFailed r cs \<Rightarrow>
         if IsSigning r \<and> gget (ht_keysignRequests h) (wr_WorkId r) = Some q
         then [PostKeysignResult (zero_KeysignResult\<lparr>ks_Request := Some q, ks_Outcome := OutcomeFailure, ks_Culprits := cs\<rparr>)] else []
     | _ \<Rightarrow> [])"
  by (cases a) (auto simp: answers_def react_defs IsSigning_def split: WorkType.splits)

lemma react_gget:
  "gget (ht_keysignRequests (snd (heart_react a h))) w =
    (case a of CbSigningFinished r res \<Rightarrow> if wr_WorkId r = w then None else gget (ht_keysignRequests h) w
     | _ \<Rightarrow> gget (ht_keysignRequests h) w)"
  by (cases a) (auto simp: react_defs split: WorkType.splits)

lemma no_more_answers: "\<forall>w. gget (ht_keysignRequests h) w \<noteq> Some q \<Longrightarrow> answers q (fst (heart_reacts acts h)) = []"
proof (induction acts arbitrary: h)
  case (Cons a acts)
  have "\<forall>w. gget (ht_keysignRequests (snd (heart_react a h))) w \<noteq> Some q"
    using Cons.prems by (simp add: react_gget split: engine_action.splits)
  then show ?case
    using Cons.IH Cons.prems react_answers [of q a h]
    by (auto simp: answers_append split: prod.splits engine_action.splits) (metis fst_conv snd_conv)+
qed (simp add: answers_def)

lemma pending_answers:
  assumes "keysigns_ok he h" and "gget (ht_keysignRequests h) w = Some q" and "no_failure w acts"
  shows "answers q (fst (heart_reacts acts h)) =
    map (\<lambda>res. PostKeysignResult (res\<lparr>ks_Request := Some q\<rparr>)) (take 1 (signing_results w acts))"
  using assms
proof (induction acts arbitrary: h)
  case (Cons a acts)
  obtain calls h1 where a: "heart_react a h = (calls, h1)" by fastforce
  have ok1: "keysigns_ok he h1" using keysigns_ok_react [OF Cons.prems(1), of a] a by simp
  have nf: "no_failure w acts" using Cons.prems(3) by (simp add: no_failure_def)
  have only: "gget (ht_keysignRequests h) w' = Some q \<Longrightarrow> w' = w" for w'
    using Cons.prems(1,2) unfolding keysigns_ok_def by metis
  have split: "answers q (fst (heart_reacts (a # acts) h)) = answers q calls @ answers q (fst (heart_reacts acts h1))"
    by (simp add: a answers_append split: prod.splits)
  note first = react_answers [of q a h, unfolded a fst_conv] and entry = react_gget [of a h, unfolded a snd_conv]
  show ?case
  proof (cases "\<exists>r res. a = CbSigningFinished r res \<and> wr_WorkId r = w")
    case True
    then obtain r res where ar: "a = CbSigningFinished r res" "wr_WorkId r = w" by blast
    have "\<forall>w'. gget (ht_keysignRequests h1) w' \<noteq> Some q" using entry ar only by auto
    then show ?thesis
      using split first ar Cons.prems(2) no_more_answers by simp
  next
    case False
    have "gget (ht_keysignRequests h1) w = Some q" using entry [of w] False Cons.prems(2) by (auto split: engine_action.splits)
    moreover have "answers q calls = []"
      using first False only Cons.prems(3) by (auto simp: no_failure_def split: engine_action.splits if_splits)
    moreover have "signing_results w (a # acts) = signing_results w acts" using False by (cases a) auto
    ultimately show ?thesis using Cons.IH [OF ok1 _ nf] split by simp
  qed
qed (simp add: answers_def)

lemma on_engine_requests:
  "on_engine f h = Ret (Done h' b) \<Longrightarrow> ht_keysignRequests h' = ht_keysignRequests h \<and> ht_ready h' = ht_ready h"
  by (auto dest!: on_engine_state)

lemma add_nodes_requests:
  "add_nodes he keys h = Ret (Done h' b) \<Longrightarrow> ht_keysignRequests h' = ht_keysignRequests h \<and> ht_ready h' = ht_ready h"
  by (auto simp: add_nodes_def go_bind_eq_Ret_iff then_do_Ret dest: on_engine_requests)

lemma keysign_request_id: "keysign_request he q nodes d = Inr (Some r) \<Longrightarrow> wr_WorkId r = keysign_work_id he (kq_KeysignMessages q)"
  by (auto simp: keysign_request_def Let_def NewEcSigningRequest_def NewEdSigningRequest_def baseRequest_def
      split: if_splits sum.splits)

lemma Keysign_cases:
  assumes "heart_Keysign he q keys d h = Ret (Done h1 (err, acts))"
  obtains (early) "ht_keysignRequests h1 = ht_keysignRequests h" "acts = []"
    "\<not> ht_ready h \<or> (\<exists>nodes. keysign_request he q nodes d = Inl err)"
  | (added) nodes r where "keysign_request he q nodes d = Inr (Some r)"
    "ht_keysignRequests h1 = gput (keysign_work_id he (kq_KeysignMessages q)) q (ht_keysignRequests h)"
proof (cases "ht_ready h")
  case False
  then show ?thesis using assms early by (simp add: heart_Keysign_def)
next
  case True
  then obtain h2 nodes where h2: "add_nodes he keys h = Ret (Done h2 nodes)"
    using assms by (auto simp: heart_Keysign_def then_do_Ret)
  note kept = add_nodes_requests [OF h2]
  show ?thesis
  proof (cases "keysign_request he q nodes d")
    case (Inl err')
    then show ?thesis using assms h2 kept True early by (auto simp: heart_Keysign_def then_do_Ret)
  next
    case (Inr wr)
    then obtain r h3 where "wr = Some r" "on_engine (AddRequest (engine_env_of he h2) r) h2 = Ret (Done h3 (err, acts))"
      "h1 = h3\<lparr>ht_keysignRequests := gput (wr_WorkId r) q (ht_keysignRequests h3)\<rparr>"
      using assms h2 True by (auto simp: heart_Keysign_def then_do_Ret ret_iffs)
    then show ?thesis
      using added [of nodes r] Inr kept on_engine_requests keysign_request_id by fastforce
  qed
qed

lemma keysigns_ok_Keysign:
  "keysigns_ok he h \<Longrightarrow> heart_Keysign he q keys d h = Ret (Done h1 x) \<Longrightarrow> keysigns_ok he h1"
  by (cases x) (auto elim!: Keysign_cases simp: keysigns_ok_def split: if_splits)

lemma taken_request:
  assumes "heart_Keysign he q keys d h = Ret (Done h1 (None, started))" and "kq_KeyType q = KEY_TYPE_ECDSA (he_chain he)"
  shows "gget (ht_keysignRequests h1) (keysign_work_id he (kq_KeysignMessages q)) = Some q"
  using assms(1)
proof (cases rule: Keysign_cases)
  case early
  then have "\<not> ht_ready h"
    using assms(2) by (cases "db_LoadEcKeygen (he_db he) (kq_KeyType q) d") (auto simp: keysign_request_def Let_def)
  then show ?thesis using assms(1) by (simp add: heart_Keysign_def)
qed simp

text \<open>
  C7. A keysign request that the heart has taken (an ECDSA one that did not come back with an error) is
  answered once. Whatever the engine reports afterwards, for this work and for others, as long as
  it reports no failure of this work: the client gets the request back with the first signing result
  of its work id, and with no other result.
\<close>

theorem keysign_answered_once:
  assumes "keysigns_ok he h" and "heart_Keysign he q keys d h = Ret (Done h1 (None, started))"
    and "kq_KeyType q = KEY_TYPE_ECDSA (he_chain he)"
    and "no_failure (keysign_work_id he (kq_KeysignMessages q)) acts"
  shows "answers q (fst (heart_reacts acts h1)) =
      map (\<lambda>res. PostKeysignResult (res\<lparr>ks_Request := Some q\<rparr>))
        (take 1 (signing_results (keysign_work_id he (kq_KeysignMessages q)) acts)) \<and>
    keysigns_ok he h1"
  using pending_answers taken_request [OF assms(2,3)] assms(4) keysigns_ok_Keysign [OF assms(1,2)] by blast

subsection \<open>A heart for evaluation\<close>

definition sample_p2p :: "(unit, bytes list) p2p_lib" where
  "sample_p2p = \<lparr>pl_UnmarshalSecp256k1PrivateKey = (\<lambda>_. Inr 0), pl_UnmarshalEd25519PrivateKey = (\<lambda>_. Inr 0),
     pl_NewMultiaddr = Inr, pl_New = (\<lambda>_ _. Inr ()), pl_SetStreamHandler = (\<lambda>_ h. h), pl_RemoveStreamHandler = (\<lambda>_ h. h),
     pl_dht_New = (\<lambda>_. Inr 0), pl_dht_Bootstrap = (\<lambda>_. None), pl_Advertise = (\<lambda>_ _ h. h),
     pl_AddrInfoFromP2pAddr = (\<lambda>_. Some [1]), pl_Connect = (\<lambda>_ h. (None, h)), pl_NewStream = (\<lambda>_ _ h. (Inr [], h)),
     pl_Write = record_write, pl_Reset = (\<lambda>_. []), pl_idString = letter_id\<rparr>"

definition sample_heart_env ::
  "((nat AvailablePresigns, unit) DefaultWorker, worker_action + TssMessage list, nat, unit, bytes list) heart_env" where
  "sample_heart_env =
     \<lparr>he_engine = sample_engine_env, he_codec = ref_codec, he_chain = \<lparr>KEY_TYPE_ECDSA = ''ecdsa'', KEY_TYPE_EDDSA = ''eddsa''\<rparr>,
      he_db = sample_db, he_p2p = sample_p2p, he_aes = xor_cipher, he_keccak = (\<lambda>s. map (\<lambda>c. word_of_nat (of_char c)) s),
      he_PubKey = (\<lambda>sk. Ret \<lparr>pk_Type = sk_Type sk, pk_Bytes = sk_Bytes sk\<rparr>), he_PrivSign = (\<lambda>_ _. Inr [7]),
      he_GeneratePreParams = Inr 1, he_UnmarshalPreparams = Inr\<rparr>"

definition sample_config :: HeartConfig where
  "sample_config =
     \<lparr>hc_HomeDir = ''/root'', hc_UseOnMemory = False, hc_ShortcutPreparams = False, hc_SisuServerUrl = ''http'', hc_Port = 5678,
      hc_Db = \<lparr>dc_Host = ''db'', dc_Port = 3306, dc_Username = ''root'', dc_Password = '''', dc_Schema = ''dheart0'', dc_InMemory = False\<rparr>,
      hc_Connection = \<lparr>cc_Host = ''0.0.0.0'', cc_Port = 28300, cc_Rendezvous = ''rv'', cc_Protocol = '''', cc_Peers = [],
        cc_PrivateKeyType = ''ed25519''\<rparr>, hc_AesKey = replicate 32 7\<rparr>"

definition new_heart :: "((nat AvailablePresigns, unit) DefaultWorker, nat, unit, bytes list) Heart" where
  "new_heart = NewHeart sample_config"

definition ready_heart :: "((nat AvailablePresigns, unit) DefaultWorker, nat, unit, bytes list) Heart" where
  "ready_heart = new_heart\<lparr>ht_ready := True, ht_engine := Some abc_engine,
     ht_privateKey := Some \<lparr>sk_Type = ''ed25519'', sk_Bytes = [9]\<rparr>\<rparr>"

definition two_keys :: "PubKey list" where
  "two_keys = [ed_key 9, ed_key 4]"

definition sample_keysign :: KeysignRequest where
  "sample_keysign = \<lparr>kq_KeyType = ''ecdsa'', kq_KeysignMessages =
     [\<lparr>km_Id = ''m'', km_InChain = ''eth'', km_OutChain = ''eth'', km_OutHash = ''h'', km_Bytes = [1], km_BytesToSign = Some [2]\<rparr>]\<rparr>"

lemma ready_heart_free: "ht_ready ready_heart" "engine_free ready_heart"
  by (simp_all add: ready_heart_def engine_free_def abc_engine_def AddNodes_def NewEngine_def)

lemma two_keys_ok:
  "\<exists>nodes. NewNodes (ee_lib (he_engine sample_heart_env)) (he_codec sample_heart_env) two_keys = Ret nodes"
  "distinct (map (\<lambda>k. SetBytes (pk_Bytes k)) two_keys)" "two_keys \<noteq> []"
  by (simp_all add: sample_heart_env_def sample_engine_env_def two_keys_def NewNodes_def NewNode_def ed_key_def ref_codec_def
      go_simps SetBytes_def)

theorem Keygen_agree_witness:
  "\<exists>r nodes. heart_Keygen sample_heart_env ''k1'' ''ecdsa'' two_keys ready_heart =
      on_engine (AddRequest (engine_env_of sample_heart_env ready_heart) r)
        (with_nodes sample_heart_env nodes (ready_heart\<lparr>ht_valPubkeys := Some two_keys\<rparr>)) \<and>
    heart_Keygen sample_heart_env ''k1'' ''ecdsa'' (rev two_keys) ready_heart =
      on_engine (AddRequest (engine_env_of sample_heart_env ready_heart) r)
        (with_nodes sample_heart_env nodes (ready_heart\<lparr>ht_valPubkeys := Some (rev two_keys)\<rparr>)) \<and>
    wr_WorkId r = ''k1'' \<and> wr_N r = 2"
proof -
  obtain nodes where nodes: "NewNodes (ee_lib (he_engine sample_heart_env)) (he_codec sample_heart_env) two_keys = Ret nodes"
    using two_keys_ok(1) by blast
  have "tss_parties (ee_lib (he_engine sample_heart_env))"
    by (simp add: sample_heart_env_def sample_engine_env_def ref_parties.tss_parties_axioms)
  from Keygen_agree [OF this _ nodes _ two_keys_ok(2,3) _ ready_heart_free ready_heart_free, of sample_heart_env "rev two_keys" "''ecdsa''" "''k1''"]
  have "\<exists>r. heart_Keygen sample_heart_env ''k1'' ''ecdsa'' two_keys ready_heart =
      on_engine (AddRequest (engine_env_of sample_heart_env ready_heart) r)
        (with_nodes sample_heart_env nodes (ready_heart\<lparr>ht_valPubkeys := Some two_keys\<rparr>)) \<and>
    heart_Keygen sample_heart_env ''k1'' ''ecdsa'' (rev two_keys) ready_heart =
      on_engine (AddRequest (engine_env_of sample_heart_env ready_heart) r)
        (with_nodes sample_heart_env nodes (ready_heart\<lparr>ht_valPubkeys := Some (rev two_keys)\<rparr>)) \<and>
    wr_WorkId r = ''k1'' \<and> wr_N r = int (length two_keys)"
    by (auto simp: same_network_def sample_heart_env_def [abs_def])
  then show ?thesis by (auto simp: two_keys_def)
qed

lemma sample_db_reads:
  "db_GetAvailablePresignShortForm sample_db d = Inr ([], [])" "db_LoadPeers sample_db d = []"
  "db_LoadEcKeygen sample_db ''ecdsa'' d = Inr None"
  by (simp_all add: sample_db_def SqlDatabase_def idle_driver_def GetAvailablePresignShortForm_def LoadPeers_def
      LoadEcKeygen_def load_keygen_def)

lemma sample_init:
  "\<exists>h1 err d1. initConnectionManager sample_heart_env 0 (new_heart\<lparr>ht_privateKey := Some \<lparr>sk_Type = ''ed25519'', sk_Bytes = [9]\<rparr>\<rparr>) =
     Ret (Done h1 (err, d1))"
  by (simp add: initConnectionManager_def sample_heart_env_def sample_engine_env_def new_heart_def NewHeart_def NewNode_def
      ref_codec_def go_simps then_do_def on_engine_def engine_Init_def Load_def sample_db_reads NewEngine_def
      NewAvailPresignManager_def loadPeers_def add_nodes_def NewNodes_def AddNodes_def sample_config_def
      NewConnectionManager_def cm_Start_def sample_p2p_def discover_def createConnections_def Let_def)

lemma ready_heart_idle: "idle_heart ready_heart"
proof -
  have "engine_ok abc_engine" "pending (en_requestQueue abc_engine) = []" "en_workers abc_engine = []"
    using rq_ok_New by (simp_all add: abc_engine_def AddNodes_def NewEngine_def engine_ok_def NewRequestQueue_def pending_def)
  moreover have "ht_engine ready_heart = Some abc_engine" "ht_privateKey ready_heart \<noteq> None"
    by (simp_all add: ready_heart_def)
  ultimately show ?thesis by (simp add: idle_heart_def ready_heart_free MaxWorker_def)
qed

lemma sample_env_facts:
  "tss_parties (ee_lib (he_engine sample_heart_env))" "growth (ee_grow (he_engine sample_heart_env))"
  "ee_worker (he_engine sample_heart_env) = default_worker_ops sample_env mc_cache 0 (NewAvailPresignManager 0)"
  "he_chain sample_heart_env = \<lparr>KEY_TYPE_ECDSA = ''ecdsa'', KEY_TYPE_EDDSA = ''eddsa''\<rparr>"
  "db_LoadEcKeygen (he_db sample_heart_env) (kq_KeyType sample_keysign) 0 = Inr None"
  by (simp_all add: sample_heart_env_def sample_engine_env_def ref_parties.tss_parties_axioms go_growth.growth_axioms
      sample_keysign_def sample_db_reads)

theorem idle_node_starts_work_witness:
  "(\<exists>h' e' acts. heart_Keygen sample_heart_env ''k1'' ''ecdsa'' two_keys ready_heart = Ret (Done h' (None, acts)) \<and>
      ht_engine h' = Some e' \<and> ''k1'' \<in> gkeys (en_workers e')) \<and>
   (\<exists>h' e' acts. heart_Keysign sample_heart_env sample_keysign two_keys 0 ready_heart = Ret (Done h' (None, acts)) \<and>
      ht_engine h' = Some e' \<and> keysign_work_id sample_heart_env (kq_KeysignMessages sample_keysign) \<in> gkeys (en_workers e'))"
proof -
  obtain nodes where nodes: "NewNodes (ee_lib (he_engine sample_heart_env)) (he_codec sample_heart_env) two_keys = Ret nodes"
    using two_keys_ok(1) by blast
  show ?thesis
    by (rule idle_node_starts_work [OF sample_env_facts(1) nodes sample_env_facts(2,3) ready_heart_idle two_keys_ok(3) _ _
          sample_env_facts(5)]) (simp_all add: sample_env_facts(4) sample_keysign_def)
qed

theorem SetPrivKey_once_witness:
  "\<exists>enc enc' h1 err d1. AESDEncrypt xor_cipher (\<lambda>_. Inr one_nonce) [9] (replicate 32 7) = Ret (Inr enc) \<and>
     AESDEncrypt xor_cipher (\<lambda>_. Inr one_nonce) [8] (replicate 32 7) = Ret (Inr enc') \<and>
     heart_SetPrivKey sample_heart_env (hex_EncodeToString enc) ''ed25519'' 0 new_heart = Ret (Done h1 (err, d1)) \<and>
     ht_privateKey h1 = Some \<lparr>sk_Type = ''ed25519'', sk_Bytes = [9]\<rparr> \<and>
     heart_SetPrivKey sample_heart_env (hex_EncodeToString enc') ''ed25519'' 0 h1 =
       Ret (Done h1 (Some ''The private key has been set!'', 0))"
proof -
  have "\<exists>enc. AESDEncrypt xor_cipher (\<lambda>_. Inr one_nonce) [b] (replicate 32 7) = Ret (Inr enc)" for b
    by (simp add: AESDEncrypt_def NewCipher_def gcm_Seal_def one_nonce_def gcmNonceSize_def gcmMaxLength_def Let_def)
  then obtain enc enc' where enc: "AESDEncrypt xor_cipher (\<lambda>_. Inr one_nonce) [9] (replicate 32 7) = Ret (Inr enc)"
    "AESDEncrypt xor_cipher (\<lambda>_. Inr one_nonce) [8] (replicate 32 7) = Ret (Inr enc')" by blast
  obtain h1 err d1 where up: "initConnectionManager sample_heart_env 0
      (new_heart\<lparr>ht_privateKey := Some \<lparr>sk_Type = ''ed25519'', sk_Bytes = [9]\<rparr>\<rparr>) = Ret (Done h1 (err, d1))"
    using sample_init by blast
  have new: "ht_privateKey new_heart = None" "ht_aesKey new_heart = replicate 32 7" "he_aes sample_heart_env = xor_cipher"
    by (simp_all add: new_heart_def NewHeart_def sample_config_def sample_heart_env_def)
  from SetPrivKey_once [OF new(1) _ _ up, of one_nonce enc one_nonce "[8]" enc' "''ed25519''" 0] enc new
  show ?thesis by auto
qed

text \<open>The third attempt succeeds; or it panics.\<close>

definition third_attempt :: "(string option \<times> nat) go \<Rightarrow> nat \<Rightarrow> (string option \<times> nat) go" where
  "third_attempt a i = (if i = 2 then a else Ret (Some ''no db'', 5))"

lemma third_attempt_settled: "\<not> failed_attempt a \<Longrightarrow> first_settled (third_attempt a) i \<longleftrightarrow> i = 2"
  by (auto simp: first_settled_def third_attempt_def)

theorem Start_returns_iff_witness:
  "heart_Start sample_heart_env (third_attempt (Panic NilDereference)) new_heart = Some (Panic NilDereference)"
  using Start_returns_iff [of sample_heart_env "third_attempt (Panic NilDereference)" new_heart _ NilDereference]
  by (simp add: third_attempt_settled third_attempt_def)

definition signed_once :: "unit engine_action list" where
  "signed_once = [CbSigningFinished
     ((abc_work ''x'')\<lparr>wr_WorkId := keysign_work_id sample_heart_env (kq_KeysignMessages sample_keysign)\<rparr>)
     (zero_KeysignResult\<lparr>ks_Signatures := [[1]]\<rparr>)]"

theorem keysign_answered_once_witness:
  "\<exists>h1 acts. heart_Keysign sample_heart_env sample_keysign two_keys 0 ready_heart = Ret (Done h1 (None, acts)) \<and>
     answers sample_keysign (fst (heart_reacts signed_once h1)) =
     [PostKeysignResult (zero_KeysignResult\<lparr>ks_Signatures := [[1]], ks_Request := Some sample_keysign\<rparr>)]"
proof -
  obtain nodes where nodes: "NewNodes (ee_lib (he_engine sample_heart_env)) (he_codec sample_heart_env) two_keys = Ret nodes"
    using two_keys_ok(1) by blast
  have q: "kq_KeyType sample_keysign = KEY_TYPE_ECDSA (he_chain sample_heart_env)"
    by (simp add: sample_env_facts(4) sample_keysign_def)
  have "''ecdsa'' = KEY_TYPE_ECDSA (he_chain sample_heart_env) \<or> ''ecdsa'' = KEY_TYPE_EDDSA (he_chain sample_heart_env)"
    by (simp add: sample_env_facts(4))
  from idle_starts [OF sample_env_facts(1) nodes sample_env_facts(2,3) ready_heart_idle two_keys_ok(3) this q sample_env_facts(5)]
  obtain h1 acts where taken: "heart_Keysign sample_heart_env sample_keysign two_keys 0 ready_heart = Ret (Done h1 (None, acts))"
    by blast
  have "keysigns_ok sample_heart_env ready_heart"
    by (simp add: keysigns_ok_def ready_heart_def new_heart_def NewHeart_def)
  from keysign_answered_once [OF this taken q, of signed_once] taken show ?thesis
    by (intro exI [of _ h1] exI [of _ acts]) (simp add: no_failure_def signed_once_def)
qed

end
