(* ===== verification/Heart_System.thy ===== *)
theory Heart_System
  imports Heart_Api
begin

section \<open>The life of a heart\<close>

text \<open>
  Heart, engine and Sisu together: every call of the API, every event that reaches the engine (network
  messages, callbacks of the workers) and the results the heart posts in return, one call at a time. A
  call whose goroutine gets stuck leaves the state it reached. A call that panics is not part of a life: what
  the process does after a recovered panic (the RPC server recovers those of its handlers, after which a
  heart may be left half changed) is not covered here.
  Engine events are not restricted: a worker may report any end of any work at any time, and a message
  may come from the network before the listener is registered. \<open>doPresign\<close> has no caller.
\<close>

datatype 'd heart_event =
    HvSetPrivKey string string 'd
  | HvSisuReady bool
  | HvBootstrapped "PubKey list"
  | HvKeygen string string "PubKey list"
  | HvKeysign KeysignRequest "PubKey list" 'd
  | HvBlockEnd int
  | HvEngine engine_event

text \<open>The operations of the engine with the actions they ask for; \<open>engine_step\<close> is its effect on the state.\<close>

fun engine_call ::
  "('w, 'a) engine_env \<Rightarrow> engine_event \<Rightarrow> ('w, 'd) Engine \<Rightarrow> (('w, 'd) Engine, 'a engine_action list) progress go" where
  "engine_call env (EvAddNodes nodes) e = then_do (Ret (AddNodes env nodes e)) (\<lambda>e' _. Ret (Done e' []))"
| "engine_call env (EvAddRequest r) e = then_do (AddRequest env r e) (\<lambda>e' (err, acts). Ret (Done e' acts))"
| "engine_call env (EvNetwork peer data) e = OnNetworkMessage env peer data e"
| "engine_call env (EvBroadcast pids msg) e = BroadcastMessage env pids msg e"
| "engine_call env (EvUnicast dest msg) e = UnicastMessage env dest msg e"
| "engine_call env (EvNotSelected r) e = go_bind (engine_OnNodeNotSelected env r e) (\<lambda>(acts, e'). Ret (Done e' acts))"
| "engine_call env (EvWorkFailed r) e = go_bind (engine_OnWorkFailed env r e) (\<lambda>(acts, e'). Ret (Done e' acts))"
| "engine_call env (EvWorkerResult r results) e =
     go_bind (engine_OnWorkerResult env r results e) (\<lambda>(acts, e'). Ret (Done e' acts))"

text \<open>The heart handles the actions of a call that returned.\<close>

fun reacted ::
  "(('w, 'd, 'h, 's) Heart, 'a engine_action list) progress \<Rightarrow> client_call list \<times> ('w, 'd, 'h, 's) Heart" where
  "reacted (Done h acts) = heart_reacts acts h"
| "reacted (Stuck h) = ([], h)"

fun heart_call ::
  "('w, 'a, 'd, 'h, 's) heart_env \<Rightarrow> 'd heart_event \<Rightarrow> ('w, 'd, 'h, 's) Heart \<Rightarrow>
   (client_call list \<times> ('w, 'd, 'h, 's) Heart) go" where
  "heart_call he (HvSetPrivKey encryptedKey keyType d) h =
     go_bind (heart_SetPrivKey he encryptedKey keyType d h) (\<lambda>p. Ret ([], state_of p))"
| "heart_call he (HvSisuReady isReady) h = (case heart_SetSisuReady isReady h of (r, h') \<Rightarrow> go_bind r (\<lambda>_. Ret ([], h')))"
| "heart_call he (HvBootstrapped keys) h = Ret ([], SetBootstrappedKeys keys h)"
| "heart_call he (HvKeygen keygenId keyType keys) h =
     go_bind (then_do (heart_Keygen he keygenId keyType keys h) (\<lambda>h' (err, acts). Ret (Done h' acts))) (\<lambda>p. Ret (reacted p))"
| "heart_call he (HvKeysign q keys d) h =
     go_bind (then_do (heart_Keysign he q keys d h) (\<lambda>h' (err, acts). Ret (Done h' acts))) (\<lambda>p. Ret (reacted p))"
| "heart_call he (HvBlockEnd blockHeight) h = (case heart_BlockEnd blockHeight h of _ \<Rightarrow> Ret ([], h))"
| "heart_call he (HvEngine ev) h = go_bind (on_engine (engine_call (engine_env_of he h) ev) h) (\<lambda>p. Ret (reacted p))"

text \<open>The lives of a heart: the calls so far, each with what was posted to Sisu during it.\<close>

inductive heart_life ::
  "('w, 'a, 'd, 'h, 's) heart_env \<Rightarrow> HeartConfig \<Rightarrow> ('d heart_event \<times> client_call list) list \<Rightarrow> ('w, 'd, 'h, 's) Heart \<Rightarrow> bool"
  for he :: "('w, 'a, 'd, 'h, 's) heart_env" and cfg :: HeartConfig where
  born: "heart_life he cfg [] (NewHeart cfg)"
| called: "heart_life he cfg tr h \<Longrightarrow> heart_call he ev h = Ret (calls, h') \<Longrightarrow> heart_life he cfg (tr @ [(ev, calls)]) h'"

subsection \<open>What an engine keeps\<close>

definition engine_kept :: "('w, 'd) Engine \<Rightarrow> ('w, 'd) Engine \<Rightarrow> bool" where
  "engine_kept e e' \<longleftrightarrow> (engine_ok e \<longrightarrow> engine_ok e') \<and> en_myPid e' = en_myPid e"

lemma engine_kept_refl [simp]: "engine_kept e e"
  by (simp add: engine_kept_def)

lemma engine_kept_trans: "engine_kept e e' \<Longrightarrow> engine_kept e' e'' \<Longrightarrow> engine_kept e e''"
  by (simp add: engine_kept_def)

lemma startNextWork_myPid: "startNextWork env e = Ret (acts, e') \<Longrightarrow> en_myPid e' = en_myPid e"
  by (auto simp: startNextWork_def take_next_def split: prod.splits option.splits if_splits dest!: startWork_state(6))

lemma finishWorker_myPid: "finishWorker env i e = Ret (acts, e') \<Longrightarrow> en_myPid e' = en_myPid e"
  by (auto simp: finishWorker_def dest!: startNextWork_myPid)

lemma AddRequest_cases:
  assumes "AddRequest env r e = Ret p"
  obtains (refused) "state_of p = e" "\<And>e' err acts. p = Done e' (err, acts) \<Longrightarrow> acts = []"
  | (queued) q where "p = Done (e\<lparr>en_requestQueue := q\<rparr>) (None, [])"
  | (begun) q acts e' where "startNextWork env (e\<lparr>en_requestQueue := q\<rparr>) = Ret (acts, e')" "p = Done e' (None, acts)"
proof (cases "Validate r = None \<and> unknown_party (wr_AllParties r) e = Done e None")
  case True
  obtain q b where "AddWork (ee_grow env) (en_requestQueue e) r = (q, b)" by fastforce
  then show ?thesis
    using assms True queued begun by (auto simp: AddRequest_def then_do_def ret_iffs Let_def simp del: Validate.simps)
next
  case False
  then have "state_of p = e \<and> (\<forall>e' err acts. p = Done e' (err, acts) \<longrightarrow> acts = [])"
    using assms unknown_party_state [of "wr_AllParties r" e]
    by (cases "unknown_party (wr_AllParties r) e") (auto simp: AddRequest_def then_do_def ret_iffs simp del: Validate.simps)
  then show ?thesis using refused by blast
qed

lemma AddRequest_myPid: "AddRequest env r e = Ret p \<Longrightarrow> en_myPid (state_of p) = en_myPid e"
  by (elim AddRequest_cases) (auto dest!: startNextWork_myPid)

lemma engine_step_myPid:
  assumes "engine_step env ev e = Ret e'"
  shows "en_myPid e' = en_myPid e"
proof (cases ev)
  case (EvAddNodes nodes)
  then show ?thesis using assms by (auto simp: AddNodes_def)
next
  case (EvAddRequest r)
  then show ?thesis using assms by (auto simp: ret_iffs AddRequest_myPid)
next
  case (EvNotSelected r)
  then show ?thesis using assms by (auto simp: engine_OnNodeNotSelected_def ret_iffs dest: finishWorker_myPid)
next
  case (EvWorkFailed r)
  then show ?thesis using assms by (auto simp: engine_OnWorkFailed_def ret_iffs dest: finishWorker_myPid)
next
  case (EvWorkerResult r results)
  then show ?thesis using assms by (auto simp: engine_OnWorkerResult_def Let_def ret_iffs dest: finishWorker_myPid)
qed (use assms in \<open>auto simp: ret_iffs same_load_def dest!: OnNetworkMessage_load Broadcast_load\<close>)

lemma engine_call_step: "engine_call env ev e = Ret p \<Longrightarrow> engine_step env ev e = Ret (state_of p)"
  by (cases ev) (auto simp: then_do_Ret ret_iffs)

lemma engine_call_kept: "growth (ee_grow env) \<Longrightarrow> engine_call env ev e = Ret p \<Longrightarrow> engine_kept e (state_of p)"
  by (auto simp: engine_kept_def dest!: engine_call_step dest: engine_step_ok engine_step_myPid)

lemma AddNodes_kept: "engine_kept e (state_of (AddNodes env nodes e))"
  by (simp add: engine_kept_def AddNodes_def engine_ok_def)

lemma AddRequest_kept: "growth (ee_grow env) \<Longrightarrow> AddRequest env r e = Ret p \<Longrightarrow> engine_kept e (state_of p)"
  by (auto simp: engine_kept_def dest: AddRequest_ok AddRequest_myPid)

subsection \<open>What the calls of the heart keep\<close>

text \<open>\<open>same_frame h h'\<close>: only the known keys and the engine may differ, and the engine keeps its party and its invariant.\<close>

definition same_frame :: "('w, 'd, 'h, 's) Heart \<Rightarrow> ('w, 'd, 'h, 's) Heart \<Rightarrow> bool" where
  "same_frame h h' \<longleftrightarrow>
     ht_config h' = ht_config h \<and> ht_cm h' = ht_cm h \<and> ht_ready h' = ht_ready h \<and> same_key h h' \<and>
     ht_keysignRequests h' = ht_keysignRequests h \<and> rel_option engine_kept (ht_engine h) (ht_engine h')"

lemma same_frame_refl [simp]: "same_frame h h"
  by (simp add: same_frame_def option.rel_refl)

lemma same_frame_valPubkeys [simp]: "same_frame h (h'\<lparr>ht_valPubkeys := v\<rparr>) = same_frame h h'"
  "same_frame (h\<lparr>ht_valPubkeys := v\<rparr>) h' = same_frame h h'"
  by (simp_all add: same_frame_def same_key_def)

lemma same_frame_trans: "same_frame a b \<Longrightarrow> same_frame b c \<Longrightarrow> same_frame a c"
  by (cases "ht_engine a"; cases "ht_engine b"; cases "ht_engine c")
    (auto simp: same_frame_def same_key_def intro: engine_kept_trans)

lemma same_frame_on_engine:
  assumes "on_engine f h = Ret p" and "\<And>e q. f e = Ret q \<Longrightarrow> engine_kept e (state_of q)"
  shows "same_frame h (state_of p)"
proof -
  obtain e q where "ht_engine h = Some e" "f e = Ret q"
    "p = (case q of Done e' b \<Rightarrow> Done (h\<lparr>ht_engine := Some e'\<rparr>) b | Stuck e' \<Rightarrow> Stuck (h\<lparr>ht_engine := Some e'\<rparr>))"
    using assms(1) by (auto simp: on_engine_def ret_iffs)
  then show ?thesis using assms(2) [of e q] by (cases q) (auto simp: same_frame_def same_key_def)
qed

lemma same_frame_then:
  assumes "then_do m f = Ret r" and "\<And>x. m = Ret x \<Longrightarrow> same_frame h (state_of x)"
    and "\<And>h1 b. m = Ret (Done h1 b) \<Longrightarrow> f h1 b = Ret r \<Longrightarrow> same_frame h1 (state_of r)"
  shows "same_frame h (state_of r)"
  using assms(1) assms(2) [of "Stuck _"] assms(2) [of "Done _ _"] assms(3) unfolding then_do_Ret
  by (auto intro: same_frame_trans)

lemma grow_engine_env_of [simp]: "ee_grow (engine_env_of he h) = ee_grow (he_engine he)"
  by (simp add: engine_env_of_def split: option.splits)

lemma add_nodes_frame: "add_nodes he keys h = Ret r \<Longrightarrow> same_frame h (state_of r)"
  by (auto simp: add_nodes_def go_bind_eq_Ret_iff AddNodes_kept elim!: same_frame_then same_frame_on_engine)

lemma loadPeers_frame: "loadPeers he d h = Ret r \<Longrightarrow> same_frame h (state_of r)"
  by (auto simp: loadPeers_def Let_def go_bind_eq_Ret_iff split: if_split_asm elim!: same_frame_then dest!: add_nodes_frame)

lemma request_frame:
  "growth (ee_grow (he_engine he)) \<Longrightarrow> on_engine (AddRequest (engine_env_of he h') r) h = Ret p \<Longrightarrow> same_frame h (state_of p)"
  by (erule same_frame_on_engine, erule AddRequest_kept [rotated]) simp

lemma Keygen_frame:
  "growth (ee_grow (he_engine he)) \<Longrightarrow> heart_Keygen he keygenId keyType keys h = Ret p \<Longrightarrow> same_frame h (state_of p)"
  by (auto simp: heart_Keygen_def ret_iffs elim!: same_frame_then dest!: add_nodes_frame dest: request_frame)

lemma Keysign_frame:
  assumes "growth (ee_grow (he_engine he))" and "heart_Keysign he q keys d h = Ret p"
  obtains (kept) "same_frame h (state_of p)"
  | (taken) h1 where "same_frame h h1"
      "state_of p = h1\<lparr>ht_keysignRequests := gput (keysign_work_id he (kq_KeysignMessages q)) q (ht_keysignRequests h)\<rparr>"
proof (cases "ht_ready h")
  case False
  then show ?thesis using assms(2) kept by (auto simp: heart_Keysign_def)
next
  case True
  then consider h1 where "add_nodes he keys h = Ret (Stuck h1)" "p = Stuck h1"
    | h1 nodes err where "add_nodes he keys h = Ret (Done h1 nodes)" "p = Done h1 (err, [])"
    | h1 nodes r h2 where "add_nodes he keys h = Ret (Done h1 nodes)"
        "on_engine (AddRequest (engine_env_of he h1) r) h1 = Ret (Stuck h2)" "p = Stuck h2"
    | h1 nodes r h2 err acts where "add_nodes he keys h = Ret (Done h1 nodes)" "keysign_request he q nodes d = Inr (Some r)"
        "on_engine (AddRequest (engine_env_of he h1) r) h1 = Ret (Done h2 (err, acts))"
        "p = Done (h2\<lparr>ht_keysignRequests := gput (wr_WorkId r) q (ht_keysignRequests h2)\<rparr>) (err, acts)"
    using assms(2) by (auto simp: heart_Keysign_def then_do_Ret ret_iffs)
  then show ?thesis
  proof cases
    case 3
    then show ?thesis
      using kept same_frame_trans [OF add_nodes_frame request_frame [OF assms(1)]] by fastforce
  next
    case 4
    have "same_frame h h2" using same_frame_trans [OF add_nodes_frame [OF 4(1)] request_frame [OF assms(1), of h1 r]] 4(3) by simp
    then show ?thesis using taken [of h2] 4(4) keysign_request_id [OF 4(2)] by (simp add: same_frame_def)
  qed (use kept add_nodes_frame in fastforce)+
qed

subsection \<open>Well-formed hearts\<close>

text \<open>The engine belongs to the private key: its party is the one every other node computes from the public key.\<close>

definition engine_of_key :: "('w, 'a, 'd, 'h, 's) heart_env \<Rightarrow> PrivKey \<Rightarrow> ('w, 'd) Engine \<Rightarrow> bool" where
  "engine_of_key he sk e \<longleftrightarrow>
     engine_ok e \<and> (\<exists>pk n. he_PubKey he sk = Ret pk \<and> NewNode (ee_lib (he_engine he)) (he_codec he) pk = Some n \<and>
       en_myPid e = nd_PartyId n)"

definition heart_wf :: "('w, 'a, 'd, 'h, 's) heart_env \<Rightarrow> HeartConfig \<Rightarrow> ('w, 'd, 'h, 's) Heart \<Rightarrow> bool" where
  "heart_wf he cfg h \<longleftrightarrow>
     ht_config h = cfg \<and> ht_aesKey h = hc_AesKey cfg \<and>
     rel_option (engine_of_key he) (ht_privateKey h) (ht_engine h) \<and> (ht_cm h = None \<longleftrightarrow> ht_engine h = None) \<and>
     (ht_ready h \<longrightarrow> (\<exists>cm. ht_cm h = Some cm \<and> getListener TSSProtocolID cm \<noteq> None)) \<and> keysigns_ok he h"

lemma engine_of_key_kept: "engine_of_key he sk e \<Longrightarrow> engine_kept e e' \<Longrightarrow> engine_of_key he sk e'"
  by (auto simp: engine_of_key_def engine_kept_def)

lemma heart_wf_frame:
  assumes "heart_wf he cfg h" and "same_frame h h'"
  shows "heart_wf he cfg h'"
proof -
  have "rel_option (engine_of_key he) (ht_privateKey h') (ht_engine h')"
    using assms engine_of_key_kept
    by (cases "ht_privateKey h"; cases "ht_engine h"; cases "ht_engine h'")
      (auto simp: heart_wf_def same_frame_def same_key_def)
  moreover have "ht_engine h' = None \<longleftrightarrow> ht_engine h = None"
    using assms(2) by (auto simp: same_frame_def option_rel_Some1 option_rel_Some2)
  ultimately show ?thesis
    using assms by (simp add: heart_wf_def same_frame_def same_key_def keysigns_ok_def)
qed

lemma heart_wf_New: "heart_wf he cfg (NewHeart cfg)"
  by (simp add: heart_wf_def NewHeart_def keysigns_ok_def)

lemma Init_kept: "go_bind (engine_Init db e) (\<lambda>(err, e'). Ret (Done e' err)) = Ret q \<Longrightarrow> engine_kept e (state_of q)"
  by (auto simp: engine_Init_def ret_iffs engine_kept_def engine_ok_def)

text \<open>Bringing the heart up: a fresh manager and engine, then only changes inside the frame, then the started manager.\<close>

definition started_from :: "('w, 'd, 'h, 's) Heart \<Rightarrow> ('w, 'd, 'h, 's) Heart \<Rightarrow> bool" where
  "started_from h h' \<longleftrightarrow> (\<exists>h2. same_frame h h2 \<and> (h' = h2 \<or> (\<exists>cm. h' = h2\<lparr>ht_cm := Some cm\<rparr>)))"

lemma started_frame: "same_frame h h' \<Longrightarrow> started_from h h'"
  by (auto simp: started_from_def)

lemma started_trans: "same_frame h h1 \<Longrightarrow> started_from h1 h' \<Longrightarrow> started_from h h'"
  unfolding started_from_def using same_frame_trans by blast

lemma started_then:
  assumes "then_do m f = Ret r" and "\<And>x. m = Ret x \<Longrightarrow> same_frame h (state_of x)"
    and "\<And>h1 b. m = Ret (Done h1 b) \<Longrightarrow> f h1 b = Ret r \<Longrightarrow> started_from h1 (state_of r)"
  shows "started_from h (state_of r)"
proof -
  from assms(1) consider e where "m = Ret (Stuck e)" "r = Stuck e" | e b where "m = Ret (Done e b)" "f e b = Ret r"
    by (auto simp: then_do_Ret)
  then show ?thesis
  proof cases
    case 1
    then show ?thesis using assms(2) started_frame by fastforce
  next
    case 2
    then have "same_frame h e" "started_from e (state_of r)" using assms(2,3) by fastforce+
    then show ?thesis by (rule started_trans)
  qed
qed

lemma started_cm [simp]: "started_from h (h\<lparr>ht_cm := Some cm\<rparr>)"
  unfolding started_from_def by (intro exI [of _ h]) auto

lemma started_refl [simp]: "started_from h h"
  by (simp add: started_frame)

lemma started_wf:
  assumes "heart_wf he cfg h" and "\<not> ht_ready h" and "ht_cm h \<noteq> None" and "started_from h h'"
  shows "heart_wf he cfg h'"
proof -
  obtain h2 where h2: "same_frame h h2" and h': "h' = h2 \<or> (\<exists>cm. h' = h2\<lparr>ht_cm := Some cm\<rparr>)"
    using assms(4) by (auto simp: started_from_def)
  have "\<not> ht_ready h2" "ht_cm h2 \<noteq> None" using h2 assms(2,3) by (simp_all add: same_frame_def)
  then show ?thesis using heart_wf_frame [OF assms(1) h2] h' by (auto simp: heart_wf_def keysigns_ok_def)
qed

lemma init_started:
  assumes "initConnectionManager he d h = Ret r"
  obtains sk pk n where "ht_privateKey h = Some sk" "he_PubKey he sk = Ret pk"
    "NewNode (ee_lib (he_engine he)) (he_codec he) pk = Some n"
    "started_from (h\<lparr>ht_cm := Some (NewConnectionManager (hc_Connection (ht_config h))), ht_engine := Some (NewEngine n d)\<rparr>) (state_of r)"
proof -
  obtain sk pk n where key: "ht_privateKey h = Some sk" "he_PubKey he sk = Ret pk"
    "NewNode (ee_lib (he_engine he)) (he_codec he) pk = Some n"
    using assms by (auto simp: initConnectionManager_def ret_iffs)
  with assms show thesis
    by (intro that [OF key])
      (auto simp: initConnectionManager_def Let_def go_simps ret_iffs split: option.split_asm elim!: started_then
        dest!: add_nodes_frame loadPeers_frame same_frame_on_engine [OF _ Init_kept])
qed

lemma init_wf:
  assumes wf: "heart_wf he cfg h" and fresh: "ht_privateKey h = None"
    and up: "initConnectionManager he d (h\<lparr>ht_privateKey := Some sk\<rparr>) = Ret r"
  shows "heart_wf he cfg (state_of r)"
proof -
  obtain pk n where key: "he_PubKey he sk = Ret pk" "NewNode (ee_lib (he_engine he)) (he_codec he) pk = Some n"
    and started: "started_from (h\<lparr>ht_privateKey := Some sk, ht_cm := Some (NewConnectionManager (hc_Connection (ht_config h))),
      ht_engine := Some (NewEngine n d)\<rparr>) (state_of r)"
    by (rule init_started [OF up]) auto
  have "engine_of_key he sk (NewEngine n d)" using key engine_ok_New [of n d] by (auto simp: engine_of_key_def NewEngine_def)
  moreover have "\<not> ht_ready h" using wf fresh by (auto simp: heart_wf_def)
  ultimately show ?thesis using wf started by (intro started_wf [OF _ _ _ started]) (auto simp: heart_wf_def keysigns_ok_def)
qed

lemma SetPrivKey_wf:
  assumes "heart_wf he cfg h" and "heart_SetPrivKey he encryptedKey keyType d h = Ret p"
  shows "heart_wf he cfg (state_of p)"
proof (cases "ht_privateKey h")
  case None
  then show ?thesis
    using assms by (auto simp: heart_SetPrivKey_def ret_iffs then_do_Ret dest: init_wf split: prod.splits)
next
  case (Some sk)
  then show ?thesis using assms by (auto simp: heart_SetPrivKey_def ret_iffs)
qed

lemma SetSisuReady_wf: "heart_wf he cfg h \<Longrightarrow> heart_SetSisuReady b h = (Ret u, h') \<Longrightarrow> heart_wf he cfg h'"
  by (auto simp: heart_SetSisuReady_def heart_wf_def keysigns_ok_def AddListener_def getListener_def split: option.split_asm)

text \<open>
  The one call that a life must not begin with: before the key has been set, \<open>SetSisuReady\<close> panics, and if
  the panic is recovered the heart is ready without an engine, so the next keygen panics as well.
\<close>

lemma SetSisuReady_too_early:
  assumes "heart_SetSisuReady b (NewHeart cfg) = (r, h)" and "NewNodes (ee_lib (he_engine he)) (he_codec he) keys = Ret nodes"
  shows "r = Panic NilDereference" and "ht_ready h" and "ht_engine h = None"
    and "heart_Keygen he keygenId keyType keys h = Panic NilDereference"
  using assms by (auto simp: heart_SetSisuReady_def NewHeart_def heart_Keygen_def add_nodes_def on_engine_def then_do_def go_simps)

lemma Bootstrapped_frame: "same_frame h (SetBootstrappedKeys keys h)"
  by (simp add: SetBootstrappedKeys_def)

lemma Keysign_wf:
  assumes "growth (ee_grow (he_engine he))" and "heart_wf he cfg h" and "heart_Keysign he q keys d h = Ret p"
  shows "heart_wf he cfg (state_of p)"
  using assms(1,3)
proof (cases rule: Keysign_frame)
  case kept
  then show ?thesis by (rule heart_wf_frame [OF assms(2)])
next
  case (taken h1)
  have "heart_wf he cfg h1" "ht_keysignRequests h1 = ht_keysignRequests h"
    using heart_wf_frame [OF assms(2) taken(1)] taken(1) by (simp_all add: same_frame_def)
  then show ?thesis unfolding taken(2) by (auto simp: heart_wf_def keysigns_ok_def split: if_splits)
qed

lemma react_wf:
  assumes "heart_wf he cfg h"
  shows "heart_wf he cfg (snd (heart_react a h))"
proof -
  have "\<exists>m. snd (heart_react a h) = h\<lparr>ht_keysignRequests := m\<rparr>"
    by (cases a) (auto simp: react_defs split: WorkType.splits intro: exI [of _ "ht_keysignRequests h"])
  moreover have "keysigns_ok he (snd (heart_react a h))" using assms by (auto simp: heart_wf_def intro: keysigns_ok_react)
  ultimately show ?thesis using assms by (auto simp: heart_wf_def)
qed

lemma reacts_wf: "heart_wf he cfg h \<Longrightarrow> heart_wf he cfg (snd (heart_reacts acts h))"
proof (induction acts arbitrary: h)
  case (Cons a acts)
  then show ?case using Cons.IH [OF react_wf [OF Cons.prems, of a]] by (simp add: split_beta)
qed simp

lemma reacted_wf: "heart_wf he cfg (state_of p) \<Longrightarrow> heart_wf he cfg (snd (reacted p))"
  by (cases p) (simp_all add: reacts_wf)

lemma reacted_call_wf:
  assumes "go_bind m (\<lambda>p. Ret (reacted p)) = Ret (calls, h')" and "\<And>p. m = Ret p \<Longrightarrow> heart_wf he cfg (state_of p)"
  shows "heart_wf he cfg h'"
proof -
  obtain p where p: "m = Ret p" "reacted p = (calls, h')" using assms(1) by (auto simp: go_bind_eq_Ret_iff)
  show ?thesis using reacted_wf [OF assms(2) [OF p(1)]] p(2) by simp
qed

lemma api_call_wf:
  assumes "go_bind (then_do m (\<lambda>h (err, acts). Ret (Done h acts))) (\<lambda>p. Ret (reacted p)) = Ret (calls, h')"
    and "\<And>p. m = Ret p \<Longrightarrow> heart_wf he cfg (state_of p)"
  shows "heart_wf he cfg h'"
  using assms(1) by (rule reacted_call_wf) (use assms(2) in \<open>fastforce simp: then_do_Ret\<close>)

lemma heart_call_wf:
  assumes "growth (ee_grow (he_engine he))" and "heart_wf he cfg h" and "heart_call he ev h = Ret (calls, h')"
  shows "heart_wf he cfg h'"
proof (cases ev)
  case (HvSetPrivKey encryptedKey keyType d)
  then show ?thesis using assms(2,3) by (auto simp: ret_iffs SetPrivKey_wf)
next
  case (HvSisuReady b)
  then show ?thesis using assms(2,3) by (auto simp: ret_iffs SetSisuReady_wf split: prod.split_asm)
next
  case (HvBootstrapped keys)
  then show ?thesis using assms(2,3) heart_wf_frame [OF _ Bootstrapped_frame] by auto
next
  case (HvKeygen keygenId keyType keys)
  show ?thesis
    using assms(3) [unfolded HvKeygen heart_call.simps] heart_wf_frame [OF assms(2) Keygen_frame [OF assms(1)]]
    by (rule api_call_wf)
next
  case (HvKeysign q keys d)
  show ?thesis
    using assms(3) [unfolded HvKeysign heart_call.simps] Keysign_wf [OF assms(1,2)] by (rule api_call_wf)
next
  case (HvBlockEnd b)
  then show ?thesis using assms(2,3) by simp
next
  case (HvEngine ee)
  have "same_frame h (state_of p)" if "on_engine (engine_call (engine_env_of he h) ee) h = Ret p" for p
    using that by (rule same_frame_on_engine) (erule engine_call_kept [rotated], simp add: assms(1))
  with assms(3) [unfolded HvEngine heart_call.simps] show ?thesis
    by (elim reacted_call_wf) (blast intro: heart_wf_frame [OF assms(2)])
qed

lemma heart_life_wf:
  assumes "growth (ee_grow (he_engine he))" and "heart_life he cfg tr h"
  shows "heart_wf he cfg h"
  using assms(2) by induction (auto simp: heart_wf_New intro: heart_call_wf [OF assms(1)])

subsection \<open>Asking and answering\<close>

definition asks :: "KeysignRequest \<Rightarrow> ('d heart_event \<times> client_call list) list \<Rightarrow> ('d heart_event \<times> client_call list) list" where
  "asks q tr = filter (\<lambda>(ev, calls). case ev of HvKeysign q' _ _ \<Rightarrow> q' = q | _ \<Rightarrow> False) tr"

definition posted :: "('d heart_event \<times> client_call list) list \<Rightarrow> client_call list" where
  "posted tr = concat (map snd tr)"

definition finished :: "KeysignRequest \<Rightarrow> client_call list \<Rightarrow> client_call list" where
  "finished q calls =
     filter (\<lambda>c. case c of PostKeysignResult r \<Rightarrow> ks_Outcome r \<noteq> OutcomeFailure | _ \<Rightarrow> False) (answers q calls)"

definition waiting :: "('w, 'a, 'd, 'h, 's) heart_env \<Rightarrow> KeysignRequest \<Rightarrow> ('w, 'd, 'h, 's) Heart \<Rightarrow> nat" where
  "waiting he q h = (if gget (ht_keysignRequests h) (keysign_work_id he (kq_KeysignMessages q)) = Some q then 1 else 0)"

lemma ledger_simps [simp]:
  "asks q (tr @ tr') = asks q tr @ asks q tr'" "posted (tr @ tr') = posted tr @ posted tr'" "posted [] = []" "asks q [] = []"
  "posted [(ev, calls)] = calls" "finished q [] = []" "answers q [] = []"
  "finished q (xs @ ys) = finished q xs @ finished q ys" "answers q (xs @ ys) = answers q xs @ answers q ys"
  by (simp_all add: asks_def posted_def finished_def answers_def)

lemma waiting_cong: "ht_keysignRequests h' = ht_keysignRequests h \<Longrightarrow> waiting he q h' = waiting he q h"
  by (simp add: waiting_def)

lemma react_waiting:
  assumes "keysigns_ok he h"
  shows "length (finished q (fst (heart_react a h))) + waiting he q (snd (heart_react a h)) \<le> waiting he q h \<and>
    (answers q (fst (heart_react a h)) \<noteq> [] \<longrightarrow> waiting he q h = 1)"
proof -
  let ?w = "keysign_work_id he (kq_KeysignMessages q)"
  have only: "gget (ht_keysignRequests h) w = Some q \<Longrightarrow> w = ?w" for w using assms by (simp add: keysigns_ok_def)
  consider (signing) r res where "a = CbSigningFinished r res" | (failed) r cs where "a = CbWorkFailed r cs"
    | (other) "answers q (fst (heart_react a h)) = []" "ht_keysignRequests (snd (heart_react a h)) = ht_keysignRequests h"
    by (cases a) (auto simp: react_defs answers_def)
  then show ?thesis
  proof cases
    case signing
    then show ?thesis by (cases "wr_WorkId r = ?w") (auto simp: finished_def react_answers react_gget waiting_def
        simp del: heart_react.simps dest: only)
  next
    case failed
    then show ?thesis by (cases "wr_WorkId r = ?w") (auto simp: finished_def react_answers react_gget waiting_def
        simp del: heart_react.simps dest: only)
  qed (simp_all add: finished_def waiting_def)
qed

lemma reacts_waiting:
  "keysigns_ok he h \<Longrightarrow> heart_reacts acts h = (calls, h') \<Longrightarrow>
   length (finished q calls) + waiting he q h' \<le> waiting he q h \<and> (answers q calls \<noteq> [] \<longrightarrow> waiting he q h = 1)"
proof (induction acts arbitrary: h calls)
  case (Cons a acts)
  obtain calls1 h1 where a: "heart_react a h = (calls1, h1)" by fastforce
  obtain calls2 where rest: "heart_reacts acts h1 = (calls2, h')" "calls = calls1 @ calls2"
    using Cons.prems(2) a by (auto split: prod.splits)
  have "keysigns_ok he h1" using keysigns_ok_react [OF Cons.prems(1), of a] a by simp
  note later = Cons.IH [OF this rest(1)] and now = react_waiting [OF Cons.prems(1), of q a, unfolded a fst_conv snd_conv]
  have "waiting he q h \<le> 1" by (simp add: waiting_def)
  with later now show ?case by (auto simp: rest(2))
qed simp

lemma startWork_actions:
  assumes "startWork env r e = Ret (acts, e')"
  shows "\<exists>xs. acts = map (FromWorker (wr_WorkId r)) xs"
proof -
  obtain cache msgs where "PopAllMessages (ee_grow env) (ee_popOrder env (en_preworkCache e)) (wr_WorkId r) None (en_preworkCache e) = (cache, msgs)"
    by fastforce
  then show ?thesis using assms by (auto simp: startWork_def Let_def go_bind_eq_Ret_iff)
qed

lemma startNextWork_actions:
  assumes "startNextWork env e = Ret (acts, e')" and "a \<in> set acts"
  shows "\<exists>w x. a = FromWorker w x"
  using assms by (auto simp: startNextWork_def split: prod.splits option.splits dest!: startWork_actions)

lemma reacts_ignore_workers: "\<forall>a \<in> set acts. \<exists>w x. a = FromWorker w x \<Longrightarrow> heart_reacts acts h = ([], h)"
  by (induction acts) auto

lemma AddRequest_silent: "AddRequest env r e = Ret (Done e' (err, acts)) \<Longrightarrow> heart_reacts acts h = ([], h)"
  by (elim AddRequest_cases) (auto intro!: reacts_ignore_workers dest: startNextWork_actions)

lemma on_engine_Done: "on_engine f h = Ret (Done h' b) \<Longrightarrow> \<exists>e e'. ht_engine h = Some e \<and> f e = Ret (Done e' b)"
proof -
  assume "on_engine f h = Ret (Done h' b)"
  then obtain e p where "ht_engine h = Some e" "f e = Ret p"
    "Done h' b = (case p of Done e' b \<Rightarrow> Done (h\<lparr>ht_engine := Some e'\<rparr>) b | Stuck e' \<Rightarrow> Stuck (h\<lparr>ht_engine := Some e'\<rparr>))"
    by (auto simp: on_engine_def ret_iffs)
  then show ?thesis by (cases p) auto
qed

lemma Keysign_silent:
  assumes "heart_Keysign he q keys d h0 = Ret (Done h1 (err, acts))"
  shows "heart_reacts acts h = ([], h)"
  using assms by (auto simp: heart_Keysign_def then_do_Ret ret_iffs dest!: on_engine_Done dest: AddRequest_silent)

lemma SetPrivKey_requests:
  assumes "heart_SetPrivKey he encryptedKey keyType d h = Ret p"
  shows "ht_keysignRequests (state_of p) = ht_keysignRequests h"
proof -
  have "ht_keysignRequests (state_of r) = ht_keysignRequests h1" if "initConnectionManager he d h1 = Ret r" for h1 r
    using that by (rule init_started) (auto simp: started_from_def same_frame_def)
  from this [of "h\<lparr>ht_privateKey := Some _\<rparr>"] show ?thesis
    using assms by (fastforce simp: heart_SetPrivKey_def ret_iffs then_do_Ret split: prod.splits)
qed

text \<open>A call either takes a keysign request and posts nothing, or only reacts to the engine with the requests it had.\<close>

lemma heart_call_cases:
  fixes he :: "('w, 'a, 'd, 'h, 's) heart_env"
  assumes "growth (ee_grow (he_engine he))" and "heart_call he ev h = Ret (calls, h')"
  obtains (reacts) acts :: "'a engine_action list" and h1 where
      "ht_keysignRequests h1 = ht_keysignRequests h" "heart_reacts acts h1 = (calls, h')"
  | (takes) q keys d where "ev = HvKeysign q keys d" "calls = []"
      "ht_keysignRequests h' = gput (keysign_work_id he (kq_KeysignMessages q)) q (ht_keysignRequests h)"
proof -
  have silent: thesis if "ht_keysignRequests h' = ht_keysignRequests h" "calls = []"
    using reacts [of h' "[]"] that by simp
  have reacting: thesis
    if "reacted p = (calls, h')" "ht_keysignRequests (state_of p) = ht_keysignRequests h"
    for p :: "(('w, 'd, 'h, 's) Heart, 'a engine_action list) progress"
    using that reacts silent by (cases p) auto
  show thesis
  proof (cases ev)
    case (HvKeygen keygenId keyType keys)
    then obtain p where p: "then_do (heart_Keygen he keygenId keyType keys h) (\<lambda>h' (err, acts). Ret (Done h' acts)) = Ret p"
      "reacted p = (calls, h')" using assms(2) by (auto simp: go_bind_eq_Ret_iff)
    from p(1) have "ht_keysignRequests (state_of p) = ht_keysignRequests h"
      by (auto simp: then_do_Ret same_frame_def dest!: Keygen_frame [OF assms(1)])
    with p(2) show thesis by (rule reacting)
  next
    case (HvKeysign q keys d)
    then obtain p where p: "heart_Keysign he q keys d h = Ret p" "calls = []" "h' = state_of p"
      using assms(2) by (auto simp: go_bind_eq_Ret_iff then_do_Ret Keysign_silent)
    from assms(1) p(1) show thesis
    proof (cases rule: Keysign_frame)
      case kept
      then show thesis using silent p by (simp add: same_frame_def)
    next
      case (taken h1)
      then show thesis using takes [OF HvKeysign p(2)] p(3) by simp
    qed
  next
    case (HvEngine ee)
    then obtain p where p: "on_engine (engine_call (engine_env_of he h) ee) h = Ret p" "reacted p = (calls, h')"
      using assms(2) by (auto simp: go_bind_eq_Ret_iff)
    from on_engine_state [OF p(1)] have "ht_keysignRequests (state_of p) = ht_keysignRequests h" by auto
    with p(2) show thesis by (rule reacting)
  next
    case (HvSetPrivKey encryptedKey keyType d)
    then show thesis using assms(2) silent by (auto simp: go_bind_eq_Ret_iff dest!: SetPrivKey_requests)
  qed (use assms(2) silent in \<open>auto simp: heart_SetSisuReady_def Let_def ret_iffs SetBootstrappedKeys_def split: option.split_asm\<close>)
qed

lemma heart_life_ledger:
  assumes grow: "growth (ee_grow (he_engine he))" and "heart_life he cfg tr h"
  shows "length (finished q (posted tr)) + waiting he q h \<le> length (asks q tr) \<and>
    (answers q (posted tr) \<noteq> [] \<longrightarrow> asks q tr \<noteq> [])"
  using assms(2)
proof induction
  case born
  then show ?case by (simp add: waiting_def NewHeart_def)
next
  case (called tr h ev calls h')
  have ok: "keysigns_ok he h" using heart_life_wf [OF grow called.hyps(1)] by (simp add: heart_wf_def)
  have mono: "length (asks q tr) \<le> length (asks q (tr @ [(ev, calls)]))" by simp
  from grow called.hyps(2) show ?case
  proof (cases rule: heart_call_cases)
    case (reacts acts h1)
    have h1: "keysigns_ok he h1" "waiting he q h1 = waiting he q h" using ok reacts(1) by (simp_all add: keysigns_ok_def waiting_def)
    note balance = reacts_waiting [OF h1(1) reacts(2), of q, unfolded h1(2)]
    have "answers q (posted tr) \<noteq> [] \<or> waiting he q h = 1 \<Longrightarrow> asks q tr \<noteq> []" using called.IH by (cases "asks q tr") auto
    then show ?thesis using balance called.IH mono by auto
  next
    case (takes q' keys d)
    have "waiting he q h' \<le> waiting he q h + (if q' = q then 1 else 0)"
      unfolding waiting_def takes(3) by (cases "q' = q") auto
    moreover have "length (asks q [(ev, calls)]) = (if q' = q then 1 else 0)" by (simp add: asks_def takes(1))
    ultimately show ?thesis using called.IH by (simp add: takes(2))
  qed
qed

subsection \<open>The guarantees for a whole life\<close>

text \<open>
  C14. As long as the calls come one after the other and none of them panics, a heart is well-formed
  whatever calls, messages and worker callbacks it gets: its configuration and AES key are the ones it was
  made with; it has a connection manager and an engine exactly when its private key has been set; the
  engine's own party is the one every node computes from the public key, it has at most \<open>MaxWorker\<close>
  workers and a well-formed queue; each waiting keysign request stands under its own work id; and a heart
  that is ready has its key, its engine, and the listener that hands the engine the messages of the
  network. (A call that panics can leave a heart half changed, which the RPC server that recovers the panic
  goes on to use: \<open>SetSisuReady\<close> before \<open>SetPrivKey\<close> leaves it ready without an engine. Such lives are
  excluded, and so are calls that overlap.)
\<close>

theorem heart_life_well_formed:
  assumes "growth (ee_grow (he_engine he))" and "heart_life he cfg tr h"
  shows "heart_wf he cfg h \<and>
    (ht_ready h \<longrightarrow> (\<exists>sk e cm. ht_privateKey h = Some sk \<and> ht_engine h = Some e \<and> engine_of_key he sk e \<and>
       ht_cm h = Some cm \<and> getListener TSSProtocolID cm = Some ()))"
  using heart_life_wf [OF assms] by (auto simp: heart_wf_def option_rel_Some2 option_rel_Some1)

text \<open>
  C8. During the life of a heart, whatever the network and the workers do: a keysign result names a request only
  if Sisu asked for that request; and the results that are not failures, together with the request still
  waiting, are at most as many as the times Sisu asked. So one call never gets two signatures.
\<close>

theorem heart_life_answers:
  assumes "growth (ee_grow (he_engine he))" and "heart_life he cfg tr h"
  shows "length (finished q (posted tr)) + waiting he q h \<le> length (asks q tr) \<and>
    (answers q (posted tr) \<noteq> [] \<longrightarrow> asks q tr \<noteq> [])"
  using assms by (rule heart_life_ledger)

subsection \<open>A life for evaluation\<close>

lemma pending_New: "pending NewRequestQueue = []"
  by (simp add: NewRequestQueue_def pending_def)

lemma sample_up:
  "\<exists>h1 d1. initConnectionManager sample_heart_env 0 (new_heart\<lparr>ht_privateKey := Some \<lparr>sk_Type = ''ed25519'', sk_Bytes = [9]\<rparr>\<rparr>) =
     Ret (Done h1 (None, d1)) \<and> (\<exists>cm. ht_cm h1 = Some cm \<and> idle_heart (h1\<lparr>ht_ready := True, ht_cm := Some (AddListener TSSProtocolID () cm)\<rparr>))"
  by (simp add: initConnectionManager_def sample_heart_env_def sample_engine_env_def new_heart_def NewHeart_def NewNode_def
      ref_codec_def go_simps then_do_def on_engine_def engine_Init_def Load_def sample_db_reads NewEngine_def
      NewAvailPresignManager_def loadPeers_def add_nodes_def NewNodes_def AddNodes_def sample_config_def
      NewConnectionManager_def cm_Start_def sample_p2p_def discover_def createConnections_def Let_def idle_heart_def
      engine_free_def engine_ok_def pending_New MaxWorker_def)

text \<open>The key arrives and Sisu is ready.\<close>

lemma sample_life:
  obtains enc h where "heart_life sample_heart_env sample_config
      [(HvSetPrivKey enc ''ed25519'' 0, []), (HvSisuReady True, [])] h" and "idle_heart h"
proof -
  obtain enc where "AESDEncrypt xor_cipher (\<lambda>_. Inr one_nonce) [9] (replicate 32 7) = Ret (Inr enc)"
    by (simp add: AESDEncrypt_def NewCipher_def gcm_Seal_def one_nonce_def gcmNonceSize_def gcmMaxLength_def Let_def)
  moreover have new: "ht_privateKey new_heart = None" "ht_aesKey new_heart = replicate 32 7" "he_aes sample_heart_env = xor_cipher"
    by (simp_all add: new_heart_def NewHeart_def sample_config_def sample_heart_env_def)
  ultimately have key: "hex_DecodeString (hex_EncodeToString enc) = Inr enc"
    "AESDecrypt (he_aes sample_heart_env) enc (ht_aesKey new_heart) = Ret (Inr [9])"
    using SetPrivKey_decrypted [of sample_heart_env one_nonce "[9]" new_heart enc] by simp_all
  obtain h1 d1 cm where up: "initConnectionManager sample_heart_env 0
      (new_heart\<lparr>ht_privateKey := Some \<lparr>sk_Type = ''ed25519'', sk_Bytes = [9]\<rparr>\<rparr>) = Ret (Done h1 (None, d1))"
    and cm: "ht_cm h1 = Some cm" and idle: "idle_heart (h1\<lparr>ht_ready := True, ht_cm := Some (AddListener TSSProtocolID () cm)\<rparr>)"
    using sample_up by blast
  have "heart_life sample_heart_env sample_config [] new_heart" unfolding new_heart_def by (rule born)
  from called [OF this, of "HvSetPrivKey (hex_EncodeToString enc) ''ed25519'' 0" "[]" h1]
  have "heart_life sample_heart_env sample_config [(HvSetPrivKey (hex_EncodeToString enc) ''ed25519'' 0, [])] h1"
    using key new up by (simp add: heart_SetPrivKey_def then_do_def)
  from called [OF this, of "HvSisuReady True" "[]"] that idle show thesis
    using cm by (auto simp: heart_SetSisuReady_def Let_def)
qed

theorem heart_life_well_formed_witness:
  "\<exists>enc h e. heart_life sample_heart_env sample_config [(HvSetPrivKey enc ''ed25519'' 0, []), (HvSisuReady True, [])] h \<and>
     ht_ready h \<and> ht_engine h = Some e \<and> (\<exists>sk. ht_privateKey h = Some sk \<and> engine_of_key sample_heart_env sk e)"
proof -
  obtain enc h where life: "heart_life sample_heart_env sample_config
      [(HvSetPrivKey enc ''ed25519'' 0, []), (HvSisuReady True, [])] h" and "idle_heart h"
    by (rule sample_life)
  then show ?thesis using heart_life_well_formed [OF sample_env_facts(2) life] by (auto simp: idle_heart_def)
qed

text \<open>A taken request whose work ends because the node is not selected: one result is posted.\<close>

lemma not_selected_posts:
  fixes h :: "('w, 'd, 'h, 's) Heart"
  assumes "engine_ok e" and "ht_engine h = Some e" and "pending (en_requestQueue e) = []" and "wr_WorkType r = EcSigning"
    and "gget (ht_keysignRequests h) (wr_WorkId r) = Some q"
  shows "\<exists>h'. heart_call he (HvEngine (EvNotSelected r)) h =
    Ret ([PostKeysignResult (zero_KeysignResult\<lparr>ks_Outcome := OutcometNotSelected, ks_Request := Some q\<rparr>)], h')"
proof -
  let ?env = "engine_env_of he h" and ?e = "e\<lparr>en_workers := gdel (wr_WorkId r) (en_workers e)\<rparr>"
  have "engine_ok ?e" using assms(1) length_gdel_le [of "en_workers e" "wr_WorkId r"] by (auto simp: engine_ok_def)
  moreover have "\<forall>r \<in> set (pending (en_requestQueue ?e)). can_start ?env r" using assms(3) by simp
  ultimately obtain acts e' where fin: "startNextWork ?env ?e = Ret (acts, e')" by (rule startNextWork_spec)
  have "heart_reacts acts h' = ([], h')" for h' :: "('w, 'd, 'h, 's) Heart"
    using startNextWork_actions [OF fin] by (intro reacts_ignore_workers) blast
  then show ?thesis
    using assms(2,4,5) fin
    by (simp add: on_engine_def engine_OnNodeNotSelected_def finishWorker_def go_simps heart_OnWorkSigningFinished_def Let_def)
qed

theorem heart_life_answers_witness:
  "\<exists>tr h. heart_life sample_heart_env sample_config tr h \<and> length (finished sample_keysign (posted tr)) = 1 \<and>
     length (asks sample_keysign tr) = 1 \<and> waiting sample_heart_env sample_keysign h = 0"
proof -
  let ?he = sample_heart_env and ?q = sample_keysign
  define r where "r = (abc_work ''x'')\<lparr>wr_WorkId := keysign_work_id ?he (kq_KeysignMessages ?q), wr_WorkType := EcSigning\<rparr>"
  obtain enc h where life: "heart_life ?he sample_config [(HvSetPrivKey enc ''ed25519'' 0, []), (HvSisuReady True, [])] h"
    and idle: "idle_heart h" by (rule sample_life)
  obtain nodes where nodes: "NewNodes (ee_lib (he_engine ?he)) (he_codec ?he) two_keys = Ret nodes" using two_keys_ok(1) by blast
  have ecdsa: "''ecdsa'' = KEY_TYPE_ECDSA (he_chain ?he) \<or> ''ecdsa'' = KEY_TYPE_EDDSA (he_chain ?he)"
    "kq_KeyType ?q = KEY_TYPE_ECDSA (he_chain ?he)" by (simp_all add: sample_env_facts(4) sample_keysign_def)
  obtain h1 e1 acts where sign: "heart_Keysign ?he ?q two_keys 0 h = Ret (Done h1 (None, acts))"
    and e1: "ht_engine h1 = Some e1" "pending (en_requestQueue e1) = []"
    using idle_starts [OF sample_env_facts(1) nodes sample_env_facts(2,3) idle two_keys_ok(3) ecdsa sample_env_facts(5)] by blast
  have life1: "heart_life ?he sample_config
      ([(HvSetPrivKey enc ''ed25519'' 0, []), (HvSisuReady True, [])] @ [(HvKeysign ?q two_keys 0, [])]) h1"
    using sign by (intro called [OF life]) (simp add: then_do_def Keysign_silent [OF sign])
  have ok: "engine_ok e1" using heart_life_wf [OF sample_env_facts(2) life1] e1(1) by (auto simp: heart_wf_def option_rel_Some2 engine_of_key_def)
  have "wr_WorkType r = EcSigning" "gget (ht_keysignRequests h1) (wr_WorkId r) = Some ?q"
    using taken_request [OF sign ecdsa(2)] by (simp_all add: r_def)
  from not_selected_posts [OF ok e1 this, of ?he] obtain h2 where "heart_call ?he (HvEngine (EvNotSelected r)) h1 =
      Ret ([PostKeysignResult (zero_KeysignResult\<lparr>ks_Outcome := OutcometNotSelected, ks_Request := Some ?q\<rparr>)], h2)"
    by blast
  note life2 = called [OF life1 this]
  from heart_life_answers [OF sample_env_facts(2) life2, of ?q] life2 show ?thesis
    by (intro exI [of _ "_ @ _"] exI [of _ h2] conjI) (assumption | simp add: asks_def posted_def finished_def answers_def)+
qed

end
