(* ===== verification/Sisu_Client.thy ===== *)
theory Sisu_Client
  imports Heart
begin

section \<open>The client of Sisu: client/client.go\<close>

text \<open>
  The JSON-RPC client of go-ethereum is a parameter: \<open>rc_Dial i\<close> is the outcome of the \<open>i\<close>-th attempt to dial,
  \<open>rc_Ping c i\<close> the error of the ping after it on the connection \<open>c\<close>, and the other fields are the errors of the posts. A failed dial returns a nil connection.
\<close>

record 'c rpc_client =
  rc_Dial :: "string \<Rightarrow> nat \<Rightarrow> 'c result"
  rc_Ping :: "'c \<Rightarrow> nat \<Rightarrow> string option"
  rc_keygenResult :: "'c \<Rightarrow> KeygenResult \<Rightarrow> string option"
  rc_keysignResult :: "'c \<Rightarrow> KeysignResult \<Rightarrow> string option"

record 'c DefaultClient =
  cl_client :: "'c option"
  cl_url :: string

definition NewClient :: "string \<Rightarrow> 'c DefaultClient" where
  "NewClient url = \<lparr>cl_client = None, cl_url = url\<rparr>"

definition client_Ping :: "'c rpc_client \<Rightarrow> nat \<Rightarrow> 'c DefaultClient \<Rightarrow> string option go" where
  "client_Ping rc i c = go_bind (go_deref (cl_client c)) (\<lambda>conn. Ret (rc_Ping rc conn i))"

text \<open>The loop ends when a dial and the ping after it succeed; otherwise it has no value.\<close>

partial_function (option) TryDial :: "'c rpc_client \<Rightarrow> nat \<Rightarrow> 'c DefaultClient \<Rightarrow> 'c DefaultClient go option" where
  "TryDial rc i c =
     (case rc_Dial rc (cl_url c) i of
        Inl err \<Rightarrow> TryDial rc (Suc i) (c\<lparr>cl_client := None\<rparr>)
      | Inr conn \<Rightarrow>
          (case client_Ping rc i (c\<lparr>cl_client := Some conn\<rparr>) of
             Panic p \<Rightarrow> Some (Panic p)
           | Hang \<Rightarrow> None
           | Ret None \<Rightarrow> Some (Ret (c\<lparr>cl_client := Some conn\<rparr>))
           | Ret (Some err) \<Rightarrow> TryDial rc (Suc i) (c\<lparr>cl_client := Some conn\<rparr>)))"

text \<open>Posting before the first successful dial dereferences a nil connection.\<close>

definition client_PostKeygenResult :: "'c rpc_client \<Rightarrow> KeygenResult \<Rightarrow> 'c DefaultClient \<Rightarrow> string option go" where
  "client_PostKeygenResult rc result c = go_bind (go_deref (cl_client c)) (\<lambda>conn. Ret (rc_keygenResult rc conn result))"

definition client_PostKeysignResult :: "'c rpc_client \<Rightarrow> KeysignResult \<Rightarrow> 'c DefaultClient \<Rightarrow> string option go" where
  "client_PostKeysignResult rc result c = go_bind (go_deref (cl_client c)) (\<lambda>conn. Ret (rc_keysignResult rc conn result))"

text \<open>Presign results are not sent: the function returns at once.\<close>

definition client_PostPresignResult :: "PresignResult \<Rightarrow> 'c DefaultClient \<Rightarrow> string option go" where
  "client_PostPresignResult result c = Ret None"

subsection \<open>Dialling\<close>

definition answers_at :: "'c rpc_client \<Rightarrow> string \<Rightarrow> nat \<Rightarrow> bool" where
  "answers_at rc url i \<longleftrightarrow> (\<exists>conn. rc_Dial rc url i = Inr conn \<and> rc_Ping rc conn i = None)"

lemma TryDial_step:
  "TryDial rc i c =
     (case rc_Dial rc (cl_url c) i of
        Inl err \<Rightarrow> TryDial rc (Suc i) (c\<lparr>cl_client := None\<rparr>)
      | Inr conn \<Rightarrow>
          if rc_Ping rc conn i = None then Some (Ret (c\<lparr>cl_client := Some conn\<rparr>))
          else TryDial rc (Suc i) (c\<lparr>cl_client := Some conn\<rparr>))"
  by (subst TryDial.simps) (auto simp: client_Ping_def go_simps split: sum.splits option.splits)

lemma TryDial_first:
  "answers_at rc (cl_url c) (i + k) \<Longrightarrow> \<forall>j < k. \<not> answers_at rc (cl_url c) (i + j) \<Longrightarrow>
   \<exists>conn. rc_Dial rc (cl_url c) (i + k) = Inr conn \<and> TryDial rc i c = Some (Ret (c\<lparr>cl_client := Some conn\<rparr>))"
proof (induction k arbitrary: i c)
  case 0
  then show ?case by (auto simp: answers_at_def TryDial_step [of rc i])
next
  case (Suc k)
  have "\<not> answers_at rc (cl_url c) i" using Suc.prems(2) by force
  then have "\<exists>x. TryDial rc i c = TryDial rc (Suc i) (c\<lparr>cl_client := x\<rparr>)"
    unfolding TryDial_step [of rc i c] by (auto simp: answers_at_def split: sum.splits)
  then obtain x where x: "TryDial rc i c = TryDial rc (Suc i) (c\<lparr>cl_client := x\<rparr>)" ..
  have "\<exists>conn. rc_Dial rc (cl_url c) (Suc i + k) = Inr conn \<and>
      TryDial rc (Suc i) (c\<lparr>cl_client := x\<rparr>) = Some (Ret (c\<lparr>cl_client := Some conn\<rparr>))"
    using Suc.IH [where i = "Suc i" and c = "c\<lparr>cl_client := x\<rparr>"] Suc.prems by fastforce
  then show ?case using x by simp
qed

lemma TryDial_answered:
  assumes "TryDial rc i c = Some r"
  shows "\<exists>k. answers_at rc (cl_url c) k"
proof (rule TryDial.raw_induct [of "\<lambda>rc i c r. \<exists>k. answers_at rc (cl_url c) k", OF _ assms])
  fix loop :: "'a rpc_client \<Rightarrow> nat \<Rightarrow> 'a DefaultClient \<Rightarrow> 'a DefaultClient go option" and rc i c r
  assume step: "\<And>rc i c r. loop rc i c = Some r \<Longrightarrow> \<exists>k. answers_at rc (cl_url c) k"
    and body: "(case rc_Dial rc (cl_url c) i of
        Inl err \<Rightarrow> loop rc (Suc i) (c\<lparr>cl_client := None\<rparr>)
      | Inr conn \<Rightarrow>
          (case client_Ping rc i (c\<lparr>cl_client := Some conn\<rparr>) of
             Panic p \<Rightarrow> Some (Panic p)
           | Hang \<Rightarrow> None
           | Ret None \<Rightarrow> Some (Ret (c\<lparr>cl_client := Some conn\<rparr>))
           | Ret (Some err) \<Rightarrow> loop rc (Suc i) (c\<lparr>cl_client := Some conn\<rparr>))) = Some r"
  show "\<exists>k. answers_at rc (cl_url c) k"
  proof (cases "answers_at rc (cl_url c) i")
    case False
    then obtain x where "loop rc (Suc i) (c\<lparr>cl_client := x\<rparr>) = Some r"
      using body by (auto simp: answers_at_def client_Ping_def go_simps split: sum.splits option.splits)
    from step [OF this] show ?thesis by simp
  qed blast
qed

text \<open>
  \<open>TryDial\<close> returns exactly when Sisu answers a dial and the ping after it at some attempt. When it
  returns, it has not panicked and the client is connected: posting a result reaches Sisu and does
  not panic.
\<close>

theorem TryDial_returns_iff:
  fixes rc :: "'c rpc_client"
  shows "(TryDial rc 0 (NewClient url) \<noteq> None \<longleftrightarrow> (\<exists>i. answers_at rc url i)) \<and>
   (\<forall>r. TryDial rc 0 (NewClient url) = Some r \<longrightarrow>
     (\<exists>conn. r = Ret ((NewClient url)\<lparr>cl_client := Some conn\<rparr>) \<and>
       client_PostKeysignResult rc res ((NewClient url)\<lparr>cl_client := Some conn\<rparr>) = Ret (rc_keysignResult rc conn res) \<and>
       client_PostKeygenResult rc res' ((NewClient url)\<lparr>cl_client := Some conn\<rparr>) = Ret (rc_keygenResult rc conn res')))"
proof -
  have url: "cl_url (NewClient url :: 'c DefaultClient) = url" by (simp add: NewClient_def)
  have first: "\<exists>conn. TryDial rc 0 (NewClient url) = Some (Ret ((NewClient url)\<lparr>cl_client := Some conn\<rparr>))"
    if "\<exists>i. answers_at rc url i"
  proof -
    let ?k = "LEAST i. answers_at rc url i"
    have "answers_at rc url ?k" using that by (rule LeastI_ex)
    moreover have "\<forall>j < ?k. \<not> answers_at rc url j" using not_less_Least by blast
    ultimately show ?thesis using TryDial_first [of rc "NewClient url" 0 ?k, unfolded url add_0] by blast
  qed
  have posts: "client_PostKeysignResult rc res ((NewClient url)\<lparr>cl_client := Some conn\<rparr>) = Ret (rc_keysignResult rc conn res)"
    "client_PostKeygenResult rc res' ((NewClient url)\<lparr>cl_client := Some conn\<rparr>) = Ret (rc_keygenResult rc conn res')" for conn
    by (simp_all add: client_PostKeysignResult_def client_PostKeygenResult_def go_simps)
  have answered: "\<exists>i. answers_at rc url i" if "TryDial rc 0 (NewClient url) = Some r" for r
    using TryDial_answered [OF that] url by simp
  show ?thesis
  proof (intro conjI allI impI)
    show "TryDial rc 0 (NewClient url) \<noteq> None \<longleftrightarrow> (\<exists>i. answers_at rc url i)"
      using first answered by blast
    fix r assume r: "TryDial rc 0 (NewClient url) = Some r"
    then obtain conn where "r = Ret ((NewClient url)\<lparr>cl_client := Some conn\<rparr>)" using first [OF answered [OF r]] by auto
    then show "\<exists>conn. r = Ret ((NewClient url)\<lparr>cl_client := Some conn\<rparr>) \<and>
       client_PostKeysignResult rc res ((NewClient url)\<lparr>cl_client := Some conn\<rparr>) = Ret (rc_keysignResult rc conn res) \<and>
       client_PostKeygenResult rc res' ((NewClient url)\<lparr>cl_client := Some conn\<rparr>) = Ret (rc_keygenResult rc conn res')"
      using posts by blast
  qed
qed

definition late_rpc :: "nat rpc_client" where
  "late_rpc = \<lparr>rc_Dial = (\<lambda>_ i. if i = 0 then Inl ''refused'' else Inr i), rc_Ping = (\<lambda>_ i. if i < 2 then Some ''no answer'' else None),
     rc_keygenResult = (\<lambda>_ _. None), rc_keysignResult = (\<lambda>_ _. None)\<rparr>"

theorem TryDial_returns_iff_witness:
  "TryDial late_rpc 0 (NewClient ''sisu'') \<noteq> None \<and>
   (\<exists>conn. TryDial late_rpc 0 (NewClient ''sisu'') = Some (Ret ((NewClient ''sisu'')\<lparr>cl_client := Some conn\<rparr>)))"
proof -
  have "answers_at late_rpc ''sisu'' 2" by (simp add: answers_at_def late_rpc_def)
  then show ?thesis
    using TryDial_returns_iff [of late_rpc "''sisu''" zero_KeysignResult zero_KeygenResult] by blast
qed

end
