(* ===== verification/Server_Api.thy ===== *)
theory Server_Api
  imports Heart_Api
begin

section \<open>The server: server/api.go, server/tss\_api.go, server/single\_node\_api.go\<close>

text \<open>
  Sisu calls the functions of one of two APIs: the one in front of the heart, and one for a single
  node in development, which signs with keys of its own.
\<close>

record PubKeyWrapper =
  pw_KeyType :: string
  pw_Key :: bytes

subsection \<open>In front of the heart\<close>

text \<open>
  \<open>KeyGen\<close> leaves the key of an unknown type nil; \<open>NewNode\<close> then calls \<open>Type\<close> on a nil interface. The
  call panics when the list of keys is first used, so after the check that the heart is ready.
\<close>

definition keygen_pubkeys :: "PubKeyWrapper list \<Rightarrow> PubKey option list" where
  "keygen_pubkeys keyWrappers =
     map (\<lambda>wrapper. if pw_KeyType wrapper = ''ed25519'' \<or> pw_KeyType wrapper = ''secp256k1''
                    then Some \<lparr>pk_Type = pw_KeyType wrapper, pk_Bytes = pw_Key wrapper\<rparr> else None) keyWrappers"

fun deref_keys :: "PubKey option list \<Rightarrow> PubKey list go" where
  "deref_keys [] = Ret []"
| "deref_keys (k # ks) = go_bind (go_deref k) (\<lambda>k. go_bind (deref_keys ks) (\<lambda>ks. Ret (k # ks)))"

definition tss_KeyGen ::
  "('w, 'a, 'd, 'h, 's) heart_env \<Rightarrow> string \<Rightarrow> string \<Rightarrow> PubKeyWrapper list \<Rightarrow> ('w, 'd, 'h, 's) Heart \<Rightarrow>
   (('w, 'd, 'h, 's) Heart, string option \<times> 'a engine_action list) progress go" where
  "tss_KeyGen he keygenId chain keyWrappers h =
     (if keyWrappers = [] then Ret (Done h (Some ''invalid keys array cannot be empty'', []))
      else if \<not> ht_ready h then Ret (Done h (Some ErrDheartNotReady, []))
      else go_bind (deref_keys (keygen_pubkeys keyWrappers)) (\<lambda>pubKeys. heart_Keygen he keygenId chain pubKeys h))"

fun getPubkeysFromWrapper :: "PubKeyWrapper list \<Rightarrow> PubKey list result" where
  "getPubkeysFromWrapper [] = Inr []"
| "getPubkeysFromWrapper (wrapper # wrappers) =
     (if pw_KeyType wrapper = ''ed25519'' \<or> pw_KeyType wrapper = ''secp256k1''
      then map_sum id ((#) \<lparr>pk_Type = pw_KeyType wrapper, pk_Bytes = pw_Key wrapper\<rparr>) (getPubkeysFromWrapper wrappers)
      else Inl (''unknown key type '' @ pw_KeyType wrapper))"

definition tss_KeySign ::
  "('w, 'a, 'd, 'h, 's) heart_env \<Rightarrow> KeysignRequest \<Rightarrow> PubKeyWrapper list \<Rightarrow> 'd \<Rightarrow> ('w, 'd, 'h, 's) Heart \<Rightarrow>
   (('w, 'd, 'h, 's) Heart, string option \<times> 'a engine_action list) progress go" where
  "tss_KeySign he req keyWrappers d h =
     (case getPubkeysFromWrapper keyWrappers of
        Inl err \<Rightarrow> Ret (Done h (Some err, []))
      | Inr pubKeys \<Rightarrow> heart_Keysign he req pubKeys d h)"

definition tss_Init ::
  "('w, 'a, 'd, 'h, 's) heart_env \<Rightarrow> (nat \<Rightarrow> (string option \<times> 'd) go) \<Rightarrow> ('w, 'd, 'h, 's) Heart \<Rightarrow> 'd go option" where
  "tss_Init he attempts h =
     map_option (\<lambda>r. go_bind r (\<lambda>(err, d). case err of None \<Rightarrow> Ret d | Some e \<Rightarrow> Panic (Raised e))) (heart_Start he attempts h)"

definition tss_SetSisuReady :: "bool \<Rightarrow> ('w, 'd, 'h, 's) Heart \<Rightarrow> unit go \<times> ('w, 'd, 'h, 's) Heart" where
  "tss_SetSisuReady isReady h = heart_SetSisuReady isReady h"

definition tss_SetPrivKey ::
  "('w, 'a, 'd, 'h, 's) heart_env \<Rightarrow> string \<Rightarrow> string \<Rightarrow> 'd \<Rightarrow> ('w, 'd, 'h, 's) Heart \<Rightarrow>
   (('w, 'd, 'h, 's) Heart, string option \<times> 'd) progress go" where
  "tss_SetPrivKey he encodedKey keyType d h = heart_SetPrivKey he encodedKey keyType d h"

definition tss_BlockEnd :: "int \<Rightarrow> ('w, 'd, 'h, 's) Heart \<Rightarrow> string option" where
  "tss_BlockEnd blockHeight h = heart_BlockEnd blockHeight h"

subsection \<open>A single node\<close>

text \<open>
  The key libraries are parameters; their signing functions are given the private key as it is, nil
  before the first \<open>KeyGen\<close>, and may panic. Serialising the nil signature of a failed EdDSA signing
  panics.
\<close>

record single_lib =
  sn_GenerateKey :: "opaque result"
  sn_FromECDSAPub :: "opaque \<Rightarrow> bytes"
  sn_GeneratePrivateKey :: "opaque option"
  sn_edSerialize :: "opaque \<Rightarrow> bytes"
  sn_Sign :: "bytes option \<Rightarrow> opaque option \<Rightarrow> bytes result go"
  sn_edSign :: "opaque option \<Rightarrow> bytes option \<Rightarrow> bytes option go"

record SingleNodeApi =
  sn_ecPrivate :: "opaque option"
  sn_edPrivate :: "opaque option"

definition NewSingleNodeApi :: SingleNodeApi where
  "NewSingleNodeApi = \<lparr>sn_ecPrivate = None, sn_edPrivate = None\<rparr>"

text \<open>\<open>KeyGen\<close> returns nil and starts a goroutine, which makes the key and posts the result.\<close>

definition single_KeyGen :: "libchain \<Rightarrow> single_lib \<Rightarrow> string \<Rightarrow> SingleNodeApi \<Rightarrow> (client_call list \<times> SingleNodeApi) go" where
  "single_KeyGen ch sl keyType api =
     (if keyType = KEY_TYPE_ECDSA ch
      then case sn_GenerateKey sl of
             Inl err \<Rightarrow> Panic (Raised err)
           | Inr ecPrivate \<Rightarrow>
               Ret ([PostKeygenResult (zero_KeygenResult\<lparr>kg_KeyType := keyType, kg_Outcome := OutcomeSuccess,
                        kg_PubKeyBytes := sn_FromECDSAPub sl ecPrivate\<rparr>)], api\<lparr>sn_ecPrivate := Some ecPrivate\<rparr>)
      else if keyType = KEY_TYPE_EDDSA ch
      then go_bind (go_deref (sn_GeneratePrivateKey sl)) (\<lambda>edPrivate.
             Ret ([PostKeygenResult (zero_KeygenResult\<lparr>kg_KeyType := keyType, kg_Outcome := OutcomeSuccess,
                      kg_PubKeyBytes := sn_edSerialize sl edPrivate\<rparr>)], api\<lparr>sn_edPrivate := Some edPrivate\<rparr>))
      else Ret ([PostKeygenResult zero_KeygenResult], api))"

definition getKeygenKey :: "string \<Rightarrow> string" where
  "getKeygenKey chain = ''keygen_'' @ chain"

definition keySignEth :: "single_lib \<Rightarrow> bytes option \<Rightarrow> SingleNodeApi \<Rightarrow> bytes result go" where
  "keySignEth sl bytesToSign api = sn_Sign sl bytesToSign (sn_ecPrivate api)"

definition keySignEddsa :: "single_lib \<Rightarrow> bytes option \<Rightarrow> SingleNodeApi \<Rightarrow> bytes result go" where
  "keySignEddsa sl bytesToSign api =
     go_bind (sn_edSign sl (sn_edPrivate api) bytesToSign) (\<lambda>sig.
       go_bind (go_deref sig) (\<lambda>sig. Ret (Inr sig)))"

text \<open>The loop over the messages: the first error is returned at once.\<close>

fun sign_messages ::
  "libchain \<Rightarrow> single_lib \<Rightarrow> string \<Rightarrow> nat \<Rightarrow> KeysignMessage list \<Rightarrow> SingleNodeApi \<Rightarrow> bytes list result go" where
  "sign_messages ch sl keyType i [] api = Ret (Inr [])"
| "sign_messages ch sl keyType i (msg # msgs) api =
     go_bind (if keyType = KEY_TYPE_ECDSA ch then keySignEth sl (km_BytesToSign msg) api
              else if keyType = KEY_TYPE_EDDSA ch then keySignEddsa sl (km_BytesToSign msg) api
              else Ret (Inl (''Unknown chain: '' @ km_OutChain msg @ '' for message at index '' @ dec_of_nat i))) (\<lambda>r.
       case r of
         Inl err \<Rightarrow> Ret (Inl err)
       | Inr signature \<Rightarrow>
           go_bind (sign_messages ch sl keyType (Suc i) msgs api) (\<lambda>rest. Ret (map_sum id ((#) signature) rest)))"

text \<open>
  The error variable that decides between the two posts is never assigned (the loop has one of its
  own), so the post of a failure is not reached.
\<close>

definition single_KeySign ::
  "libchain \<Rightarrow> single_lib \<Rightarrow> KeysignRequest \<Rightarrow> SingleNodeApi \<Rightarrow> (string option \<times> client_call list) go" where
  "single_KeySign ch sl req api =
     go_bind (sign_messages ch sl (kq_KeyType req) 0 (kq_KeysignMessages req) api) (\<lambda>r.
       case r of
         Inl err \<Rightarrow> Ret (Some err, [])
       | Inr signatures \<Rightarrow>
           Ret (None, [PostKeysignResult (zero_KeysignResult\<lparr>ks_Request := Some req, ks_Outcome := OutcomeSuccess,
                         ks_Signatures := signatures\<rparr>)]))"

definition single_SetPrivKey :: "string \<Rightarrow> string \<Rightarrow> SingleNodeApi \<Rightarrow> string option" where
  "single_SetPrivKey encodedKey keyType api = None"

definition single_BlockEnd :: "int \<Rightarrow> SingleNodeApi \<Rightarrow> string option" where
  "single_BlockEnd blockHeight api = None"

definition api_Version :: string where
  "api_Version = ''1''"

subsection \<open>The choice\<close>

datatype ('w, 'd, 'h, 's) Api = TssApi "('w, 'd, 'h, 's) Heart" | SingleApi SingleNodeApi

definition GetApi :: "HeartConfig \<Rightarrow> ('w, 'd, 'h, 's) Api" where
  "GetApi cfg = (if hc_UseOnMemory cfg then SingleApi NewSingleNodeApi else TssApi (NewHeart cfg))"

subsection \<open>What the APIs guarantee\<close>

lemma known_types_keys:
  "(\<forall>w \<in> set ws. pw_KeyType w = ''ed25519'' \<or> pw_KeyType w = ''secp256k1'') \<Longrightarrow>
   deref_keys (keygen_pubkeys ws) = Ret (map (\<lambda>w. \<lparr>pk_Type = pw_KeyType w, pk_Bytes = pw_Key w\<rparr>) ws) \<and>
   getPubkeysFromWrapper ws = Inr (map (\<lambda>w. \<lparr>pk_Type = pw_KeyType w, pk_Bytes = pw_Key w\<rparr>) ws)"
  by (induction ws) (auto simp: keygen_pubkeys_def go_simps)

lemma unknown_type_keys:
  "\<exists>w \<in> set ws. pw_KeyType w \<noteq> ''ed25519'' \<and> pw_KeyType w \<noteq> ''secp256k1'' \<Longrightarrow>
   deref_keys (keygen_pubkeys ws) = Panic NilDereference \<and> (\<exists>t. getPubkeysFromWrapper ws = Inl (''unknown key type '' @ t))"
proof (induction ws)
  case (Cons w ws)
  show ?case
  proof (cases "pw_KeyType w = ''ed25519'' \<or> pw_KeyType w = ''secp256k1''")
    case True
    then have "\<exists>w \<in> set ws. pw_KeyType w \<noteq> ''ed25519'' \<and> pw_KeyType w \<noteq> ''secp256k1''" using Cons.prems by auto
    then show ?thesis using Cons.IH True by (auto simp: keygen_pubkeys_def go_simps)
  next
    case False
    then show ?thesis by (auto simp: keygen_pubkeys_def go_simps)
  qed
qed simp

text \<open>
  C23. The keys Sisu sends are handed to the heart unchanged and in order when all of them are of a
  known type, by \<open>KeyGen\<close> and by \<open>KeySign\<close>. When one is not, \<open>KeySign\<close> returns an error and leaves the
  heart as it was, but \<open>KeyGen\<close> of a ready heart panics. Until Sisu is ready, both refuse every call
  with well-formed keys and change nothing.
\<close>

theorem tss_api_keys:
  fixes h :: "('w, 'd, 'h, 's) Heart"
  defines "keys \<equiv> \<lambda>ws. map (\<lambda>w. \<lparr>pk_Type = pw_KeyType w, pk_Bytes = pw_Key w\<rparr>) ws"
  assumes "ws \<noteq> []"
  shows "(if \<forall>w \<in> set ws. pw_KeyType w = ''ed25519'' \<or> pw_KeyType w = ''secp256k1''
     then tss_KeyGen he keygenId chain ws h = heart_Keygen he keygenId chain (keys ws) h \<and>
          tss_KeySign he req ws d h = heart_Keysign he req (keys ws) d h \<and>
          (\<not> ht_ready h \<longrightarrow> tss_KeyGen he keygenId chain ws h = Ret (Done h (Some ErrDheartNotReady, [])) \<and>
             tss_KeySign he req ws d h = Ret (Done h (Some ErrDheartNotReady, [])))
     else (\<exists>t. tss_KeySign he req ws d h = Ret (Done h (Some (''unknown key type '' @ t), []))) \<and>
          (ht_ready h \<longrightarrow> tss_KeyGen he keygenId chain ws h = Panic NilDereference))"
proof (cases "\<forall>w \<in> set ws. pw_KeyType w = ''ed25519'' \<or> pw_KeyType w = ''secp256k1''")
  case True
  from known_types_keys [OF this] show ?thesis
    using True assms(2) by (simp add: keys_def tss_KeyGen_def tss_KeySign_def heart_Keygen_def heart_Keysign_def)
next
  case False
  then have "\<exists>w \<in> set ws. pw_KeyType w \<noteq> ''ed25519'' \<and> pw_KeyType w \<noteq> ''secp256k1''" by blast
  from unknown_type_keys [OF this] show ?thesis
    using False assms(2) by (auto simp: tss_KeyGen_def tss_KeySign_def)
qed

theorem tss_api_keys_witness:
  "tss_KeyGen sample_heart_env ''k'' ''ecdsa'' [\<lparr>pw_KeyType = ''sr25519'', pw_Key = [1]\<rparr>] ready_heart = Panic NilDereference"
  using tss_api_keys [of "[\<lparr>pw_KeyType = ''sr25519'', pw_Key = [1]\<rparr>]" sample_heart_env "''k''" "''ecdsa''" ready_heart sample_keysign 0]
  by (simp add: ready_heart_free)

text \<open>
  The single node signs every message of a request, in order, and posts the signatures with the
  request; a failed signing is returned as an error and posts nothing.
\<close>

lemma sign_messages_all:
  "sign_messages ch sl kt i msgs api = Ret (Inr sigs) \<Longrightarrow> kt = KEY_TYPE_ECDSA ch \<Longrightarrow>
   list_all2 (\<lambda>m sig. sn_Sign sl (km_BytesToSign m) (sn_ecPrivate api) = Ret (Inr sig)) msgs sigs"
proof (induction msgs arbitrary: i sigs)
  case (Cons m msgs)
  then obtain sig r where "sn_Sign sl (km_BytesToSign m) (sn_ecPrivate api) = Ret (Inr sig)"
    "sign_messages ch sl kt (Suc i) msgs api = Ret r" "map_sum id ((#) sig) r = Inr sigs"
    by (auto simp: keySignEth_def ret_iffs)
  then show ?case using Cons.IH [of "Suc i"] Cons.prems(2) by (cases r) auto
qed simp

lemma single_KeySign_posts:
  assumes "single_KeySign ch sl req api = Ret (err, calls)" and "kq_KeyType req = KEY_TYPE_ECDSA ch"
  shows "(case err of
      Some e \<Rightarrow> calls = []
    | None \<Rightarrow> (\<exists>sigs. calls = [PostKeysignResult (zero_KeysignResult\<lparr>ks_Request := Some req, ks_Signatures := sigs\<rparr>)] \<and>
        list_all2 (\<lambda>m sig. sn_Sign sl (km_BytesToSign m) (sn_ecPrivate api) = Ret (Inr sig))
          (kq_KeysignMessages req) sigs))"
  using assms by (auto simp: single_KeySign_def ret_iffs zero_KeysignResult_def dest: sign_messages_all)

end
