(* ===== verification/Database_Init.thy ===== *)
theory Database_Init
  imports Heart_Api
begin

section \<open>Connecting and migrating the database: db/database.go, db/migrations.go\<close>

text \<open>
  \<open>Init\<close> connects and then creates the tables from the embedded migration files, which it first writes to
  a temporary directory. The file system is a map from paths to contents; \<open>os_fail\<close> says which accesses
  fail. The SQL drivers, with connections \<open>'k\<close> and the state \<open>'c\<close> of the database, and the migration
  library are parameters. Pool settings of the connection are left out.
\<close>

record ('k, 'c) init_env =
  sq_Open :: "string \<Rightarrow> string \<Rightarrow> nat \<Rightarrow> 'k result"
  sq_Exec :: "'k \<Rightarrow> string \<Rightarrow> 'c \<Rightarrow> string option \<times> 'c"
  sq_Close :: "'k \<Rightarrow> 'c \<Rightarrow> string option \<times> 'c"
  mg_WithInstance :: "'k \<Rightarrow> opaque result"
  mg_NewWithDatabaseInstance :: "string \<Rightarrow> string \<Rightarrow> opaque \<Rightarrow> opaque result"
  mg_Up :: "opaque \<Rightarrow> (string, string) gmap \<Rightarrow> 'c \<Rightarrow> string option \<times> 'c"
  os_MkdirTemp :: "string result"
  os_fail :: "string \<Rightarrow> string option"
  migrationsFS :: "(string \<times> string option) list"

text \<open>An entry of \<open>migrationsFS\<close> without a content is a directory; the entries are in the order of \<open>fs.WalkDir\<close>.\<close>

record 'c world =
  w_files :: "(string, string) gmap"
  w_sql :: 'c

record 'k SqlConn =
  sd_db :: "'k option"
  sd_config :: DbConfig

definition NewDatabase :: "DbConfig \<Rightarrow> 'k SqlConn" where
  "NewDatabase config = \<lparr>sd_db = None, sd_config = config\<rparr>"

definition GetLocalhostDbConfig :: DbConfig where
  "GetLocalhostDbConfig = \<lparr>dc_Host = ''0.0.0.0'', dc_Port = 3306, dc_Username = ''root'', dc_Password = ''password'',
     dc_Schema = ''dheart'', dc_InMemory = False\<rparr>"

text \<open>The loop opens the server at most five times.\<close>

fun open_retry :: "('k, 'c) init_env \<Rightarrow> string \<Rightarrow> nat \<Rightarrow> nat \<Rightarrow> 'k result" where
  "open_retry ie dsn 0 i = Inl ''''"
| "open_retry ie dsn (Suc n) i =
     (case sq_Open ie ''mysql'' dsn i of
        Inr database \<Rightarrow> Inr database
      | Inl err \<Rightarrow> if n = 0 then Inl err else open_retry ie dsn n (Suc i))"

definition dsn_of :: "DbConfig \<Rightarrow> string" where
  "dsn_of c = dc_Username c @ '':'' @ dc_Password c @ ''@tcp('' @ dc_Host c @ '':'' @ dec_of_int (dc_Port c) @ '')/''"

text \<open>
  The error of opening the in-memory database is not looked at: the settings of the connection
  pool then dereference a nil pointer.
\<close>

definition Connect ::
  "('k, 'c) init_env \<Rightarrow> 'k SqlConn \<Rightarrow> 'c world \<Rightarrow> (string option \<times> 'k SqlConn \<times> 'c world) go" where
  "Connect ie d w =
     (let c = sd_config d in
      if dc_Host c = '''' \<and> \<not> dc_InMemory c then Ret (Some ''DB host cannot be empty'', d, w)
      else if dc_InMemory c
      then (case sq_Open ie ''sqlite3'' '':memory:'' 0 of
              Inl err \<Rightarrow> Panic NilDereference
            | Inr database \<Rightarrow> Ret (None, d\<lparr>sd_db := Some database\<rparr>, w))
      else case open_retry ie (dsn_of c) 5 0 of
             Inl err \<Rightarrow> Ret (Some err, d, w)
           | Inr database \<Rightarrow>
               (case sq_Exec ie database (''CREATE DATABASE IF NOT EXISTS '' @ dc_Schema c) (w_sql w) of
                  (Some err, s) \<Rightarrow> Ret (Some err, d, w\<lparr>w_sql := s\<rparr>)
                | (None, s) \<Rightarrow>
                    (let w1 = w\<lparr>w_sql := snd (sq_Close ie database s)\<rparr> in
                     case sq_Open ie ''mysql'' (dsn_of c @ dc_Schema c) 5 of
                       Inl err \<Rightarrow> Ret (Some err, d, w1)
                     | Inr database \<Rightarrow> Ret (None, d\<lparr>sd_db := Some database\<rparr>, w1))))"

subsection \<open>Migration files\<close>

text \<open>
  The sub-tree \<open>migrations\<close> of the embedded files exists, so \<open>fs.Sub\<close> and the reading of an embedded file
  do not fail. Paths have no character that the verb \<open>%q\<close> would escape.
\<close>

definition path_Join :: "string \<Rightarrow> string \<Rightarrow> string" where
  "path_Join dir path = (if path = ''.'' then dir else dir @ ''/'' @ path)"

fun write_entries ::
  "('k, 'c) init_env \<Rightarrow> string \<Rightarrow> (string \<times> string option) list \<Rightarrow> (string, string) gmap \<Rightarrow> string option \<times> (string, string) gmap" where
  "write_entries ie tmpDir [] files = (None, files)"
| "write_entries ie tmpDir ((path, content) # rest) files =
     (let dst = path_Join tmpDir path in
      if dst = tmpDir then write_entries ie tmpDir rest files
      else case content of
             None \<Rightarrow>
               (case os_fail ie dst of
                  Some err \<Rightarrow> (Some (''failed to mkdir '' @ [CHR 0x22] @ dst @ [CHR 0x22] @ '': '' @ err), files)
                | None \<Rightarrow> write_entries ie tmpDir rest files)
           | Some text \<Rightarrow>
               (case os_fail ie dst of
                  Some err \<Rightarrow> (Some err, files)
                | None \<Rightarrow> write_entries ie tmpDir rest (gput dst text files)))"

definition MigrationsTempDir :: "('k, 'c) init_env \<Rightarrow> (string, string) gmap \<Rightarrow> string result \<times> (string, string) gmap" where
  "MigrationsTempDir ie files =
     (case os_MkdirTemp ie of
        Inl err \<Rightarrow> (Inl err, files)
      | Inr tmpDir \<Rightarrow>
          (case write_entries ie tmpDir (migrationsFS ie) files of
             (Some err, files') \<Rightarrow> (Inl err, files')
           | (None, files') \<Rightarrow> (Inr tmpDir, files')))"

definition in_dir :: "string \<Rightarrow> string \<Rightarrow> bool" where
  "in_dir dir path \<longleftrightarrow> prefix (dir @ ''/'') path"

definition RemoveAll :: "string \<Rightarrow> (string, string) gmap \<Rightarrow> (string, string) gmap" where
  "RemoveAll dir files = filter (\<lambda>(path, _). \<not> in_dir dir path) files"

text \<open>\<open>ioutil.ReadDir\<close>: the names of the files that are directly in a directory, sorted.\<close>

definition ReadDir :: "('k, 'c) init_env \<Rightarrow> string \<Rightarrow> (string, string) gmap \<Rightarrow> string list result" where
  "ReadDir ie dir files =
     (case os_fail ie dir of
        Some err \<Rightarrow> Inl err
      | None \<Rightarrow> Inr (sort (filter (\<lambda>name. CHR 0x2F \<notin> set name) (map (drop (Suc (length dir))) (filter (in_dir dir) (map fst files))))))"

definition ReadFile :: "('k, 'c) init_env \<Rightarrow> string \<Rightarrow> (string, string) gmap \<Rightarrow> string result" where
  "ReadFile ie path files =
     (case os_fail ie path of
        Some err \<Rightarrow> Inl err
      | None \<Rightarrow> (case gget files path of None \<Rightarrow> Inl ''file does not exist'' | Some text \<Rightarrow> Inr text))"

definition HasSuffix :: "string \<Rightarrow> string \<Rightarrow> bool" where
  "HasSuffix s sfx \<longleftrightarrow> suffix sfx s"

fun run_files ::
  "('k, 'c) init_env \<Rightarrow> 'k \<Rightarrow> string \<Rightarrow> string list \<Rightarrow> 'c world \<Rightarrow> string option \<times> 'c world" where
  "run_files ie conn dir [] w = (None, w)"
| "run_files ie conn dir (f # fs) w =
     (case ReadFile ie (path_Join dir f) (w_files w) of
        Inl err \<Rightarrow> (Some err, w)
      | Inr query \<Rightarrow>
          (case sq_Exec ie conn query (w_sql w) of
             (Some err, s) \<Rightarrow> (Some err, w\<lparr>w_sql := s\<rparr>)
           | (None, s) \<Rightarrow> run_files ie conn dir fs (w\<lparr>w_sql := s\<rparr>)))"

definition inMemoryMigration ::
  "('k, 'c) init_env \<Rightarrow> 'k SqlConn \<Rightarrow> 'c world \<Rightarrow> (string option \<times> 'c world) go" where
  "inMemoryMigration ie d w =
     (case MigrationsTempDir ie (w_files w) of
        (Inl err, files) \<Rightarrow> Ret (Some (''failed to create temporary directory for migrations: '' @ err), w\<lparr>w_files := files\<rparr>)
      | (Inr migrationDir, files) \<Rightarrow>
          (case ReadDir ie migrationDir files of
             Inl err \<Rightarrow> Ret (Some err, w\<lparr>w_files := RemoveAll migrationDir files\<rparr>)
           | Inr names \<Rightarrow>
               (let migrationFiles = sort (filter (\<lambda>f. HasSuffix f ''.up.sql'') names) in
                if migrationFiles = [] then Ret (None, w\<lparr>w_files := RemoveAll migrationDir files\<rparr>)
                else go_bind (go_deref (sd_db d)) (\<lambda>conn.
                       case run_files ie conn migrationDir migrationFiles (w\<lparr>w_files := files\<rparr>) of
                         (err, w') \<Rightarrow> Ret (err, w'\<lparr>w_files := RemoveAll migrationDir (w_files w')\<rparr>)))))"

text \<open>The error of \<open>m.Up()\<close> is dropped.\<close>

definition doSqlMigration ::
  "('k, 'c) init_env \<Rightarrow> 'k SqlConn \<Rightarrow> 'c world \<Rightarrow> (string option \<times> 'c world) go" where
  "doSqlMigration ie d w =
     go_bind (go_deref (sd_db d)) (\<lambda>conn.
       case mg_WithInstance ie conn of
         Inl err \<Rightarrow> Ret (Some err, w)
       | Inr driver \<Rightarrow>
           (case MigrationsTempDir ie (w_files w) of
              (Inl err, files) \<Rightarrow> Ret (Some (''failed to create temporary directory for migrations: '' @ err), w\<lparr>w_files := files\<rparr>)
            | (Inr migrationDir, files) \<Rightarrow>
                (case mg_NewWithDatabaseInstance ie (''file://'' @ migrationDir) ''mysql'' driver of
                   Inl err \<Rightarrow> Ret (Some err, w\<lparr>w_files := RemoveAll migrationDir files\<rparr>)
                 | Inr m \<Rightarrow>
                     Ret (None, w\<lparr>w_files := RemoveAll migrationDir files, w_sql := snd (mg_Up ie m files (w_sql w))\<rparr>))))"

definition db_Init ::
  "('k, 'c) init_env \<Rightarrow> 'k SqlConn \<Rightarrow> 'c world \<Rightarrow> (string option \<times> 'k SqlConn \<times> 'c world) go" where
  "db_Init ie d w =
     go_bind (Connect ie d w) (\<lambda>(err, d1, w1).
       case err of
         Some err \<Rightarrow> Ret (Some err, d1, w1)
       | None \<Rightarrow>
           go_bind (if dc_InMemory (sd_config d1) then inMemoryMigration ie d1 w1 else doSqlMigration ie d1 w1) (\<lambda>(err, w2).
             Ret (err, d1, w2)))"

definition db_Close :: "('k, 'c) init_env \<Rightarrow> 'k SqlConn \<Rightarrow> 'c world \<Rightarrow> (string option \<times> 'c world) go" where
  "db_Close ie d w =
     go_bind (go_deref (sd_db d)) (\<lambda>conn.
       case sq_Close ie conn (w_sql w) of (err, s) \<Rightarrow> Ret (err, w\<lparr>w_sql := s\<rparr>))"

subsection \<open>The tables are created in order\<close>

text \<open>The embedded files, all plain files with different names.\<close>

definition plain_files :: "(string \<times> string) list \<Rightarrow> (string \<times> string option) list" where
  "plain_files ms = map (\<lambda>(name, text). (name, Some text)) ms"

definition names_ok :: "(string \<times> string) list \<Rightarrow> bool" where
  "names_ok ms \<longleftrightarrow> distinct (map fst ms) \<and> (\<forall>name \<in> set (map fst ms). name \<noteq> ''.'' \<and> name \<noteq> '''' \<and> CHR 0x2F \<notin> set name)"

lemma gput_fresh: "k \<notin> gkeys m \<Longrightarrow> gput k v m = m @ [(k, v)]"
  unfolding gput_def gkeys_def by (induction m) auto

lemma write_entries_plain:
  assumes "\<And>path. os_fail ie path = None" and "names_ok ms" and "\<forall>name \<in> set (map fst ms). path_Join dir name \<notin> gkeys files"
  shows "write_entries ie dir (plain_files ms) files = (None, files @ map (\<lambda>(name, text). (path_Join dir name, text)) ms)"
  using assms(2,3)
proof (induction ms arbitrary: files)
  case (Cons a ms)
  obtain name body where a: "a = (name, body)" by (cases a)
  have name: "path_Join dir name = dir @ ''/'' @ name" "name \<notin> set (map fst ms)"
    using Cons.prems(1) by (auto simp: names_ok_def path_Join_def a)
  have new: "path_Join dir name \<notin> gkeys files" using Cons.prems(2) by (simp add: a)
  have inj: "path_Join dir name' \<noteq> path_Join dir name" if "name' \<in> set (map fst ms)" for name'
    using that Cons.prems(1) name by (auto simp: names_ok_def path_Join_def a)
  have "write_entries ie dir (plain_files ms) (gput (path_Join dir name) body files) =
      (None, gput (path_Join dir name) body files @ map (\<lambda>(name, text). (path_Join dir name, text)) ms)"
  proof (rule Cons.IH)
    show "names_ok ms" using Cons.prems(1) by (simp add: names_ok_def)
    show "\<forall>name' \<in> set (map fst ms). path_Join dir name' \<notin> gkeys (gput (path_Join dir name) body files)"
      using Cons.prems(2) inj by (simp add: a)
  qed
  then show ?case
    using assms(1) new by (simp add: a plain_files_def gput_fresh name(1) Let_def)
qed (simp add: plain_files_def)

lemma run_files_all:
  assumes "\<And>path. os_fail ie path = None" and "\<And>q s. fst (sq_Exec ie conn q s) = None"
    and "\<forall>f \<in> set fs. gget (w_files w) (path_Join dir f) = Some (content f)"
  shows "run_files ie conn dir fs w =
    (None, w\<lparr>w_sql := fold (\<lambda>f s. snd (sq_Exec ie conn (content f) s)) fs (w_sql w)\<rparr>)"
  using assms(3)
proof (induction fs arbitrary: w)
  case (Cons f fs)
  obtain s where "sq_Exec ie conn (content f) (w_sql w) = (None, s)"
    using assms(2) [of "content f" "w_sql w"] by (cases "sq_Exec ie conn (content f) (w_sql w)") auto
  then show ?case
    using Cons assms(1) by (simp add: ReadFile_def)
qed simp

text \<open>The files once the migrations are written to a directory that held none, and what the reads of that directory return.\<close>

definition written :: "string \<Rightarrow> (string, string) gmap \<Rightarrow> (string \<times> string) list \<Rightarrow> (string, string) gmap" where
  "written dir files ms = files @ map (\<lambda>(name, text). (path_Join dir name, text)) ms"

lemma join_name:
  assumes "names_ok ms" and "name \<in> set (map fst ms)"
  shows "path_Join dir name = dir @ ''/'' @ name" "CHR 0x2F \<notin> set name" "in_dir dir (path_Join dir name)"
  using assms by (auto simp: names_ok_def path_Join_def in_dir_def)

lemma ReadDir_written:
  assumes "os_fail ie dir = None" and "names_ok ms" and "\<forall>path \<in> gkeys files. \<not> in_dir dir path"
  shows "ReadDir ie dir (written dir files ms) = Inr (sort (map fst ms))"
proof -
  have old: "filter (in_dir dir) (map fst files) = []" using assms(3) by (auto simp: gkeys_def filter_empty_conv)
  have "map fst (map (\<lambda>(name, text). (path_Join dir name, text)) ms) = map (path_Join dir) (map fst ms)" by auto
  moreover have "filter (in_dir dir) (map (path_Join dir) (map fst ms)) = map (path_Join dir) (map fst ms)"
    by (rule filter_True) (use join_name(3) [OF assms(2)] in auto)
  moreover have "map (drop (Suc (length dir)) \<circ> path_Join dir) (map fst ms) = map fst ms"
    by (rule map_idI) (use join_name(1) [OF assms(2)] in simp)
  moreover have "filter (\<lambda>name. CHR 0x2F \<notin> set name) (map fst ms) = map fst ms"
    by (rule filter_True) (use join_name(2) [OF assms(2)] in auto)
  ultimately show ?thesis
    unfolding ReadDir_def written_def map_append filter_append old using assms(1)
    by (simp only: option.case append_Nil list.map_comp comp_assoc list.map filter.simps)
qed

lemma RemoveAll_written:
  assumes "names_ok ms" and "\<forall>path \<in> gkeys files. \<not> in_dir dir path"
  shows "RemoveAll dir (written dir files ms) = files"
proof -
  have "filter (\<lambda>(path, _). \<not> in_dir dir path) files = files"
    using assms(2) by (auto simp: gkeys_def intro!: filter_True)
  moreover have "filter (\<lambda>(path, _). \<not> in_dir dir path) (map (\<lambda>(name, text). (path_Join dir name, text)) ms) = []"
    using join_name(3) [OF assms(1)] by (fastforce simp: filter_empty_conv)
  ultimately show ?thesis by (simp add: RemoveAll_def written_def)
qed

lemma gget_written:
  assumes "names_ok ms" and "\<forall>path \<in> gkeys files. \<not> in_dir dir path" and f: "f \<in> set (map fst ms)"
  shows "gget (written dir files ms) (path_Join dir f) = Some (the (map_of ms f))"
proof -
  obtain body where body: "(f, body) \<in> set ms" using f by auto
  have "path_Join dir f \<notin> fst ` set files"
    using assms(2) join_name(3) [OF assms(1) f, of dir] by (auto simp: gkeys_def)
  then have "gget (written dir files ms) (path_Join dir f) =
      map_of (map (\<lambda>(name, body). (path_Join dir name, body)) ms) (path_Join dir f)"
    by (simp add: gget_def written_def map_add_def map_of_eq_None_iff [THEN iffD2] split: option.splits)
  also have "\<dots> = Some body"
  proof (rule map_of_is_SomeI)
    have "inj_on (path_Join dir) (set (map fst ms))" using join_name(1) [OF assms(1)] by (auto simp: inj_on_def)
    then have "distinct (map (path_Join dir) (map fst ms))"
      using assms(1) unfolding distinct_map [of "path_Join dir"] names_ok_def by blast
    then show "distinct (map fst (map (\<lambda>(name, body). (path_Join dir name, body)) ms))"
      by (simp add: comp_def case_prod_beta)
  qed (use body in force)
  finally show ?thesis using assms(1) body by (simp add: names_ok_def)
qed

text \<open>
  C24. On a file system and a database that accept every access, the in-memory migration executes the
  statements of exactly the embedded \<open>.up.sql\<close> files, each once and in the order of their names, and
  leaves no file of the temporary directory behind.
\<close>

theorem migrations_in_order:
  assumes os: "\<And>path. os_fail ie path = None" "os_MkdirTemp ie = Inr dir" "\<forall>path \<in> gkeys (w_files w). \<not> in_dir dir path"
    and ms: "migrationsFS ie = plain_files ms" "names_ok ms"
    and db: "sd_db d = Some conn" "\<And>q s. fst (sq_Exec ie conn q s) = None"
  defines "ups \<equiv> sort (filter (\<lambda>f. HasSuffix f ''.up.sql'') (map fst ms))"
  shows "inMemoryMigration ie d w =
    Ret (None, w\<lparr>w_sql := fold (\<lambda>f s. snd (sq_Exec ie conn (the (map_of ms f)) s)) ups (w_sql w)\<rparr>)"
proof -
  let ?files = "written dir (w_files w) ms"
  have "\<forall>name \<in> set (map fst ms). path_Join dir name \<notin> gkeys (w_files w)" using os(3) join_name(3) [OF ms(2)] by blast
  from write_entries_plain [OF os(1) ms(2) this] have "MigrationsTempDir ie (w_files w) = (Inr dir, ?files)"
    using os(2) ms(1) by (simp add: MigrationsTempDir_def written_def)
  moreover have "sort (filter (\<lambda>f. HasSuffix f ''.up.sql'') (sort (map fst ms))) = ups"
    by (simp add: ups_def filter_sort sort_key_id_if_sorted)
  moreover have "gget ?files (path_Join dir f) = Some (the (map_of ms f))" if "f \<in> set ups" for f
    using that by (intro gget_written ms(2) os(3)) (simp add: ups_def)
  ultimately show ?thesis
    using run_files_all [OF os(1) db(2), of ups "w\<lparr>w_files := ?files\<rparr>" dir "\<lambda>f. the (map_of ms f)"] db(1)
    by (simp add: inMemoryMigration_def Let_def go_simps ReadDir_written [OF os(1) ms(2) os(3)] RemoveAll_written [OF ms(2) os(3)])
qed

definition two_migrations :: "(string \<times> string) list" where
  "two_migrations = [(''001.down.sql'', ''DROP''), (''001.up.sql'', ''CREATE A''), (''002.up.sql'', ''CREATE B'')]"

text \<open>A database that records its statements.\<close>

definition sample_init_env :: "(unit, string list) init_env" where
  "sample_init_env = \<lparr>sq_Open = (\<lambda>_ _ _. Inr ()), sq_Exec = (\<lambda>_ q s. (None, s @ [q])), sq_Close = (\<lambda>_ s. (None, s)),
     mg_WithInstance = (\<lambda>_. Inr 0), mg_NewWithDatabaseInstance = (\<lambda>_ _ _. Inr 0), mg_Up = (\<lambda>_ _ s. (Some ''dirty'', s)),
     os_MkdirTemp = Inr ''/tmp/m'', os_fail = (\<lambda>_. None), migrationsFS = plain_files two_migrations\<rparr>"

definition sample_world :: "string list world" where
  "sample_world = \<lparr>w_files = [(''/etc/x'', ''y'')], w_sql = []\<rparr>"

theorem migrations_in_order_witness:
  "inMemoryMigration sample_init_env \<lparr>sd_db = Some (), sd_config = GetLocalhostDbConfig\<rparr> sample_world =
    Ret (None, sample_world\<lparr>w_sql := [''CREATE A'', ''CREATE B'']\<rparr>)"
proof -
  have "names_ok two_migrations" by (simp add: names_ok_def two_migrations_def)
  moreover have "sort (filter (\<lambda>f. HasSuffix f ''.up.sql'') (map fst two_migrations)) = [''001.up.sql'', ''002.up.sql'']"
    by code_simp
  moreover have "\<not> in_dir ''/tmp/m'' ''/etc/x''" by (simp add: in_dir_def)
  ultimately show ?thesis
    using migrations_in_order [of sample_init_env "''/tmp/m''" sample_world two_migrations "\<lparr>sd_db = Some (), sd_config = GetLocalhostDbConfig\<rparr>" "()"]
    by (simp add: sample_init_env_def sample_world_def two_migrations_def gkeys_def)
qed

text \<open>With MySQL a migration that fails goes unnoticed: \<open>doSqlMigration\<close> returns no error whatever \<open>m.Up()\<close> says.\<close>

lemma doSqlMigration_ignores_Up:
  assumes "sd_db d = Some conn" and "mg_WithInstance ie conn = Inr driver"
    and "MigrationsTempDir ie (w_files w) = (Inr dir, files)"
    and "mg_NewWithDatabaseInstance ie (''file://'' @ dir) ''mysql'' driver = Inr m"
    and "mg_Up ie m files (w_sql w) = (Some err, s)"
  shows "\<exists>w'. doSqlMigration ie d w = Ret (None, w')"
  using assms by (simp add: doSqlMigration_def go_simps)


subsection \<open>A database that was initialised is connected\<close>

text \<open>\<open>createDb\<close> of the heart replaces its database by a new one and initialises it.\<close>

definition createDb ::
  "('k, 'c) init_env \<Rightarrow> ('w, 'd, 'h, 's) Heart \<Rightarrow> 'c world \<Rightarrow> (string option \<times> 'k SqlConn \<times> 'c world) go" where
  "createDb ie h w = db_Init ie (NewDatabase (hc_Db (ht_config h))) w"

lemma open_retry_Inr: "open_retry ie dsn n i = Inr conn \<Longrightarrow> \<exists>j. i \<le> j \<and> j < i + n \<and> sq_Open ie ''mysql'' dsn j = Inr conn"
proof (induction n arbitrary: i)
  case (Suc n)
  show ?case
  proof (cases "sq_Open ie ''mysql'' dsn i")
    case (Inl err)
    then have "open_retry ie dsn n (Suc i) = Inr conn" using Suc.prems by (auto split: if_splits)
    from Suc.IH [OF this] show ?thesis by (auto intro: Suc_leD)
  qed (use Suc.prems in auto)
qed simp

text \<open>What \<open>conn\<close> is a connection to: the in-memory database, or the configured schema of a server that was reached.\<close>

definition opened :: "('k, 'c) init_env \<Rightarrow> DbConfig \<Rightarrow> 'k \<Rightarrow> bool" where
  "opened ie c conn \<longleftrightarrow>
     (if dc_InMemory c then sq_Open ie ''sqlite3'' '':memory:'' 0 = Inr conn
      else dc_Host c \<noteq> '''' \<and> (\<exists>i < 5. \<exists>server. sq_Open ie ''mysql'' (dsn_of c) i = Inr server) \<and>
           sq_Open ie ''mysql'' (dsn_of c @ dc_Schema c) 5 = Inr conn)"

lemma Connect_connects:
  assumes "Connect ie d w = Ret (None, d', w')"
  shows "\<exists>conn. d' = d\<lparr>sd_db := Some conn\<rparr> \<and> opened ie (sd_config d) conn"
  using assms open_retry_Inr [of ie "dsn_of (sd_config d)" 5 0]
  by (fastforce simp: Connect_def opened_def Let_def split: if_splits sum.splits prod.splits option.splits)

lemma db_Init_connection:
  assumes "db_Init ie d w = Ret (None, d', w')"
  shows "\<exists>w1. Connect ie d w = Ret (None, d', w1)"
  using assms by (auto simp: db_Init_def ret_iffs split: prod.splits option.splits)

text \<open>
  When \<open>createDb\<close> returns no error, the database of the heart is connected to the schema of the
  configuration (or to the in-memory database), the server was reached within five attempts, and
  closing the database does not panic. An empty host is refused before anything is opened.
\<close>

theorem createDb_connected:
  fixes h :: "('w, 'd, 'h, 's) Heart" and w'' :: "'c world"
  assumes "createDb ie h w = Ret (None, d, w')"
  shows "sd_config d = hc_Db (ht_config h) \<and> db_Close ie d w'' \<noteq> Panic p \<and>
    (\<exists>conn. sd_db d = Some conn \<and> opened ie (hc_Db (ht_config h)) conn)"
proof -
  obtain w1 where "Connect ie (NewDatabase (hc_Db (ht_config h))) w = Ret (None, d, w1)"
    using db_Init_connection assms unfolding createDb_def by blast
  from Connect_connects [OF this] obtain conn where conn: "d = (NewDatabase (hc_Db (ht_config h)))\<lparr>sd_db := Some conn\<rparr>"
    "opened ie (hc_Db (ht_config h)) conn"
    by (auto simp: NewDatabase_def)
  have "db_Close ie d w'' \<noteq> Panic p"
    by (simp add: conn(1) db_Close_def go_simps split: prod.splits)
  then show ?thesis using conn by (simp add: NewDatabase_def)
qed

lemma sample_createDb: "\<exists>d w'. createDb sample_init_env new_heart sample_world = Ret (None, d, w')"
  by (simp add: createDb_def db_Init_def Connect_def NewDatabase_def new_heart_def NewHeart_def sample_config_def
      sample_init_env_def doSqlMigration_def MigrationsTempDir_def plain_files_def two_migrations_def path_Join_def
      sample_world_def go_simps Let_def eval_nat_numeral)

theorem createDb_connected_witness:
  "\<exists>d w'. createDb sample_init_env new_heart sample_world = Ret (None, d, w') \<and> sd_db d = Some ()"
proof -
  obtain d w' where "createDb sample_init_env new_heart sample_world = Ret (None, d, w')" using sample_createDb by blast
  with createDb_connected [OF this] show ?thesis by auto
qed

subsection \<open>The attempts of a start\<close>

text \<open>
  Each round of the loop in \<open>Start\<close> calls \<open>createDb\<close> on the files and the SQL server as the previous
  round left them; \<open>ies i\<close> is how the outside answers in round \<open>i\<close>. \<open>view\<close> is the state of the database as
  the interface \<open>'d Database\<close> of the heart sees it.
\<close>

fun world_at :: "(nat \<Rightarrow> ('k, 'c) init_env) \<Rightarrow> ('w, 'd, 'h, 's) Heart \<Rightarrow> 'c world \<Rightarrow> nat \<Rightarrow> 'c world" where
  "world_at ies h w 0 = w"
| "world_at ies h w (Suc i) =
     (case createDb (ies i) h (world_at ies h w i) of Ret (err, d, w') \<Rightarrow> w' | _ \<Rightarrow> world_at ies h w i)"

definition createDb_attempts ::
  "('k SqlConn \<Rightarrow> 'c world \<Rightarrow> 'd) \<Rightarrow> (nat \<Rightarrow> ('k, 'c) init_env) \<Rightarrow> ('w, 'd, 'h, 's) Heart \<Rightarrow> 'c world \<Rightarrow>
   nat \<Rightarrow> (string option \<times> 'd) go" where
  "createDb_attempts view ies h w i =
     go_bind (createDb (ies i) h (world_at ies h w i)) (\<lambda>(err, d, w'). Ret (err, view d w'))"

lemma Connect_returns: "Connect ie d w \<noteq> Hang"
  by (simp add: Connect_def Let_def split: sum.split prod.split option.split)

lemma migrations_return: "inMemoryMigration ie d w \<noteq> Hang" "doSqlMigration ie d w \<noteq> Hang"
  by (cases "sd_db d"; simp add: inMemoryMigration_def doSqlMigration_def Let_def go_deref_def
    split: prod.split sum.split)+

lemma createDb_attempts_return: "createDb_attempts view ies h w i \<noteq> Hang"
proof -
  let ?w = "world_at ies h w i" and ?d = "NewDatabase (hc_Db (ht_config h))"
  have "db_Init (ies i) ?d ?w \<noteq> Hang"
  proof (cases "Connect (ies i) ?d ?w")
    case (Ret r)
    obtain err d1 w1 where r: "r = (err, d1, w1)" by (cases r) auto
    have "inMemoryMigration (ies i) d1 w1 \<noteq> Hang" "doSqlMigration (ies i) d1 w1 \<noteq> Hang" by (rule migrations_return)+
    then show ?thesis
      by (cases "inMemoryMigration (ies i) d1 w1"; cases "doSqlMigration (ies i) d1 w1")
        (auto simp: db_Init_def Ret r split: option.split)
  qed (use Connect_returns in \<open>auto simp: db_Init_def\<close>)
  then show ?thesis unfolding createDb_attempts_def createDb_def by (cases "db_Init (ies i) ?d ?w") auto
qed

text \<open>
  With these attempts: a configuration without a database host keeps \<open>Start\<close> waiting forever, and an in-memory
  database that cannot be opened makes it panic at the first attempt.
\<close>

lemma Start_without_host:
  assumes "dc_Host (hc_Db (ht_config h)) = ''''" and "\<not> dc_InMemory (hc_Db (ht_config h))"
  shows "heart_Start he (createDb_attempts view ies h w) h = None"
proof -
  have "failed_attempt (createDb_attempts view ies h w i)" for i
    using assms by (simp add: createDb_attempts_def createDb_def db_Init_def Connect_def NewDatabase_def)
  then have "db_never_answers (createDb_attempts view ies h w)" by (simp add: db_never_answers_def)
  then show ?thesis by (simp add: heart_Start_def create_db_loop_iffs)
qed

lemma Start_unopened_memory:
  assumes "dc_InMemory (hc_Db (ht_config h))" and "sq_Open (ies 0) ''sqlite3'' '':memory:'' 0 = Inl err"
  shows "heart_Start he (createDb_attempts view ies h w) h = Some (Panic NilDereference)"
proof -
  have "createDb_attempts view ies h w 0 = Panic NilDereference"
    using assms by (simp add: createDb_attempts_def createDb_def db_Init_def Connect_def NewDatabase_def)
  then have "create_db_loop (createDb_attempts view ies h w) 0 = Some (Panic NilDereference)"
    by (subst create_db_loop.simps) simp
  then show ?thesis by (simp add: heart_Start_def)
qed

end
