(* ===== verification/Program_Start.thy ===== *)
theory Program_Start
  imports Server_Api Sisu_Client Database_Init
begin

section \<open>Configuration and start: core/config/toml.go, run/run.go, server/server.go\<close>

text \<open>
  The program reads its configuration, builds the API, starts it, and then serves it and dials Sisu
  in two goroutines. The TOML decoder, \<open>godotenv\<close> and the operating system are parameters; the logger
  is left out.
\<close>

subsection \<open>Writing a configuration file\<close>

text \<open>
  A template is text with the paths of fields in between. \<open>Execute\<close> of the package \<open>text/template\<close>
  looks each path up in the structure it is given and ends with an error at the first field that the
  structure does not have. \<open>config_field\<close> prints the fields of the configuration that are strings, numbers
  and booleans; the template names no other existing field. The error text leaves out the position.
\<close>

datatype piece = Lit string | Field "string list"

text \<open>Lines of the template end with a newline; the entries of a section are indented by a tab or by spaces.\<close>

definition quoted :: "string \<Rightarrow> string list \<Rightarrow> piece list" where
  "quoted key path = [Lit (key @ '' = '' @ [CHR 0x22]), Field path, Lit [CHR 0x22, CHR 0x0A]]"

definition plain :: "string \<Rightarrow> string list \<Rightarrow> piece list" where
  "plain key path = [Lit (key @ '' = ''), Field path, Lit [CHR 0x0A]]"

definition text_line :: "string \<Rightarrow> piece" where
  "text_line s = Lit (s @ [CHR 0x0A])"

definition defaultConfigTemplate :: "piece list" where
  "defaultConfigTemplate =
     [text_line ''# This is a TOML config file.'',
      text_line ''# For more information, see https://github.com/toml-lang/toml'',
      text_line ''''] @
     quoted ''home-dir'' [''HomeDir''] @ plain ''use-on-memory'' [''UseOnMemory''] @
     plain ''shortcut-preparams'' [''ShortcutPreparams''] @ quoted ''sisu-server-url'' [''SisuServerUrl''] @
     plain ''port'' [''Port''] @
     [text_line '''',
      text_line (replicate 79 CHR 0x23),
      text_line ''###                        Database Configuration                           ###'',
      text_line (replicate 79 CHR 0x23),
      text_line ''[db]''] @
     quoted (CHR 0x09 # ''host'') [''Db'', ''Host''] @ plain (CHR 0x09 # ''port'') [''Db'', ''Port''] @
     quoted (CHR 0x09 # ''username'') [''Db'', ''Username''] @ quoted (CHR 0x09 # ''password'') [''Db'', ''Password''] @
     quoted (CHR 0x09 # ''schema'') [''Db'', ''Schema''] @ quoted (CHR 0x09 # ''migration-path'') [''Db'', ''MigrationPath''] @
     [text_line ''[connection]'',
      text_line (''  host = '' @ [CHR 0x22] @ ''0.0.0.0'' @ [CHR 0x22]),
      text_line ''  port = 28300'',
      text_line (''  rendezvous = '' @ [CHR 0x22] @ ''rendezvous'' @ [CHR 0x22])] @
     plain ''  peers'' [''Connection'', ''BootstrapPeers'']"

definition print_bool :: "bool \<Rightarrow> string" where
  "print_bool b = (if b then ''true'' else ''false'')"

definition db_field :: "DbConfig \<Rightarrow> string \<Rightarrow> string option" where
  "db_field c = map_of
     [(''Host'', dc_Host c), (''Port'', dec_of_int (dc_Port c)), (''Username'', dc_Username c), (''Password'', dc_Password c),
      (''Schema'', dc_Schema c), (''InMemory'', print_bool (dc_InMemory c))]"

definition connection_field :: "ConnectionsConfig \<Rightarrow> string \<Rightarrow> string option" where
  "connection_field c = map_of
     [(''Host'', cc_Host c), (''Port'', dec_of_int (cc_Port c)), (''Rendezvous'', cc_Rendezvous c), (''Protocol'', cc_Protocol c),
      (''PrivateKeyType'', cc_PrivateKeyType c)]"

definition config_field :: "HeartConfig \<Rightarrow> string list \<Rightarrow> string option" where
  "config_field c path =
     (case path of
        [f] \<Rightarrow> map_of [(''HomeDir'', hc_HomeDir c), (''UseOnMemory'', print_bool (hc_UseOnMemory c)),
                 (''ShortcutPreparams'', print_bool (hc_ShortcutPreparams c)), (''SisuServerUrl'', hc_SisuServerUrl c),
                 (''Port'', dec_of_int (hc_Port c))] f
      | [s, f] \<Rightarrow> if s = ''Db'' then db_field (hc_Db c) f
                  else if s = ''Connection'' then connection_field (hc_Connection c) f else None
      | _ \<Rightarrow> None)"

fun template_Execute :: "piece list \<Rightarrow> (string list \<Rightarrow> string option) \<Rightarrow> string result" where
  "template_Execute [] field = Inr ''''"
| "template_Execute (Lit s # ps) field = map_sum id ((@) s) (template_Execute ps field)"
| "template_Execute (Field path # ps) field =
     (case field path of
        None \<Rightarrow> Inl (''can't evaluate field '' @ last path)
      | Some s \<Rightarrow> map_sum id ((@) s) (template_Execute ps field))"

text \<open>The error of writing the file is dropped.\<close>

definition WriteConfigFile ::
  "(string \<Rightarrow> string option) \<Rightarrow> string \<Rightarrow> HeartConfig \<Rightarrow> (string, string) gmap \<Rightarrow> (string, string) gmap go" where
  "WriteConfigFile failing configFilePath config files =
     (case template_Execute defaultConfigTemplate (config_field config) of
        Inl err \<Rightarrow> Panic (Raised err)
      | Inr buffer \<Rightarrow> Ret (if failing configFilePath = None then gput configFilePath buffer files else files))"

text \<open>The generator of a configuration for the local host.\<close>

definition localhost_config :: "string \<Rightarrow> HeartConfig" where
  "localhost_config home =
     \<lparr>hc_HomeDir = home @ ''/.sisu/dheart'', hc_UseOnMemory = True, hc_ShortcutPreparams = False,
      hc_SisuServerUrl = ''http://0.0.0.0:25456'', hc_Port = 28300,
      hc_Db = \<lparr>dc_Host = ''0.0.0.0'', dc_Port = 3306, dc_Username = ''root'', dc_Password = ''password'',
        dc_Schema = ''dheart'', dc_InMemory = False\<rparr>,
      hc_Connection = \<lparr>cc_Host = '''', cc_Port = 0, cc_Rendezvous = '''', cc_Protocol = '''', cc_Peers = [], cc_PrivateKeyType = ''''\<rparr>,
      hc_AesKey = []\<rparr>"

definition genLocalhostConfig ::
  "(string \<Rightarrow> string option) \<Rightarrow> string \<Rightarrow> (string, string) gmap \<Rightarrow> (string, string) gmap go" where
  "genLocalhostConfig failing home files =
     (let cfg = localhost_config home in WriteConfigFile failing (path_Join (hc_HomeDir cfg) ''dheart.toml'') cfg files)"

definition genEnv :: "(string \<Rightarrow> string option) \<Rightarrow> string \<Rightarrow> (string, string) gmap \<Rightarrow> (string, string) gmap" where
  "genEnv failing home files =
     (let homeDir = path_Join home ''.sisu/dheart'';
          content = ''HOME_DIR='' @ homeDir @ [CHR 0x0A] @
            ''AES_KEY_HEX=c787ef22ade5afc8a5e22041c17869e7e4714190d88ecec0a84e241c9431add0'' @ [CHR 0x0A]
      in if failing ''.env'' = None then gput ''.env'' content files else files)"

definition gen_main :: "(string \<Rightarrow> string option) \<Rightarrow> string \<Rightarrow> (string, string) gmap \<Rightarrow> (string, string) gmap go" where
  "gen_main failing home files = go_bind (genLocalhostConfig failing home files) (\<lambda>files. Ret (genEnv failing home files))"

text \<open>The fields a template names decide what \<open>Execute\<close> returns: the first one that is missing is the error.\<close>

fun template_fields :: "piece list \<Rightarrow> string list list" where
  "template_fields [] = []"
| "template_fields (Lit s # ps) = template_fields ps"
| "template_fields (Field path # ps) = path # template_fields ps"

lemma template_fields_append [simp]: "template_fields (ps @ qs) = template_fields ps @ template_fields qs"
  by (induction ps rule: template_fields.induct) auto

lemma template_fields_filter:
  "template_fields (filter (\<lambda>p. p \<noteq> Field a \<and> p \<noteq> Field b) ps) = filter (\<lambda>path. path \<noteq> a \<and> path \<noteq> b) (template_fields ps)"
  by (induction ps rule: template_fields.induct) auto

lemma template_Execute_fields:
  "case find (\<lambda>path. field path = None) (template_fields ps) of
     None \<Rightarrow> \<exists>buffer. template_Execute ps field = Inr buffer
   | Some path \<Rightarrow> template_Execute ps field = Inl (''can't evaluate field '' @ last path)"
  by (induction ps field rule: template_Execute.induct) (auto split: option.splits)

lemma default_fields:
  "template_fields defaultConfigTemplate =
     [[''HomeDir''], [''UseOnMemory''], [''ShortcutPreparams''], [''SisuServerUrl''], [''Port''],
      [''Db'', ''Host''], [''Db'', ''Port''], [''Db'', ''Username''], [''Db'', ''Password''], [''Db'', ''Schema''],
      [''Db'', ''MigrationPath''], [''Connection'', ''BootstrapPeers'']]"
  by (simp add: defaultConfigTemplate_def quoted_def plain_def text_line_def)

text \<open>
  The template names two fields that the configuration does not have, \<open>Db.MigrationPath\<close> and
  \<open>Connection.BootstrapPeers\<close>, and no other: whatever the configuration, \<open>WriteConfigFile\<close> panics at the
  first of them and writes nothing, and the generator of the local configuration panics before it
  writes the environment. Without these two fields every configuration could be written.
\<close>

theorem WriteConfigFile_panics:
  "WriteConfigFile failing path cfg files = Panic (Raised ''can't evaluate field MigrationPath'') \<and>
   gen_main failing home files = Panic (Raised ''can't evaluate field MigrationPath'') \<and>
   (\<exists>buffer. template_Execute
      (filter (\<lambda>p. p \<noteq> Field [''Db'', ''MigrationPath''] \<and> p \<noteq> Field [''Connection'', ''BootstrapPeers'']) defaultConfigTemplate)
      (config_field cfg) = Inr buffer)"
proof -
  have "template_Execute defaultConfigTemplate (config_field cfg) = Inl ''can't evaluate field MigrationPath''" for cfg
    using template_Execute_fields [of defaultConfigTemplate "config_field cfg"]
    by (simp add: default_fields config_field_def db_field_def)
  then have panics: "WriteConfigFile failing path cfg files = Panic (Raised ''can't evaluate field MigrationPath'')" for path cfg files
    by (simp add: WriteConfigFile_def)
  moreover have "gen_main failing home files = Panic (Raised ''can't evaluate field MigrationPath'')"
    by (simp add: gen_main_def genLocalhostConfig_def Let_def panics)
  moreover have "\<exists>buffer. template_Execute
      (filter (\<lambda>p. p \<noteq> Field [''Db'', ''MigrationPath''] \<and> p \<noteq> Field [''Connection'', ''BootstrapPeers'']) defaultConfigTemplate)
      (config_field cfg) = Inr buffer" (is "\<exists>buffer. template_Execute ?t _ = _")
    using template_Execute_fields [of ?t "config_field cfg"]
    by (simp add: template_fields_filter default_fields config_field_def db_field_def)
  ultimately show ?thesis by blast
qed


subsection \<open>Start\<close>

text \<open>
  \<open>st_Load\<close> is what \<open>godotenv.Load\<close> returns, with the environment after it; \<open>st_Listen\<close> is the error of
  listening at an address. The configuration is decoded by the TOML library. \<open>st_init\<close>, \<open>st_world\<close> and
  \<open>st_view\<close> are the outside that the attempts to create the database meet (theory \<open>Database_Init\<close>).
\<close>

record ('w, 'a, 'd, 'h, 's, 'k, 'q) start_env =
  st_Load :: "(string \<Rightarrow> string) result"
  st_exists :: "string \<Rightarrow> bool"
  st_MkdirAll :: "string \<Rightarrow> string option"
  st_DecodeFile :: "string \<Rightarrow> HeartConfig result"
  st_Listen :: "string \<Rightarrow> string option"
  st_heart :: "('w, 'a, 'd, 'h, 's) heart_env"
  st_init :: "nat \<Rightarrow> ('k, 'q) init_env"
  st_world :: "'q world"
  st_view :: "'k SqlConn \<Rightarrow> 'q world \<Rightarrow> 'd"

definition st_attempts ::
  "('w, 'a, 'd, 'h, 's, 'k, 'q) start_env \<Rightarrow> ('w, 'd, 'h, 's) Heart \<Rightarrow> nat \<Rightarrow> (string option \<times> 'd) go" where
  "st_attempts se h = createDb_attempts (st_view se) (st_init se) h (st_world se)"

definition ReadConfig :: "('w, 'a, 'd, 'h, 's, 'k, 'q) start_env \<Rightarrow> string \<Rightarrow> HeartConfig result" where
  "ReadConfig se path = st_DecodeFile se path"

record Server =
  srv_listenAddress :: string

definition NewServer :: "string \<Rightarrow> 16 word \<Rightarrow> Server" where
  "NewServer host port = \<lparr>srv_listenAddress = host @ '':'' @ dec_of_nat (unat port)\<rparr>"

definition server_Run :: "('w, 'a, 'd, 'h, 's, 'k, 'q) start_env \<Rightarrow> Server \<Rightarrow> unit go" where
  "server_Run se s = (case st_Listen se (srv_listenAddress s) of Some err \<Rightarrow> Panic (Raised err) | None \<Rightarrow> Ret ())"

definition LoadConfigEnv :: "('w, 'a, 'd, 'h, 's, 'k, 'q) start_env \<Rightarrow> (string \<Rightarrow> string) go" where
  "LoadConfigEnv se = (case st_Load se of Inl err \<Rightarrow> Panic (Raised err) | Inr getenv \<Rightarrow> Ret getenv)"

definition api_Init :: "('w, 'a, 'd, 'h, 's, 'k, 'q) start_env \<Rightarrow> ('w, 'd, 'h, 's) Api \<Rightarrow> 'd option go option" where
  "api_Init se api =
     (case api of
        TssApi h \<Rightarrow> map_option (\<lambda>r. go_bind r (\<lambda>d. Ret (Some d))) (tss_Init (st_heart se) (st_attempts se h) h)
      | SingleApi a \<Rightarrow> Some (Ret None))"

text \<open>
  What runs after the start: the API with the database of its heart, and the two goroutines, one with
  the server and one with the client that is to dial. The goroutine of the server listens first; a panic
  there ends the program and is part of the outcome. The value is \<open>None\<close> when \<open>Init\<close> does not return.
\<close>

record ('w, 'd, 'h, 's, 'c) running =
  run_api :: "('w, 'd, 'h, 's) Api"
  run_db :: "'d option"
  run_server :: Server
  run_client :: "'c DefaultClient"

definition home_file :: "string \<Rightarrow> string" where
  "home_file homeDir = (if homeDir = '''' then ''dheart.toml'' else path_Join homeDir ''dheart.toml'')"

definition SetupApiServer ::
  "('w, 'a, 'd, 'h, 's, 'k, 'q) start_env \<Rightarrow> (string \<Rightarrow> string) \<Rightarrow> ('w, 'd, 'h, 's, 'c) running go option" where
  "SetupApiServer se getenv =
     (let homeDir = getenv ''HOME_DIR'' in
      case (if st_exists se homeDir then None else st_MkdirAll se homeDir) of
        Some err \<Rightarrow> Some (Panic (Raised err))
      | None \<Rightarrow>
          (case ReadConfig se (home_file homeDir) of
             Inl err \<Rightarrow> Some (Panic (Raised err))
           | Inr cfg \<Rightarrow>
               (case hex_DecodeString (getenv ''AES_KEY_HEX'') of
                  Inl err \<Rightarrow> Some (Panic (Raised err))
                | Inr aesKey \<Rightarrow>
                    (let cfg = cfg\<lparr>hc_AesKey := aesKey\<rparr>; c = NewClient (hc_SisuServerUrl cfg); serverApi = GetApi cfg in
                     map_option (\<lambda>r. go_bind r (\<lambda>d.
                         let s = NewServer ''0.0.0.0'' (word_of_int (hc_Port cfg)) in
                         go_bind (server_Run se s) (\<lambda>_.
                           Ret \<lparr>run_api = serverApi, run_db = d, run_server = s, run_client = c\<rparr>)))
                       (api_Init se serverApi)))))"

definition Run :: "('w, 'a, 'd, 'h, 's, 'k, 'q) start_env \<Rightarrow> ('w, 'd, 'h, 's, 'c) running go option" where
  "Run se = (case LoadConfigEnv se of Panic p \<Rightarrow> Some (Panic p) | Hang \<Rightarrow> None | Ret getenv \<Rightarrow> SetupApiServer se getenv)"

subsection \<open>What a started program is\<close>

text \<open>What the start reads: the environment, the configuration with the key put in.\<close>

definition configured :: "('w, 'a, 'd, 'h, 's, 'k, 'q) start_env \<Rightarrow> HeartConfig \<Rightarrow> bool" where
  "configured se cfg \<longleftrightarrow> (\<exists>getenv cfg0 aesKey. st_Load se = Inr getenv \<and>
     (st_exists se (getenv ''HOME_DIR'') \<or> st_MkdirAll se (getenv ''HOME_DIR'') = None) \<and>
     st_DecodeFile se (home_file (getenv ''HOME_DIR'')) = Inr cfg0 \<and>
     hex_DecodeString (getenv ''AES_KEY_HEX'') = Inr aesKey \<and> cfg = cfg0\<lparr>hc_AesKey := aesKey\<rparr>)"

lemma configured_Run:
  "configured se cfg \<Longrightarrow>
   Run se = map_option (\<lambda>r. go_bind r (\<lambda>d.
       go_bind (server_Run se (NewServer ''0.0.0.0'' (word_of_int (hc_Port cfg)))) (\<lambda>_.
         Ret \<lparr>run_api = GetApi cfg, run_db = d, run_server = NewServer ''0.0.0.0'' (word_of_int (hc_Port cfg)),
              run_client = NewClient (hc_SisuServerUrl cfg)\<rparr>)))
     (api_Init se (GetApi cfg))"
  by (auto simp: configured_def Run_def LoadConfigEnv_def SetupApiServer_def ReadConfig_def Let_def)

lemma not_configured_Run: "\<forall>cfg. \<not> configured se cfg \<Longrightarrow> \<exists>p. Run se = Some (Panic p)"
  by (auto simp: configured_def Run_def LoadConfigEnv_def SetupApiServer_def ReadConfig_def Let_def
      split: sum.splits option.splits if_splits)

text \<open>The database of the first attempt that does not fail, with the preparams of the node.\<close>

definition database_up :: "('w, 'a, 'd, 'h, 's, 'k, 'q) start_env \<Rightarrow> HeartConfig \<Rightarrow> 'd \<Rightarrow> bool" where
  "database_up se cfg d' \<longleftrightarrow>
     (\<exists>i d. first_settled (st_attempts se (NewHeart cfg :: ('w, 'd, 'h, 's) Heart)) i \<and>
        st_attempts se (NewHeart cfg :: ('w, 'd, 'h, 's) Heart) i = Ret (None, d) \<and>
        prepare_params (st_heart se) (NewHeart cfg) d = Ret (None, d'))"

lemma Start_Ret:
  "heart_Start he attempts h = Some (Ret r) \<longleftrightarrow>
   (\<exists>d. create_db_loop attempts 0 = Some (Ret d) \<and> prepare_params he h d = Ret r)"
  by (auto simp: heart_Start_def map_option_eq_Some go_bind_eq_Ret_iff)

lemma Start_not_Hang: "heart_Start he attempts h \<noteq> Some Hang"
proof
  assume "heart_Start he attempts h = Some Hang"
  then obtain db where db: "create_db_loop attempts 0 = Some db" "go_bind db (prepare_params he h) = Hang"
    by (auto simp: heart_Start_def)
  then show False using create_db_loop_iffs(4) [of attempts] prepare_params_returns [of he h] by (cases db) auto
qed

lemma api_Init_iffs:
  fixes se :: "('w, 'a, 'd, 'h, 's, 'k, 'q) start_env"
  shows "api_Init se (GetApi cfg) = Some (Ret db) \<longleftrightarrow>
    (if hc_UseOnMemory cfg then db = None else \<exists>d. database_up se cfg d \<and> db = Some d)"
    and "api_Init se (GetApi cfg) = None \<longleftrightarrow> \<not> hc_UseOnMemory cfg \<and>
      (\<forall>i. failed_attempt (st_attempts se (NewHeart cfg :: ('w, 'd, 'h, 's) Heart) i))"
    and "api_Init se (GetApi cfg) \<noteq> Some Hang"
proof -
  let ?h = "NewHeart cfg :: ('w, 'd, 'h, 's) Heart"
  let ?start = "heart_Start (st_heart se) (st_attempts se ?h) ?h"
  have hang: "db_never_answers (st_attempts se ?h) \<longleftrightarrow> (\<forall>i. failed_attempt (st_attempts se ?h i))"
    using createDb_attempts_return by (fastforce simp: db_never_answers_def st_attempts_def)
  note loop = create_db_loop_iffs [of "st_attempts se ?h", unfolded hang]
  show "api_Init se (GetApi cfg) = Some (Ret db) \<longleftrightarrow>
      (if hc_UseOnMemory cfg then db = None else \<exists>d. database_up se cfg d \<and> db = Some d)"
  proof (cases "hc_UseOnMemory cfg")
    case False
    have "api_Init se (GetApi cfg) = Some (Ret db) \<longleftrightarrow> (\<exists>d. ?start = Some (Ret (None, d)) \<and> db = Some d)"
      using False by (auto simp: api_Init_def GetApi_def tss_Init_def map_option_eq_Some go_bind_eq_Ret_iff
          split: option.split_asm)
    then show ?thesis using False by (auto simp: Start_Ret loop(2) database_up_def)
  qed (auto simp: api_Init_def GetApi_def)
  show "api_Init se (GetApi cfg) = None \<longleftrightarrow> \<not> hc_UseOnMemory cfg \<and> (\<forall>i. failed_attempt (st_attempts se ?h i))"
    using loop(1) by (simp add: api_Init_def GetApi_def tss_Init_def heart_Start_def)
  show "api_Init se (GetApi cfg) \<noteq> Some Hang"
  proof (cases ?start)
    case (Some r)
    then have "r \<noteq> Hang" using Start_not_Hang by metis
    then show ?thesis
      using Some by (cases r) (auto simp: api_Init_def GetApi_def tss_Init_def split: option.split_asm)
  qed (simp add: api_Init_def GetApi_def tss_Init_def)
qed

lemma Run_serving:
  assumes "configured se cfg"
  shows "Run se = Some (Ret r) \<longleftrightarrow> (\<exists>db. api_Init se (GetApi cfg) = Some (Ret db) \<and>
    st_Listen se (srv_listenAddress (NewServer ''0.0.0.0'' (word_of_int (hc_Port cfg)))) = None \<and>
    r = \<lparr>run_api = GetApi cfg, run_db = db, run_server = NewServer ''0.0.0.0'' (word_of_int (hc_Port cfg)),
         run_client = NewClient (hc_SisuServerUrl cfg)\<rparr>)"
  unfolding configured_Run [OF assms]
  by (auto simp: map_option_eq_Some go_bind_eq_Ret_iff server_Run_def split: option.split_asm)

lemma Run_not_Hang:
  fixes se :: "('w, 'a, 'd, 'h, 's, 'k, 'q) start_env"
  assumes "configured se cfg"
  shows "(Run se :: ('w, 'd, 'h, 's, 'c) running go option) \<noteq> Some Hang"
proof (cases "api_Init se (GetApi cfg)")
  case (Some a)
  then have "a \<noteq> Hang" using api_Init_iffs(3) [of se cfg] by auto
  then show ?thesis
    unfolding configured_Run [OF assms] Some by (cases a) (simp_all add: server_Run_def split: option.split)
qed (simp add: configured_Run [OF assms])

lemma uint16_port: "unat (word_of_int p :: 16 word) = nat (p mod 65536)"
  by (simp add: unat_eq_nat_uint uint_word_of_int)

text \<open>
  C22. The program comes up exactly when the environment and the configuration can be read, the AES key is
  hexadecimal, the server can listen at the configured port modulo 65536 and, unless the node is a single
  one, the first attempt to create the database that does not fail succeeds and the preparams are there or
  can be made. It then serves the API of the configuration with the decoded key at that port, and its
  client is not connected yet. It waits forever exactly when the configuration asks for the network and
  every attempt to create the database fails; in every other case it panics.
\<close>

theorem Run_outcome:
  fixes se :: "('w, 'a, 'd, 'h, 's, 'k, 'q) start_env" and r :: "('w, 'd, 'h, 's, 'c) running"
  shows "(Run se = Some (Ret r) \<longleftrightarrow> (\<exists>cfg db. configured se cfg \<and>
      (if hc_UseOnMemory cfg then db = None else \<exists>d. database_up se cfg d \<and> db = Some d) \<and>
      st_Listen se (''0.0.0.0:'' @ dec_of_nat (nat (hc_Port cfg mod 65536))) = None \<and>
      r = \<lparr>run_api = GetApi cfg, run_db = db,
           run_server = \<lparr>srv_listenAddress = ''0.0.0.0:'' @ dec_of_nat (nat (hc_Port cfg mod 65536))\<rparr>,
           run_client = \<lparr>cl_client = None, cl_url = hc_SisuServerUrl cfg\<rparr>\<rparr>)) \<and>
   ((Run se :: ('w, 'd, 'h, 's, 'c) running go option) = None \<longleftrightarrow>
     (\<exists>cfg. configured se cfg \<and> \<not> hc_UseOnMemory cfg \<and>
        (\<forall>i. failed_attempt (st_attempts se (NewHeart cfg :: ('w, 'd, 'h, 's) Heart) i)))) \<and>
   (Run se :: ('w, 'd, 'h, 's, 'c) running go option) \<noteq> Some Hang"
proof (cases "\<exists>cfg. configured se cfg")
  case True
  then obtain cfg where cfg: "configured se cfg" ..
  then have only: "configured se c \<longleftrightarrow> c = cfg" for c by (auto simp: configured_def)
  have none: "(Run se :: ('w, 'd, 'h, 's, 'c) running go option) = None \<longleftrightarrow> api_Init se (GetApi cfg) = None"
    unfolding configured_Run [OF cfg] by simp
  have addr: "NewServer ''0.0.0.0'' (word_of_int (hc_Port cfg)) =
      \<lparr>srv_listenAddress = ''0.0.0.0:'' @ dec_of_nat (nat (hc_Port cfg mod 65536))\<rparr>"
    by (simp add: NewServer_def uint16_port)
  have one: "(\<exists>c. c = cfg \<and> P c) \<longleftrightarrow> P cfg" for P by blast
  show ?thesis
    unfolding only ex_simps one none Run_serving [OF cfg] api_Init_iffs(1,2) addr NewClient_def Server.select_convs
    by (intro conjI Run_not_Hang [OF cfg] refl)
next
  case False
  then obtain p where "(Run se :: ('w, 'd, 'h, 's, 'c) running go option) = Some (Panic p)" using not_configured_Run [of se] by blast
  then show ?thesis using False by simp
qed

text \<open>A configuration with port 70000: the server listens at 4464.\<close>

definition sample_start ::
  "((nat AvailablePresigns, unit) DefaultWorker, worker_action + TssMessage list, nat, unit, bytes list, unit, string list) start_env" where
  "sample_start = \<lparr>st_Load = Inr (\<lambda>v. if v = ''HOME_DIR'' then ''/root'' else ''0aff''), st_exists = (\<lambda>_. True),
     st_MkdirAll = (\<lambda>_. None), st_DecodeFile = (\<lambda>path. Inr ((localhost_config ''/root'')\<lparr>hc_Port := 70000\<rparr>)),
     st_Listen = (\<lambda>_. None), st_heart = sample_heart_env, st_init = (\<lambda>_. sample_init_env), st_world = sample_world,
     st_view = (\<lambda>_ w. length (w_sql w))\<rparr>"

theorem Run_outcome_witness:
  "\<exists>r :: ((nat AvailablePresigns, unit) DefaultWorker, nat, unit, bytes list, unit) running.
     Run sample_start = Some (Ret r) \<and> srv_listenAddress (run_server r) = ''0.0.0.0:4464'' \<and> cl_client (run_client r) = None"
proof -
  let ?cfg = "(localhost_config ''/root'')\<lparr>hc_Port := 70000, hc_AesKey := [10, 255]\<rparr>"
  let ?r = "\<lparr>run_api = GetApi ?cfg, run_db = None, run_server = \<lparr>srv_listenAddress = ''0.0.0.0:'' @ dec_of_nat (nat (hc_Port ?cfg mod 65536))\<rparr>,
      run_client = \<lparr>cl_client = None, cl_url = hc_SisuServerUrl ?cfg\<rparr>\<rparr> ::
      ((nat AvailablePresigns, unit) DefaultWorker, nat, unit, bytes list, unit) running"
  have "configured sample_start ?cfg" by (simp add: configured_def sample_start_def unhex_def)
  moreover have "hc_UseOnMemory ?cfg" by (simp add: localhost_config_def)
  moreover have "st_Listen sample_start a = None" for a by (simp add: sample_start_def)
  ultimately have "\<exists>cfg db. configured sample_start cfg \<and>
      (if hc_UseOnMemory cfg then db = None else \<exists>d. database_up sample_start cfg d \<and> db = Some d) \<and>
      st_Listen sample_start (''0.0.0.0:'' @ dec_of_nat (nat (hc_Port cfg mod 65536))) = None \<and>
      ?r = \<lparr>run_api = GetApi cfg, run_db = db,
            run_server = \<lparr>srv_listenAddress = ''0.0.0.0:'' @ dec_of_nat (nat (hc_Port cfg mod 65536))\<rparr>,
            run_client = \<lparr>cl_client = None, cl_url = hc_SisuServerUrl cfg\<rparr>\<rparr>"
    by (intro exI [of _ ?cfg] exI [of _ None] conjI) simp_all
  then have "Run sample_start = Some (Ret ?r)" by (rule Run_outcome [THEN conjunct1, THEN iffD2])
  moreover have "dec_of_nat 4464 = ''4464''" by (simp add: dec_of_nat.simps digit_char_def char_of_def bit_0)
  ultimately show ?thesis by (intro exI [of _ ?r]) simp
qed

end
