(* ===== verification/Spec2Isabelle.thy ===== *)
theory Spec2Isabelle
  imports Prelude Go_Slice Circular_Queue Work_Request Request_Queue Tss_Message Work_Message_Cache
    Message_Cache Database Message_Rounds Message_Monitor Blame_Manager Presign_Manager
    Available_Parties Prework_Selection Job Worker_Executor Default_Worker
    Nodes Api_Types Engine Engine_Scheduling Engine_Messages
    Encrypted_Store Stream_Frames Connection_Manager Hex_Hash Heart Heart_Api Heart_System
    Sisu_Client Server_Api Database_Init Program_Start
begin

text \<open>
  Verification of dheart, the threshold-signature node of the Sisu network (Go sources under \<open>src/\<close>).

  \<^bold>\<open>The program.\<close> Every validator runs one dheart beside its Sisu node. Sisu asks for a distributed key
  generation or a signing; the dhearts choose the participants, run the rounds of the protocol of
  \<open>tss-lib\<close> over libp2p, and each posts the outcome to its Sisu. One call goes through these parts:

  \<^item> \<open>run\<close>, \<open>server\<close>, \<open>client\<close>: process start, the API Sisu calls, and the connection on which results are
    posted (theories \<open>Program_Start\<close>, \<open>Server_Api\<close>, \<open>Sisu_Client\<close>).
  \<^item> \<open>core/heart.go\<close>: keys, readiness, and the translation of API calls into work requests (\<open>Heart\<close>; its
    guarantees in \<open>Heart_Api\<close>, those over a whole life in \<open>Heart_System\<close>; \<open>Api_Types\<close>, \<open>Nodes\<close>, \<open>Hex_Hash\<close>, \<open>Work_Request\<close> hold the data).
  \<^item> \<open>core/engine*.go\<close>: the request queue, at most two running workers, routing of messages, answers to
    requests for missing messages (\<open>Engine\<close>; \<open>Engine_Scheduling\<close> and \<open>Engine_Messages\<close> for its properties;
    \<open>Request_Queue\<close>, \<open>Message_Cache\<close>, \<open>Work_Message_Cache\<close>, \<open>Circular_Queue\<close>, \<open>Presign_Manager\<close> for its parts).
  \<^item> \<open>worker\<close>: a worker carries one work through the selection of the participants (\<open>Prework_Selection\<close>,
    \<open>Available_Parties\<close>) and the execution of a batch of jobs (\<open>Default_Worker\<close>, \<open>Worker_Executor\<close>, \<open>Job\<close>,
    \<open>Message_Monitor\<close>, \<open>Message_Rounds\<close>, \<open>Blame_Manager\<close>).
  \<^item> \<open>p2p\<close>: streams and connections (\<open>Stream_Frames\<close>, \<open>Connection_Manager\<close>); \<open>types/common\<close>: the wire messages
    and their keys (\<open>Tss_Message\<close>).
  \<^item> \<open>db\<close>, \<open>store\<close>, \<open>utils/crypto.go\<close>: persistence and encryption (\<open>Database\<close>, \<open>Database_Init\<close>, \<open>Encrypted_Store\<close>).

  \<^bold>\<open>How code is modelled.\<close> A Go function is one HOL function of the same name (with a prefix such as
  \<open>heart_\<close> or \<open>engine_\<close> where two types have a method of that name); a struct is a record, a method takes and
  returns the record. Theory \<open>Prelude\<close> gives the shared vocabulary: \<open>go\<close> values are a result, a panic with
  its reason, or \<open>Hang\<close> for a call that waits forever, errors are \<open>Inl\<close> or \<open>Some\<close> of the message, nil is
  \<open>None\<close>, maps are association lists, and a loop
  over a map takes its order as an argument restricted only by \<open>ranges\<close>. Where slices alias, as in the
  request queue and the message cache, theory \<open>Go_Slice\<close> gives a store of backing arrays with Go's
  \<open>append\<close>. Integers keep their width where it matters: the counters of the ring buffer wrap at 64 bits,
  frame lengths are 32-bit words, the server port a 16-bit word, AES-GCM runs on 128-bit words. What a
  function sends or reports is a list of actions it returns. A channel, a timer or a goroutine becomes the
  sequence of events it delivers; goroutines that a stream launches may run in any order (\<open>scheduled\<close> in
  \<open>Connection_Manager\<close>). A lock is modelled where a return leaves it held: a call that waits for it forever is
  \<open>Hang\<close> in \<open>Presign_Manager\<close>, and \<open>Stuck\<close> with the state it leaves in \<open>Engine\<close>; interleavings of critical
  sections are step relations in \<open>Presign_Manager\<close> and \<open>Engine_Scheduling\<close>; \<open>Heart_System\<close> runs whole calls one
  after the other and leaves out calls that panic. In \<open>default_worker_ops\<close> an argument stands for the presign
  manager that the engine shares with its signing workers.

  \<^bold>\<open>Termination.\<close> Loops are recursive functions with termination proofs; no fuel is used. Loops that retry
  until the outside world answers (\<open>create_db_loop\<close>, \<open>TryDial\<close>) are partial functions with value \<open>None\<close> when they
  never end, and the theorems say exactly when they end and how. The attempts of \<open>create_db_loop\<close> are those of
  \<open>createDb\<close> (\<open>createDb_attempts\<close> in \<open>Database_Init\<close>), with its panic.

  \<^bold>\<open>Interfaces.\<close> \<open>keyed_ring\<close> (what a ring buffer returns after additions), \<open>growth\<close> (how \<open>append\<close> may grow an
  array), \<open>tss_parties\<close> (the party lists of \<open>tss-lib\<close>), \<open>presign_source\<close> (who hands out presigns),
  \<open>startable_worker\<close> (what the engine relies on in a worker), \<open>secret_store\<close> and \<open>level_db\<close> (the encrypted store)
  are locales, each interpreted on the definitions that provide it.

  \<^bold>\<open>What is shown.\<close>
  \<^item> Presigns are never used twice, under any interleaving; members follow only what the leader chose, a
    leader decides unless the lock of its presign manager was lost, and all nodes choose the same leader.
  \<^item> The executor sends one message per round of a batch, reports one outcome, and reports at most once
    whatever happens; jobs forward everything; a key is announced only if it was saved.
  \<^item> The engine refines a first-come first-served scheduler with two slots; messages that come early
    reach their worker and, if they are updates, are replayed to its executor; missing messages are found
    exactly, asked for under the key they were sent under, and recovered from the sender's cache
    (\<open>missing_message_recovered\<close> below).
  \<^item> Nodes that are given the same keys in any order build the same request; an ECDSA signing request is answered
    once, with one signature per message in order (\<open>signing_outcome_posted\<close> below).
  \<^item> Every heart that a sequence of calls without a panic, messages and callbacks can produce (\<open>heart_life\<close>) is
    well-formed, posts results only for requests Sisu made, and never more of them than Sisu asked for.
  \<^item> Caches refine bounded windows, the request queue a stable priority queue, the encrypted store a map;
    framed streams, message keys and AES-GCM round-trip; the SQL statements of the database, except that of
    \<open>SavePeers\<close>, bind their placeholders; the start of the program comes up, panics or waits exactly as stated.
  \<^item> Where the code does something else than it means to, a lemma states what it does: an insertion in the
    middle of the queue overwrites a request, an unknown party freezes the engine, messages that arrive
    in one piece are lost.

  \<^bold>\<open>Parameters.\<close> Code outside \<open>src/\<close> is an argument: \<open>tss-lib\<close> parties and key data (opaque), hash functions,
  the AES block function, key codecs, libp2p, SQL drivers, JSON and protobuf encoders, LevelDB, the migration
  library, the RPC client, the operating system. What theorems need of them are named hypotheses, with
  witnesses on concrete functions.

  \<^bold>\<open>Not modelled.\<close> Test doubles, test utilities and the end-to-end drivers under \<open>test\<close>; the generated protobuf
  code (its message types are records); \<open>main.go\<close>, which calls \<open>Run\<close> and waits for a signal; logging and metrics;
  the pool settings of the SQL connection; the iterator of the store, which only exposes LevelDB's.
\<close>

section \<open>A missing message is recovered\<close>















section \<open>From the last round of a signing to the answer for Sisu\<close>

lemma GetEcSigningOutputs_length: "GetEcSigningOutputs signature rs = Ret data \<Longrightarrow> length data = length rs"
  by (induction rs arbitrary: data) (auto simp: ret_iffs)

lemma ec_signatures_length: "ec_signatures sl data = Ret sigs \<Longrightarrow> length sigs = length data"
  by (induction data arbitrary: sigs) (auto simp: ret_iffs Let_def)

text \<open>
  C9. When an ECDSA signing has finished on a node that was asked for it, and the engine handles the result
  without a panic, Sisu gets exactly one answer: the engine hands over one signature per message of the
  batch, in the order of the jobs, the heart posts them with \<open>OutcomeSuccess\<close> and with the request Sisu
  had made, and forgets the request, whatever work the engine starts next. The signatures are those the
  jobs computed: \<open>R\<close>, \<open>S\<close>, each padded to the size of the curve, and the recovery byte. (EdDSA signings,
  whose signatures have another layout, are not part of this.)
\<close>

theorem signing_outcome_posted:
  fixes h :: "('w, 'd, 'h, 's) Heart"
  assumes "engine_OnWorkerResult env r (map Some rs) e = Ret (acts, e')" and "wr_WorkType r = EcSigning"
    and "gget (ht_keysignRequests h) (wr_WorkId r) = Some q"
  shows "\<exists>sigs. heart_reacts acts h =
      ([PostKeysignResult (zero_KeysignResult\<lparr>ks_Outcome := OutcomeSuccess, ks_Signatures := sigs, ks_Request := Some q\<rparr>)],
       h\<lparr>ht_keysignRequests := gdel (wr_WorkId r) (ht_keysignRequests h)\<rparr>) \<and>
    length sigs = length rs \<and>
    (\<forall>i < length rs. \<exists>d g. jr_EcSigning (rs ! i) = Some d \<and> sl_EcSignature (ee_sig env) d = Some g \<and>
      sigs ! i = PadToLengthBytesForSignature (sg_R (ee_sig env) g) (sl_BitSize (ee_sig env) div 8) @
        PadToLengthBytesForSignature (sg_S (ee_sig env) g) (sl_BitSize (ee_sig env) div 8) @ [hd (sg_SignatureRecovery (ee_sig env) g)])"
proof -
  let ?sl = "ee_sig env"
  obtain data sigs next_acts where
    data: "GetEcSigningOutputs (sl_EcSignature ?sl) rs = Ret data" and sigs: "ec_signatures ?sl data = Ret sigs"
    and finish: "finishWorker env (wr_WorkId r) e = Ret (next_acts, e')"
    and acts: "acts = CbSigningFinished r (zero_KeysignResult\<lparr>ks_Outcome := OutcomeSuccess, ks_Signatures := sigs\<rparr>) # next_acts"
    using assms(1,2) by (auto simp: engine_OnWorkerResult_def onEcSigningFinished_def ret_iffs Let_def)
  have ignored: "heart_reacts next_acts h' = ([], h')" for h' :: "('w, 'd, 'h, 's) Heart"
    using finish startNextWork_actions unfolding finishWorker_def by (intro reacts_ignore_workers) blast
  have len: "length data = length rs" "length sigs = length data"
    using GetEcSigningOutputs_length [OF data] ec_signatures_length [OF sigs] by auto
  have outputs: "\<exists>d. jr_EcSigning (rs ! i) = Some d \<and> data ! i = sl_EcSignature ?sl d" if "i < length rs" for i
    using data that
  proof (induction rs arbitrary: data i)
    case (Cons x xs)
    then show ?case by (cases i) (auto simp: ret_iffs)
  qed simp
  show ?thesis
  proof (intro exI [of _ sigs] conjI allI impI)
    show "heart_reacts acts h =
      ([PostKeysignResult (zero_KeysignResult\<lparr>ks_Outcome := OutcomeSuccess, ks_Signatures := sigs, ks_Request := Some q\<rparr>)],
       h\<lparr>ht_keysignRequests := gdel (wr_WorkId r) (ht_keysignRequests h)\<rparr>)"
      using assms(3) by (simp add: acts ignored heart_OnWorkSigningFinished_def Let_def)
    show "length sigs = length rs" using len by simp
    fix i assume i: "i < length rs"
    obtain d where d: "jr_EcSigning (rs ! i) = Some d" "data ! i = sl_EcSignature ?sl d" using outputs [OF i] by blast
    then show "\<exists>d g. jr_EcSigning (rs ! i) = Some d \<and> sl_EcSignature ?sl d = Some g \<and>
      sigs ! i = PadToLengthBytesForSignature (sg_R ?sl g) (sl_BitSize ?sl div 8) @
        PadToLengthBytesForSignature (sg_S ?sl g) (sl_BitSize ?sl div 8) @ [hd (sg_SignatureRecovery ?sl g)]"
      using ec_signatures_nth [OF sigs, of i] i len by auto
  qed
qed


definition signed_job :: JobResult where
  "signed_job = (no_result True)\<lparr>jr_EcSigning := Some 9\<rparr>"

theorem signing_outcome_posted_witness:
  "\<exists>acts e' sigs.
    engine_OnWorkerResult sample_engine_env abc_signing [Some signed_job]
      (NewEngine ((abc_nodes ! 0)\<lparr>nd_PartyId := (abc ! 0)\<lparr>p_Id := ''node-a''\<rparr>\<rparr>) (0 :: nat)) = Ret (acts, e') \<and>
    fst (heart_reacts acts (ready_heart\<lparr>ht_keysignRequests := [(wr_WorkId abc_signing, sample_keysign)]\<rparr>)) =
      [PostKeysignResult (zero_KeysignResult\<lparr>ks_Outcome := OutcomeSuccess, ks_Signatures := sigs, ks_Request := Some sample_keysign\<rparr>)] \<and>
    length sigs = 1"
proof -
  let ?e = "NewEngine ((abc_nodes ! 0)\<lparr>nd_PartyId := (abc ! 0)\<lparr>p_Id := ''node-a''\<rparr>\<rparr>) 0 ::
    ((nat AvailablePresigns, unit) DefaultWorker, nat) Engine"
  have ty: "wr_WorkType abc_signing = EcSigning" by code_simp
  have "take_next (?e\<lparr>en_workers := gdel x (en_workers ?e)\<rparr>) = (None, ?e)" for x
    by (simp add: take_next_def NewEngine_def MaxWorker_def gdel_def Pop_def NewRequestQueue_def nil_slice_def)
  then have "finishWorker sample_engine_env (wr_WorkId abc_signing) ?e = Ret ([], ?e)"
    by (simp add: finishWorker_def startNextWork_def)
  moreover have "ee_sig sample_engine_env = ref_sig" "p_Id (en_myPid ?e) = ''node-a''"
    by (simp_all add: sample_engine_env_def NewEngine_def)
  ultimately have "\<exists>acts e'. engine_OnWorkerResult sample_engine_env abc_signing (map Some [signed_job]) ?e = Ret (acts, e')"
    by (simp add: engine_OnWorkerResult_def ty onEcSigningFinished_def short_id_def
        ref_sig_def signed_job_def no_result_def go_simps Let_def)
  then obtain acts e' where run: "engine_OnWorkerResult sample_engine_env abc_signing (map Some [signed_job]) ?e = Ret (acts, e')"
    by blast
  from signing_outcome_posted [OF run ty, of "ready_heart\<lparr>ht_keysignRequests := [(wr_WorkId abc_signing, sample_keysign)]\<rparr>" sample_keysign]
  show ?thesis using run by (auto simp: gget_def)
qed

end
